(* ===== verification/Prelude.thy ===== *)
theory Prelude
  imports Main "HOL-Library.Word" "HOL-Library.AList" "HOL-Library.Sublist"
begin

text \<open>
  What every component shares: the widths of the machine integers, Go's time values, results
  of fallible calls, and the generic lemmas on lists, association lists and words that the
  component theories use. Nothing here models code of the repository.
\<close>

section \<open>Types\<close>

type_synonym u16 = "16 word"
type_synonym u32 = "32 word"
type_synonym u64 = "64 word"
type_synonym byte = "8 word"

text \<open>
  A \<open>time.Time\<close> without monotonic clock and location is a number of nanoseconds since the
  Unix epoch; the zero value is January 1 of year 1.
\<close>

type_synonym gotime = int

definition zero_time :: gotime where
  "zero_time = - 62135596800 * 1000000000"

definition is_zero :: "gotime \<Rightarrow> bool" where
  "is_zero t \<longleftrightarrow> t = zero_time"

text \<open>A call that can fail returns \<open>Inl\<close> the error or \<open>Inr\<close> the value.\<close>

type_synonym ('s, 'e, 'a) outcome = "'s \<times> ('e + 'a)"

abbreviation failed :: "'e + 'a \<Rightarrow> bool" where
  "failed r \<equiv> isl r"

named_theorems store_inv \<open>operations of the store keep its integrity constraints\<close>
named_theorems store_frame \<open>tables an operation of the store leaves alone\<close>
section \<open>Lists\<close>

lemma distinct_map_filter: "distinct (map f xs) \<Longrightarrow> distinct (map f (filter p xs))"
  by (induction xs) auto

lemma distinct_map_snoc [simp]:
  "distinct (map f (xs @ [x])) \<longleftrightarrow> distinct (map f xs) \<and> f x \<notin> f ` set xs"
  by auto

lemma map_update_same:
  "(\<And>x. f (g x) = f x) \<Longrightarrow> map f (map (\<lambda>x. if p x then g x else x) xs) = map f xs"
  by (induction xs) auto

lemma find_None_iff_all: "find p xs = None \<longleftrightarrow> (\<forall>x \<in> set xs. \<not> p x)"
  by (auto simp: find_None_iff)

lemma find_SomeD: "find p xs = Some x \<Longrightarrow> x \<in> set xs \<and> p x"
  by (auto simp: find_Some_iff)

lemma find_unique:
  assumes "distinct (map f xs)" and "x \<in> set xs"
  shows "find (\<lambda>y. f y = f x) xs = Some x"
  using assms by (induction xs) (auto simp: image_iff)

lemma find_first_unique:
  assumes "x \<in> set xs" "p x" and "\<And>y. y \<in> set xs \<Longrightarrow> p y \<Longrightarrow> y = x"
  shows "find p xs = Some x"
  using assms
proof (induction xs)
  case (Cons a xs)
  show ?case
  proof (cases "p a")
    case True
    with Cons.prems(3) [of a] show ?thesis by simp
  next
    case False
    have "x \<in> set xs" using False Cons.prems(1,2) by auto
    then have "find p xs = Some x"
      by (rule Cons.IH) (use Cons.prems(2,3) in simp_all)
    with False show ?thesis by simp
  qed
qed simp

lemma filter_eq_self: "(\<And>x. x \<in> set xs \<Longrightarrow> p x) \<Longrightarrow> filter p xs = xs"
  by (simp add: filter_id_conv)

lemma sorted_wrt_map_filter:
  "sorted (map f xs) \<Longrightarrow> sorted (map f (filter p xs))"
  by (simp add: sorted_filter)

section \<open>Results of a list of fallible conversions\<close>

text \<open>The loop \<open>for rows.Next() { x, err := scan(rows); if err != nil { return nil, err }; out =
  append(out, x) }\<close>.\<close>

fun scan_all :: "('a \<Rightarrow> 'e + 'b) \<Rightarrow> 'a list \<Rightarrow> 'e + 'b list" where
  "scan_all f [] = Inr []"
| "scan_all f (x # xs) =
     (case f x of Inl e \<Rightarrow> Inl e
      | Inr y \<Rightarrow> (case scan_all f xs of Inl e \<Rightarrow> Inl e | Inr ys \<Rightarrow> Inr (y # ys)))"

lemma scan_all_Inr_iff:
  "scan_all f xs = Inr ys \<longleftrightarrow> list_all2 (\<lambda>x y. f x = Inr y) xs ys"
proof (induction xs arbitrary: ys)
  case Nil
  then show ?case by auto
next
  case (Cons x xs)
  then show ?case
    by (auto split: sum.splits simp: list_all2_Cons1 simp flip: Cons.IH)
qed

lemma scan_all_total:
  "(\<And>x. x \<in> set xs \<Longrightarrow> f x = Inr (g x)) \<Longrightarrow> scan_all f xs = Inr (map g xs)"
  by (induction xs) auto

section \<open>Association lists as Go maps\<close>

lemma map_of_update [simp]: "map_of (AList.update k v m) = (map_of m)(k \<mapsto> v)"
  by (simp add: update_conv')

lemma map_of_delete [simp]: "map_of (AList.delete k m) = (map_of m)(k := None)"
  by (simp add: delete_conv')

lemma map_of_drop_value:
  "distinct (map fst m) \<Longrightarrow>
     map_of [kv \<leftarrow> m. snd kv \<noteq> v] k = (if map_of m k = Some v then None else map_of m k)"
proof (induction m)
  case (Cons kv m)
  have "fst kv \<notin> fst ` set m \<Longrightarrow> map_of [kv \<leftarrow> m. snd kv \<noteq> v] (fst kv) = None"
    by (auto simp: map_of_eq_None_iff)
  with Cons show ?case by (cases kv) auto
qed simp

section \<open>Machine words\<close>

lemma u32_less_of_unat: "unat (a :: u32) < unat b \<longleftrightarrow> a < b"
  by (simp add: word_less_nat_alt)

lemma unat_Suc_word: "(a :: 'a::len word) < b \<Longrightarrow> unat (a + 1) = Suc (unat a)"
proof -
  assume "a < b"
  then have "a \<noteq> - 1"
    using word_order.extremum [of b] by auto
  then have "1 + a \<noteq> 0"
    by (metis add.commute add_eq_0_iff2)
  then show ?thesis by (simp add: unatSuc add.commute)
qed

lemma unat_u32_bound: "unat (x :: u32) < 4294967296"
proof -
  have "unat x < 2 ^ LENGTH(32)" by (rule unsigned_less)
  then show ?thesis by simp
qed

lemma unat_of_nat_u32: "k \<le> unat (x :: u32) \<Longrightarrow> unat (of_nat k :: u32) = k"
  using unat_u32_bound [of x] by (simp add: unat_of_nat)

end
