(* ===== verification/Float64.thy ===== *)
theory Float64
  imports Complex_Main Prelude
begin

text \<open>
  Go's \<open>float64\<close>: IEEE 754 binary64 with round-to-nearest-even, on top of exact rationals. A
  finite value is the rational it denotes; the two zeros are one value, which no operation of
  the repository tells apart. Every arithmetic operation is the exact operation followed by one
  rounding, as on amd64 (no fused multiply-add).
\<close>

datatype f64 = NaN | Inf bool | Fin rat \<comment> \<open>\<open>Inf True\<close> is plus infinity\<close>

fun is_nan :: "f64 \<Rightarrow> bool" where
  "is_nan NaN = True"
| "is_nan _ = False"

section \<open>Rounding\<close>

fun bits :: "int \<Rightarrow> nat" where
  "bits n = (if n \<le> 0 then 0 else Suc (bits (n div 2)))"

declare bits.simps [simp del]

text \<open>
  \<open>scale e n d\<close> is the fraction \<open>(n / d) / 2 ^ e\<close> as a numerator and a positive denominator.
  \<open>ilog2 n d\<close> is the binary exponent of the positive fraction \<open>n / d\<close>, that is
  \<open>2 ^ ilog2 n d \<le> n / d < 2 ^ (ilog2 n d + 1)\<close>.
\<close>

definition scale :: "int \<Rightarrow> int \<Rightarrow> int \<Rightarrow> int \<times> int" where
  "scale e n d = (if 0 \<le> e then (n, d * 2 ^ nat e) else (n * 2 ^ nat (- e), d))"

definition ilog2 :: "int \<Rightarrow> int \<Rightarrow> int" where
  "ilog2 n d =
     (let e = int (bits n) - int (bits d); (n', d') = scale e n d
      in if d' \<le> n' then e else e - 1)"

definition round_half_even :: "int \<Rightarrow> int \<Rightarrow> int" where
  "round_half_even n d =
     (let f = n div d; r = 2 * (n mod d)
      in if r < d then f else if r > d then f + 1 else if even f then f else f + 1)"

text \<open>
  A finite value is \<open>m * 2 ^ e\<close> with \<open>\<bar>m\<bar> \<le> 2 ^ 53\<close> and \<open>e \<ge> - 1074\<close>; the largest exponent
  of a finite value is 971, and there the significand stays below \<open>2 ^ 53\<close>.
\<close>

definition round64 :: "rat \<Rightarrow> f64" where
  "round64 q =
     (let (n, d) = quotient_of q in
      if n = 0 then Fin 0
      else let e = max (ilog2 \<bar>n\<bar> d) (- 1022) - 52;
               (n', d') = scale e n d;
               m = round_half_even n' d'
           in if e > 971 \<or> e = 971 \<and> \<bar>m\<bar> \<ge> 2 ^ 53 then Inf (n > 0)
              else Fin (if 0 \<le> e then of_int (m * 2 ^ nat e)
                        else of_int m / of_int (2 ^ nat (- e))))"

section \<open>Operations\<close>

fun f64_add :: "f64 \<Rightarrow> f64 \<Rightarrow> f64" where
  "f64_add (Fin a) (Fin b) = round64 (a + b)"
| "f64_add NaN _ = NaN"
| "f64_add _ NaN = NaN"
| "f64_add (Inf s) (Inf t) = (if s = t then Inf s else NaN)"
| "f64_add (Inf s) (Fin _) = Inf s"
| "f64_add (Fin _) (Inf t) = Inf t"

fun f64_mul :: "f64 \<Rightarrow> f64 \<Rightarrow> f64" where
  "f64_mul (Fin a) (Fin b) = round64 (a * b)"
| "f64_mul NaN _ = NaN"
| "f64_mul _ NaN = NaN"
| "f64_mul (Inf s) (Inf t) = Inf (s = t)"
| "f64_mul (Inf s) (Fin b) = (if b = 0 then NaN else Inf (s = (b > 0)))"
| "f64_mul (Fin a) (Inf t) = (if a = 0 then NaN else Inf (t = (a > 0)))"

text \<open>Division by zero takes the zero as positive: the code divides by positive values only.\<close>

fun f64_div :: "f64 \<Rightarrow> f64 \<Rightarrow> f64" where
  "f64_div (Fin a) (Fin b) =
     (if b = 0 then (if a = 0 then NaN else Inf (a > 0)) else round64 (a / b))"
| "f64_div NaN _ = NaN"
| "f64_div _ NaN = NaN"
| "f64_div (Inf s) (Inf t) = NaN"
| "f64_div (Inf s) (Fin b) = Inf (s = (b \<ge> 0))"
| "f64_div (Fin a) (Inf t) = Fin 0"

fun f64_lt :: "f64 \<Rightarrow> f64 \<Rightarrow> bool" where
  "f64_lt NaN _ = False"
| "f64_lt _ NaN = False"
| "f64_lt (Fin a) (Fin b) = (a < b)"
| "f64_lt (Fin a) (Inf t) = t"
| "f64_lt (Inf s) (Fin b) = (\<not> s)"
| "f64_lt (Inf s) (Inf t) = (\<not> s \<and> t)"

definition f64_gt0 :: "f64 \<Rightarrow> bool" where
  "f64_gt0 x = f64_lt (Fin 0) x"

definition f64_of_int :: "int \<Rightarrow> f64" where
  "f64_of_int n = round64 (of_int n)"

text \<open>\<open>int(x)\<close> of a \<open>float64\<close> truncates; what does not fit gives the smallest \<open>int\<close>, as on amd64.\<close>

definition min_int :: int where "min_int = - 9223372036854775808"

definition int_of_f64 :: "f64 \<Rightarrow> int" where
  "int_of_f64 x =
     (case x of
        Fin q \<Rightarrow> (let t = (if 0 \<le> q then \<lfloor>q\<rfloor> else - \<lfloor>- q\<rfloor>)
                  in if min_int \<le> t \<and> t \<le> 9223372036854775807 then t else min_int)
      | _ \<Rightarrow> min_int)"

section \<open>The order\<close>

lemma f64_lt_irrefl [simp]: "\<not> f64_lt x x"
  by (cases x) auto

lemma f64_lt_nan [simp]: "\<not> f64_lt x NaN" "\<not> f64_lt NaN x"
  by (cases x; simp)+

lemma f64_lt_asym: "f64_lt x y \<Longrightarrow> \<not> f64_lt y x"
  by (cases x; cases y) auto

lemma f64_lt_trans: "f64_lt x y \<Longrightarrow> f64_lt y z \<Longrightarrow> f64_lt x z"
  by (cases x; cases y; cases z) auto

text \<open>Away from NaN the order is total, so "not less" chains.\<close>

lemma f64_not_lt_trans:
  "\<not> f64_lt y x \<Longrightarrow> \<not> f64_lt z y \<Longrightarrow> y \<noteq> NaN \<Longrightarrow> \<not> f64_lt z x"
  by (cases x; cases y; cases z) auto

lemma f64_lt_le_trans:
  "f64_lt x y \<Longrightarrow> \<not> f64_lt z y \<Longrightarrow> z \<noteq> NaN \<Longrightarrow> f64_lt x z"
  by (cases x; cases y; cases z) auto

lemma f64_lt_inf: "f64_lt x (Inf True) \<longleftrightarrow> x \<noteq> NaN \<and> x \<noteq> Inf True"
  by (cases x) auto

lemma f64_not_lt_inf_left [simp]: "\<not> f64_lt (Inf True) x"
  by (cases x) auto

section \<open>Rounding\<close>

text \<open>Ties go to the even neighbour, every other value to the nearest integer.\<close>

lemma round_half_even_mono:
  assumes "0 < d" and "n \<le> n'"
  shows "round_half_even n d \<le> round_half_even n' d"
proof -
  have f: "n div d \<le> n' div d" using assms by (simp add: zdiv_mono1)
  have up: "round_half_even n d \<le> n div d + 1" and lo: "n' div d \<le> round_half_even n' d"
    by (simp_all add: round_half_even_def Let_def)
  show ?thesis
  proof (cases "n div d = n' div d")
    case True
    moreover have "n mod d = n - n div d * d" "n' mod d = n' - n' div d * d"
      by (simp_all add: minus_div_mult_eq_mod)
    ultimately have "n mod d \<le> n' mod d" using assms(2) by simp
    with True show ?thesis by (simp add: round_half_even_def Let_def)
  next
    case False
    with f up lo show ?thesis by linarith
  qed
qed

lemma round_half_even_exact: "0 < d \<Longrightarrow> round_half_even (k * d) d = k"
  by (simp add: round_half_even_def)

lemma round_half_even_near:
  assumes "0 < d"
  shows "\<bar>2 * (round_half_even n d * d - n)\<bar> \<le> d"
proof -
  define q r where "q = n div d" and "r = n mod d"
  have n: "n = q * d + r" by (simp add: q_def r_def)
  have r: "0 \<le> r" "r < d" using assms by (simp_all add: r_def)
  have "round_half_even n d = (if 2 * r < d then q else if 2 * r > d then q + 1
      else if even q then q else q + 1)"
    by (simp add: round_half_even_def Let_def q_def r_def)
  then have "round_half_even n d = q \<and> 2 * r \<le> d \<or> round_half_even n d = q + 1 \<and> d \<le> 2 * r"
    by (auto split: if_splits)
  then show ?thesis
    using r by (elim disjE) (simp_all add: n algebra_simps)
qed

lemma round64_0 [simp]: "round64 0 = Fin 0"
  by (simp add: round64_def)

end
