(* ===== verification/GoStrings.thy ===== *)
theory GoStrings
  imports Prelude
begin

text \<open>
  The functions of Go's standard library on strings that the repository uses: \<open>strings\<close>,
  \<open>strconv\<close>, \<open>encoding/hex\<close> and the two address functions of \<open>net\<close>. A Go string is a
  sequence of bytes, and so is an Isabelle \<open>string\<close>.
\<close>

section \<open>Prefixes, substrings, indices\<close>

definition hasPrefix :: "string \<Rightarrow> string \<Rightarrow> bool" where
  "hasPrefix s p \<longleftrightarrow> take (length p) s = p"

definition trimPrefix :: "string \<Rightarrow> string \<Rightarrow> string" where
  "trimPrefix s p = (if hasPrefix s p then drop (length p) s else s)"

fun contains :: "string \<Rightarrow> string \<Rightarrow> bool" where
  "contains [] t = (t = [])"
| "contains (c # cs) t = (hasPrefix (c # cs) t \<or> contains cs t)"

fun indexP :: "(char \<Rightarrow> bool) \<Rightarrow> string \<Rightarrow> nat option" where
  "indexP p [] = None"
| "indexP p (c # cs) = (if p c then Some 0 else map_option Suc (indexP p cs))"

fun lastIndexP :: "(char \<Rightarrow> bool) \<Rightarrow> string \<Rightarrow> nat option" where
  "lastIndexP p [] = None"
| "lastIndexP p (c # cs) =
     (case lastIndexP p cs of Some i \<Rightarrow> Some (Suc i) | None \<Rightarrow> if p c then Some 0 else None)"

lemma hasPrefix_iff: "hasPrefix s p \<longleftrightarrow> (\<exists>r. s = p @ r)"
  unfolding hasPrefix_def
  by (metis append_eq_conv_conj)

lemma hasPrefix_append [simp]: "hasPrefix (p @ r) p"
  by (simp add: hasPrefix_def)

lemma trimPrefix_append [simp]: "trimPrefix (p @ r) p = r"
  by (simp add: trimPrefix_def)

lemma contains_refl [simp]: "contains s s"
  by (cases s) (simp_all add: hasPrefix_def)

lemma contains_iff: "contains s t \<longleftrightarrow> (\<exists>a b. s = a @ t @ b)"
proof (induction s)
  case (Cons c cs)
  have "(\<exists>a b. c # cs = a @ t @ b) \<longleftrightarrow> (\<exists>b. c # cs = t @ b) \<or> (\<exists>a b. cs = a @ t @ b)"
    by (metis (no_types, lifting) Cons_eq_append_conv append_Cons append_Nil)
  with Cons.IH show ?case by (simp add: hasPrefix_iff)
qed simp

lemma contains_append1: "contains s t \<Longrightarrow> contains (s @ r) t"
  unfolding contains_iff by (metis append.assoc)

lemma indexP_None_iff: "indexP p s = None \<longleftrightarrow> (\<forall>c \<in> set s. \<not> p c)"
  by (induction s) auto

lemma lastIndexP_None_iff: "lastIndexP p s = None \<longleftrightarrow> (\<forall>c \<in> set s. \<not> p c)"
  by (induction s) (auto split: option.splits)

lemma indexP_SomeD:
  "indexP p s = Some i \<Longrightarrow> i < length s \<and> p (s ! i) \<and> (\<forall>c \<in> set (take i s). \<not> p c)"
  by (induction s arbitrary: i) (auto split: if_splits)

lemma lastIndexP_SomeD:
  "lastIndexP p s = Some i \<Longrightarrow> i < length s \<and> p (s ! i) \<and> (\<forall>c \<in> set (drop (Suc i) s). \<not> p c)"
  by (induction s arbitrary: i)
    (auto split: if_splits option.splits simp: lastIndexP_None_iff)

lemma lastIndexP_snoc: "\<not> p c \<Longrightarrow> lastIndexP p (s @ [c]) = lastIndexP p s"
  by (induction s) (auto split: option.splits)

lemma lastIndexP_append_sep:
  assumes "p c" and "\<forall>d \<in> set t. \<not> p d"
  shows "lastIndexP p (s @ c # t) = Some (length s)"
proof (induction s)
  case Nil
  from assms show ?case by (auto simp: lastIndexP_None_iff split: option.splits)
next
  case (Cons d s)
  then show ?case by simp
qed

section \<open>Characters\<close>

definition upper_letters :: string where
  "upper_letters = ''ABCDEFGHIJKLMNOPQRSTUVWXYZ''"

definition lower_letters :: string where
  "lower_letters = ''abcdefghijklmnopqrstuvwxyz''"

definition digits :: string where
  "digits = ''0123456789''"

definition lower_ascii :: "char \<Rightarrow> char" where
  "lower_ascii c = (case map_of (zip upper_letters lower_letters) c of None \<Rightarrow> c | Some d \<Rightarrow> d)"

text \<open>
  \<open>strings.ToLower\<close> on bytes. Two runes outside ASCII have a lower case inside it: U+212A
  (Kelvin sign, bytes E2 84 AA) becomes \<open>k\<close> and U+0130 (bytes C4 B0) becomes \<open>i\<close>. Every other
  rune outside ASCII goes to a rune outside ASCII; its bytes are left as they are, which the
  callers (they test for ASCII characters only) cannot tell apart.
\<close>

fun toLower :: "string \<Rightarrow> string" where
  "toLower [] = []"
| "toLower (c # cs) =
     (if c = CHR 0xE2 \<and> take 2 cs = [CHR 0x84, CHR 0xAA] then CHR ''k'' # toLower (drop 2 cs)
      else if c = CHR 0xC4 \<and> take 1 cs = [CHR 0xB0] then CHR ''i'' # toLower (drop 1 cs)
      else lower_ascii c # toLower cs)"

section \<open>Trimming\<close>

text \<open>The UTF-8 encodings of the runes that \<open>unicode.IsSpace\<close> accepts.\<close>

definition go_spaces :: "string list" where
  "go_spaces =
     [[CHR 0x20], [CHR 0x09], [CHR 0x0A], [CHR 0x0B], [CHR 0x0C], [CHR 0x0D],
      [CHR 0xC2, CHR 0x85], [CHR 0xC2, CHR 0xA0], [CHR 0xE1, CHR 0x9A, CHR 0x80],
      [CHR 0xE2, CHR 0x80, CHR 0x80], [CHR 0xE2, CHR 0x80, CHR 0x81],
      [CHR 0xE2, CHR 0x80, CHR 0x82], [CHR 0xE2, CHR 0x80, CHR 0x83],
      [CHR 0xE2, CHR 0x80, CHR 0x84], [CHR 0xE2, CHR 0x80, CHR 0x85],
      [CHR 0xE2, CHR 0x80, CHR 0x86], [CHR 0xE2, CHR 0x80, CHR 0x87],
      [CHR 0xE2, CHR 0x80, CHR 0x88], [CHR 0xE2, CHR 0x80, CHR 0x89],
      [CHR 0xE2, CHR 0x80, CHR 0x8A], [CHR 0xE2, CHR 0x80, CHR 0xA8],
      [CHR 0xE2, CHR 0x80, CHR 0xA9], [CHR 0xE2, CHR 0x80, CHR 0xAF],
      [CHR 0xE2, CHR 0x81, CHR 0x9F], [CHR 0xE3, CHR 0x80, CHR 0x80]]"

function trim_left :: "string list \<Rightarrow> string \<Rightarrow> string" where
  "trim_left es s =
     (case find (\<lambda>e. e \<noteq> [] \<and> hasPrefix s e) es of
        None \<Rightarrow> s
      | Some e \<Rightarrow> trim_left es (drop (length e) s))"
  by pat_completeness auto
termination
proof (relation "measure (\<lambda>(es, s). length s)", goal_cases)
  case 1
  show ?case by simp
next
  case (2 es s e)
  then have "e \<noteq> []" and "hasPrefix s e"
    by (auto dest: find_SomeD)
  then show ?case by (cases s; cases e) (auto simp: hasPrefix_def)
qed

declare trim_left.simps [simp del]

definition trimSpace :: "string \<Rightarrow> string" where
  "trimSpace s = rev (trim_left (map rev go_spaces) (rev (trim_left go_spaces s)))"

definition trimChar :: "char \<Rightarrow> string \<Rightarrow> string" where
  "trimChar d s = rev (dropWhile (\<lambda>c. c = d) (rev (dropWhile (\<lambda>c. c = d) s)))"

lemma trim_left_idle:
  assumes "\<forall>e \<in> set es. e \<noteq> [] \<longrightarrow> \<not> hasPrefix s e"
  shows "trim_left es s = s"
proof -
  from assms have "find (\<lambda>e. e \<noteq> [] \<and> hasPrefix s e) es = None"
    by (auto simp: find_None_iff)
  then show ?thesis by (simp add: trim_left.simps [of es s])
qed

lemma trimSpace_Nil [simp]: "trimSpace [] = []"
  by (simp add: trimSpace_def trim_left_idle hasPrefix_def)

lemma set_trimChar_subset: "set (trimChar d s) \<subseteq> set s"
  unfolding trimChar_def
  by (auto dest!: set_dropWhileD)

lemma length_trimChar: "length (trimChar d s) \<le> length s"
  unfolding trimChar_def
  by (metis length_dropWhile_le length_rev order_trans)

lemma trimChar_idle: "s = [] \<or> (hd s \<noteq> d \<and> last s \<noteq> d) \<Longrightarrow> trimChar d s = s"
proof (cases s)
  case (Cons c cs)
  assume "s = [] \<or> (hd s \<noteq> d \<and> last s \<noteq> d)"
  with Cons have h: "dropWhile (\<lambda>c. c = d) s = s" and l: "last s \<noteq> d" "s \<noteq> []"
    by auto
  from l have "dropWhile (\<lambda>c. c = d) (rev s) = rev s"
    by (metis (full_types) dropWhile_eq_self_iff hd_rev)
  with h show ?thesis by (simp add: trimChar_def)
qed (simp add: trimChar_def)

lemma trimChar_ends: "trimChar d s \<noteq> [] \<Longrightarrow> hd (trimChar d s) \<noteq> d \<and> last (trimChar d s) \<noteq> d"
proof -
  let ?l = "dropWhile (\<lambda>c. c = d) s"
  let ?r = "dropWhile (\<lambda>c. c = d) (rev ?l)"
  assume ne: "trimChar d s \<noteq> []"
  then have r: "?r \<noteq> []" by (simp add: trimChar_def)
  then have "hd ?r \<noteq> d" by (metis (full_types) hd_dropWhile)
  then have last: "last (trimChar d s) \<noteq> d"
    using r by (simp add: trimChar_def last_rev)
  have "?l \<noteq> []" using r by (metis dropWhile.simps(1) rev.simps(1))
  then have hl: "hd ?l \<noteq> d" by (metis (full_types) hd_dropWhile)
  have "?l = rev ?r @ rev (takeWhile (\<lambda>c. c = d) (rev ?l))"
    by (metis rev_append rev_rev_ident takeWhile_dropWhile_id)
  then have "hd ?l = hd (rev ?r)"
    using r by (metis hd_append2 rev_is_Nil_conv)
  with hl last show ?thesis by (simp add: trimChar_def)
qed

section \<open>Numbers and bytes as text\<close>

fun itoa :: "nat \<Rightarrow> string" where
  "itoa n = (if n < 10 then [digits ! n] else itoa (n div 10) @ [digits ! (n mod 10)])"

declare itoa.simps [simp del]

definition digit_val :: "char \<Rightarrow> nat option" where
  "digit_val c = indexP (\<lambda>d. d = c) digits"

fun atoi_from :: "nat \<Rightarrow> string \<Rightarrow> nat option" where
  "atoi_from acc [] = Some acc"
| "atoi_from acc (c # cs) =
     (case digit_val c of None \<Rightarrow> None | Some v \<Rightarrow> atoi_from (10 * acc + v) cs)"

definition atoi :: "string \<Rightarrow> nat option" where
  "atoi s = (if s = [] then None else atoi_from 0 s)"

definition hex_digits :: string where
  "hex_digits = ''0123456789abcdef''"

definition hex_encode :: "byte list \<Rightarrow> string" where
  "hex_encode bs =
     concat (map (\<lambda>b. [hex_digits ! (unat b div 16), hex_digits ! (unat b mod 16)]) bs)"

lemma digit_val_nth: "v < 10 \<Longrightarrow> digit_val (digits ! v) = Some v"
proof -
  assume "v < 10"
  then have "v \<in> {0, 1, 2, 3, 4, 5, 6, 7, 8, 9}" by auto
  then show ?thesis
    by (elim insertE) (simp_all add: digit_val_def digits_def)
qed

lemma atoi_from_append:
  "atoi_from acc (s @ t) = (case atoi_from acc s of None \<Rightarrow> None | Some v \<Rightarrow> atoi_from v t)"
  by (induction s arbitrary: acc) (auto split: option.splits)

lemma itoa_not_Nil [simp]: "itoa n \<noteq> []"
  by (subst itoa.simps) simp

lemma atoi_from_itoa: "atoi_from 0 (itoa n) = Some n"
proof (induction n rule: less_induct)
  case (less n)
  show ?case
  proof (cases "n < 10")
    case True
    then show ?thesis by (simp add: itoa.simps [of n] digit_val_nth)
  next
    case False
    then have "atoi_from 0 (itoa (n div 10)) = Some (n div 10)"
      by (intro less.IH) simp
    with False show ?thesis
      by (simp add: itoa.simps [of n] atoi_from_append digit_val_nth)
  qed
qed

lemma atoi_itoa [simp]: "atoi (itoa n) = Some n"
  by (simp add: atoi_def atoi_from_itoa)

lemma itoa_inject: "itoa m = itoa n \<longleftrightarrow> m = n"
  by (metis atoi_itoa option.inject)

lemma set_itoa: "set (itoa n) \<subseteq> set digits"
proof (induction n rule: less_induct)
  case (less n)
  have "digits ! (n mod 10) \<in> set digits"
    by (rule nth_mem) (simp add: digits_def)
  moreover have "n < 10 \<Longrightarrow> digits ! n \<in> set digits"
    by (rule nth_mem) (simp add: digits_def)
  ultimately show ?case
    using less.IH [of "n div 10"] by (subst itoa.simps) auto
qed

lemma length_hex_encode [simp]: "length (hex_encode bs) = 2 * length bs"
  by (induction bs) (simp_all add: hex_encode_def)

lemma set_hex_encode: "set (hex_encode bs) \<subseteq> set hex_digits"
proof -
  have "hex_digits ! (unat b div 16) \<in> set hex_digits \<and> hex_digits ! (unat b mod 16) \<in> set hex_digits"
    for b :: byte
  proof -
    have "unat b < 2 ^ LENGTH(8)" by (rule unsigned_less)
    then have "unat b div 16 < 16" by simp
    moreover have "length hex_digits = 16" by (simp add: hex_digits_def)
    ultimately show ?thesis by (auto intro!: nth_mem)
  qed
  then show ?thesis by (auto simp: hex_encode_def)
qed

lemma hex_encode_Nil_iff [simp]: "hex_encode bs = [] \<longleftrightarrow> bs = []"
  by (cases bs) (simp_all add: hex_encode_def)

section \<open>Host and port\<close>

text \<open>\<open>net.JoinHostPort\<close> and \<open>net.SplitHostPort\<close> (\<open>None\<close> for any of its errors).\<close>

definition joinHostPort :: "string \<Rightarrow> string \<Rightarrow> string" where
  "joinHostPort host port =
     (if CHR '':'' \<in> set host
      then ''['' @ host @ '']:'' @ port else host @ '':'' @ port)"

definition splitHostPort :: "string \<Rightarrow> (string \<times> string) option" where
  "splitHostPort hp =
     (case lastIndexP (\<lambda>c. c = CHR '':'') hp of
        None \<Rightarrow> None
      | Some i \<Rightarrow>
          if hd hp = CHR ''['' then
            (case indexP (\<lambda>c. c = CHR '']'') hp of
               None \<Rightarrow> None
             | Some e \<Rightarrow>
                 if Suc e \<noteq> i then None
                 else if CHR ''['' \<in> set (drop 1 hp) \<or> CHR '']'' \<in> set (drop (Suc e) hp) then None
                 else Some (drop 1 (take e hp), drop (Suc i) hp))
          else if CHR '':'' \<in> set (take i hp) then None
          else if CHR ''['' \<in> set hp \<or> CHR '']'' \<in> set hp then None
          else Some (take i hp, drop (Suc i) hp))"

lemma split_join_host_port:
  assumes "CHR ''['' \<notin> set h" "CHR '']'' \<notin> set h"
    and "CHR ''['' \<notin> set p" "CHR '']'' \<notin> set p" "CHR '':'' \<notin> set p"
  shows "splitHostPort (joinHostPort h p) = Some (h, p)"
proof (cases "CHR '':'' \<in> set h")
  case True
  let ?s = "''['' @ h @ '']:'' @ p"
  have s: "?s = (''['' @ h @ '']'') @ CHR '':'' # p" by simp
  have l: "lastIndexP (\<lambda>c. c = CHR '':'') ?s = Some (length h + 2)"
    using assms(5) by (subst s, subst lastIndexP_append_sep) auto
  have e: "indexP (\<lambda>c. c = CHR '']'') (h @ '']:'' @ p) = Some (length h)"
    using assms(2) by (induction h) auto
  then have e': "indexP (\<lambda>c. c = CHR '']'') ?s = Some (Suc (length h))"
    by simp
  show ?thesis
    using True assms l e' by (simp add: joinHostPort_def splitHostPort_def)
next
  case False
  have l: "lastIndexP (\<lambda>c. c = CHR '':'') (h @ '':'' @ p) = Some (length h)"
    using assms(5) lastIndexP_append_sep [of "\<lambda>c. c = CHR '':''" "CHR '':''" p h] by auto
  moreover have "hd (h @ '':'' @ p) \<noteq> CHR ''[''"
    using assms(1) by (cases h) auto
  ultimately show ?thesis
    using False assms by (simp add: joinHostPort_def splitHostPort_def)
qed

end
