(* ===== verification/Json.thy ===== *)
theory Json
  imports GoStrings
begin

text \<open>
  \<open>encoding/json\<close> as far as the repository uses it: the compact text \<open>Marshal\<close> writes into the
  columns of the store, and the reader for that text. Numbers are kept as their text
  (\<open>json.Number\<close>); the typed readers below interpret it. Bytes outside ASCII pass unchanged,
  which is \<open>Marshal\<close> on valid UTF-8 without U+2028 and U+2029. The main fact is
  \<open>parse_render\<close>: what \<open>Marshal\<close> wrote is read back.
\<close>

datatype json =
    JNull
  | JBool bool
  | JNum string
  | JStr string
  | JArr "json list"
  | JObj "(string \<times> json) list"

section \<open>Writing\<close>

definition escapes :: "(char \<times> string) list" where
  "escapes =
     [(CHR 0x22, CHR 0x5C # [CHR 0x22]),
      (CHR 0x5C, [CHR 0x5C, CHR 0x5C]),
      (CHR 0x00, CHR 0x5C # ''u0000''),
      (CHR 0x01, CHR 0x5C # ''u0001''),
      (CHR 0x02, CHR 0x5C # ''u0002''),
      (CHR 0x03, CHR 0x5C # ''u0003''),
      (CHR 0x04, CHR 0x5C # ''u0004''),
      (CHR 0x05, CHR 0x5C # ''u0005''),
      (CHR 0x06, CHR 0x5C # ''u0006''),
      (CHR 0x07, CHR 0x5C # ''u0007''),
      (CHR 0x08, CHR 0x5C # ''b''),
      (CHR 0x09, CHR 0x5C # ''t''),
      (CHR 0x0A, CHR 0x5C # ''n''),
      (CHR 0x0B, CHR 0x5C # ''u000b''),
      (CHR 0x0C, CHR 0x5C # ''f''),
      (CHR 0x0D, CHR 0x5C # ''r''),
      (CHR 0x0E, CHR 0x5C # ''u000e''),
      (CHR 0x0F, CHR 0x5C # ''u000f''),
      (CHR 0x10, CHR 0x5C # ''u0010''),
      (CHR 0x11, CHR 0x5C # ''u0011''),
      (CHR 0x12, CHR 0x5C # ''u0012''),
      (CHR 0x13, CHR 0x5C # ''u0013''),
      (CHR 0x14, CHR 0x5C # ''u0014''),
      (CHR 0x15, CHR 0x5C # ''u0015''),
      (CHR 0x16, CHR 0x5C # ''u0016''),
      (CHR 0x17, CHR 0x5C # ''u0017''),
      (CHR 0x18, CHR 0x5C # ''u0018''),
      (CHR 0x19, CHR 0x5C # ''u0019''),
      (CHR 0x1A, CHR 0x5C # ''u001a''),
      (CHR 0x1B, CHR 0x5C # ''u001b''),
      (CHR 0x1C, CHR 0x5C # ''u001c''),
      (CHR 0x1D, CHR 0x5C # ''u001d''),
      (CHR 0x1E, CHR 0x5C # ''u001e''),
      (CHR 0x1F, CHR 0x5C # ''u001f''),
      (CHR 0x3C, CHR 0x5C # ''u003c''),
      (CHR 0x3E, CHR 0x5C # ''u003e''),
      (CHR 0x26, CHR 0x5C # ''u0026'')]"

definition esc :: "char \<Rightarrow> string" where
  "esc c = (case map_of escapes c of None \<Rightarrow> [c] | Some e \<Rightarrow> e)"

definition quote :: "string \<Rightarrow> string" where
  "quote s = CHR 0x22 # concat (map esc s) @ [CHR 0x22]"

text \<open>\<open>sep_list xs\<close> puts a comma between the items.\<close>

fun sep_list :: "string list \<Rightarrow> string" where
  "sep_list [] = []"
| "sep_list [x] = x"
| "sep_list (x # y # ys) = x @ CHR '','' # sep_list (y # ys)"

fun render :: "json \<Rightarrow> string" where
  "render JNull = ''null''"
| "render (JBool b) = (if b then ''true'' else ''false'')"
| "render (JNum t) = t"
| "render (JStr s) = quote s"
| "render (JArr vs) = ''['' @ sep_list (map render vs) @ '']''"
| "render (JObj kvs) =
     CHR 0x7B # sep_list (map (\<lambda>(k, v). quote k @ CHR '':'' # render v) kvs) @ [CHR 0x7D]"

section \<open>Reading\<close>

definition num_chars :: string where
  "num_chars = ''0123456789+-.eE''"

text \<open>The rest of a string literal after its opening quote: its characters, and what follows.\<close>

function parse_str :: "string \<Rightarrow> (string \<times> string) option" where
  "parse_str s =
     (case find (\<lambda>ce. hasPrefix s (snd ce) \<and> snd ce \<noteq> []) escapes of
        Some (c, e) \<Rightarrow> map_option (\<lambda>(t, r). (c # t, r)) (parse_str (drop (length e) s))
      | None \<Rightarrow>
          (case s of
             [] \<Rightarrow> None
           | c # cs \<Rightarrow>
               if c = CHR 0x22 then Some ([], cs)
               else if c = CHR 0x5C then None
               else map_option (\<lambda>(t, r). (c # t, r)) (parse_str cs)))"
  by pat_completeness auto
termination
proof (relation "measure length", goal_cases)
  case (3 s ce c e)
  then have "e \<noteq> []" "hasPrefix s e" by (auto dest: find_SomeD)
  then show ?case by (cases s; cases e) (auto simp: hasPrefix_def)
qed auto

declare parse_str.simps [simp del]

text \<open>A recursive-descent reader; the first argument bounds the nesting of calls.\<close>

fun parse_val :: "nat \<Rightarrow> string \<Rightarrow> (json \<times> string) option"
  and parse_elems :: "nat \<Rightarrow> string \<Rightarrow> (json list \<times> string) option"
  and parse_members :: "nat \<Rightarrow> string \<Rightarrow> ((string \<times> json) list \<times> string) option" where
  "parse_val 0 s = None"
| "parse_val (Suc n) s =
     (if hasPrefix s ''null'' then Some (JNull, drop 4 s)
      else if hasPrefix s ''true'' then Some (JBool True, drop 4 s)
      else if hasPrefix s ''false'' then Some (JBool False, drop 5 s)
      else if hasPrefix s ''[]'' then Some (JArr [], drop 2 s)
      else if hasPrefix s [CHR 0x7B, CHR 0x7D] then Some (JObj [], drop 2 s)
      else
        (case s of
           [] \<Rightarrow> None
         | c # cs \<Rightarrow>
             if c = CHR 0x22 then map_option (\<lambda>(t, r). (JStr t, r)) (parse_str cs)
             else if c = CHR ''['' then map_option (\<lambda>(vs, r). (JArr vs, r)) (parse_elems n cs)
             else if c = CHR 0x7B then map_option (\<lambda>(kvs, r). (JObj kvs, r)) (parse_members n cs)
             else if c \<in> set num_chars
             then Some (JNum (takeWhile (\<lambda>d. d \<in> set num_chars) s),
                        dropWhile (\<lambda>d. d \<in> set num_chars) s)
             else None))"
| "parse_elems 0 s = None"
| "parse_elems (Suc n) s =
     (case parse_val n s of
        None \<Rightarrow> None
      | Some (v, r) \<Rightarrow>
          (case r of
             [] \<Rightarrow> None
           | c # r' \<Rightarrow>
               if c = CHR '']'' then Some ([v], r')
               else if c = CHR '','' then map_option (\<lambda>(vs, q). (v # vs, q)) (parse_elems n r')
               else None))"
| "parse_members 0 s = None"
| "parse_members (Suc n) s =
     (case s of
        [] \<Rightarrow> None
      | q # s' \<Rightarrow>
          if q \<noteq> CHR 0x22 then None
          else (case parse_str s' of
             None \<Rightarrow> None
           | Some (k, r) \<Rightarrow>
               if take 1 r \<noteq> '':'' then None
               else (case parse_val n (drop 1 r) of
                  None \<Rightarrow> None
                | Some (v, r') \<Rightarrow>
                    (case r' of
                       [] \<Rightarrow> None
                     | c # r'' \<Rightarrow>
                         if c = CHR 0x7D then Some ([(k, v)], r'')
                         else if c = CHR '','' then
                           map_option (\<lambda>(kvs, q). ((k, v) # kvs, q)) (parse_members n r'')
                         else None))))"

text \<open>Every call consumes at least half a character, so twice the length is enough.\<close>

definition parse :: "string \<Rightarrow> json option" where
  "parse s =
     (case parse_val (2 * length s + 2) s of
        Some (v, []) \<Rightarrow> Some v
      | _ \<Rightarrow> None)"

section \<open>Typed values\<close>

definition json_strings :: "string list option \<Rightarrow> json" where
  "json_strings xs = (case xs of None \<Rightarrow> JNull | Some ys \<Rightarrow> JArr (map JStr ys))"

definition json_u32 :: "u32 \<Rightarrow> json" where
  "json_u32 x = JNum (itoa (unat x))"

fun decode_u32 :: "json \<Rightarrow> u32 option" where
  "decode_u32 (JNum t) =
     (case atoi t of None \<Rightarrow> None | Some n \<Rightarrow> if n < 2 ^ 32 then Some (of_nat n) else None)"
| "decode_u32 _ = None"

fun decode_str :: "json \<Rightarrow> string option" where
  "decode_str (JStr s) = Some s"
| "decode_str _ = None"

fun decode_list :: "(json \<Rightarrow> 'a option) \<Rightarrow> json list \<Rightarrow> 'a list option" where
  "decode_list f [] = Some []"
| "decode_list f (v # vs) =
     (case f v of None \<Rightarrow> None
      | Some x \<Rightarrow> map_option (\<lambda>xs. x # xs) (decode_list f vs))"

text \<open>Into a slice: \<open>null\<close> gives the nil slice; \<open>None\<close> is an \<open>Unmarshal\<close> error.\<close>

fun decode_slice :: "(json \<Rightarrow> 'a option) \<Rightarrow> json \<Rightarrow> 'a list option" where
  "decode_slice f JNull = Some []"
| "decode_slice f (JArr vs) = decode_list f vs"
| "decode_slice f _ = None"

definition unmarshal :: "(json \<Rightarrow> 'a option) \<Rightarrow> string \<Rightarrow> 'a list option" where
  "unmarshal f s = (case parse s of None \<Rightarrow> None | Some v \<Rightarrow> decode_slice f v)"

section \<open>Round trip\<close>

lemma escapes_shape: "(c, e) \<in> set escapes \<Longrightarrow> \<exists>r. e = CHR 0x5C # r \<and> r \<noteq> []"
  by (auto simp: escapes_def)

lemma escapes_special:
  "map_of escapes (CHR 0x22) \<noteq> None" "map_of escapes (CHR 0x5C) \<noteq> None"
  by (simp_all add: escapes_def)

lemma escapes_distinct: "distinct (map snd escapes)"
  by (simp add: escapes_def)

lemma escapes_length: "ce \<in> set escapes \<Longrightarrow> length (snd ce) = (if snd ce ! 1 = CHR ''u'' then 6 else 2)"
  by (auto simp: escapes_def)

text \<open>No escape is a prefix of another one, so the reader finds the one that was written.\<close>

lemma escapes_prefix_free:
  assumes "x \<in> set escapes" "y \<in> set escapes" "prefix (snd x) (snd y)"
  shows "x = y"
proof -
  have "2 \<le> length (snd x)" using assms(1) by (simp add: escapes_length)
  with assms(3) have "snd x ! 1 = snd y ! 1"
    by (auto simp: prefix_def nth_append)
  with assms have "length (snd x) = length (snd y)" by (simp add: escapes_length)
  with assms(3) have "snd x = snd y" by (auto simp: prefix_def)
  with assms(1,2) escapes_distinct show ?thesis
    by (metis distinct_map inj_onD)
qed

lemma hasPrefix_append_cases: "hasPrefix (s @ r) p \<Longrightarrow> prefix p s \<or> prefix s p"
  unfolding hasPrefix_iff prefix_def by (metis append_eq_append_conv2)

lemma find_escape:
  assumes "(c, e) \<in> set escapes"
  shows "find (\<lambda>ce. hasPrefix (e @ r) (snd ce) \<and> snd ce \<noteq> []) escapes = Some (c, e)"
proof (rule find_first_unique [OF assms])
  show "hasPrefix (e @ r) (snd (c, e)) \<and> snd (c, e) \<noteq> []"
    using escapes_shape [OF assms] by auto
next
  fix ce assume ce: "ce \<in> set escapes" "hasPrefix (e @ r) (snd ce) \<and> snd ce \<noteq> []"
  then have "prefix (snd ce) (snd (c, e)) \<or> prefix (snd (c, e)) (snd ce)"
    using hasPrefix_append_cases [of e r "snd ce"] by simp
  then show "ce = (c, e)"
    using escapes_prefix_free [OF ce(1) assms] escapes_prefix_free [OF assms ce(1)] by blast
qed

lemma find_no_escape:
  "c \<noteq> CHR 0x5C \<Longrightarrow> find (\<lambda>ce. hasPrefix (c # r) (snd ce) \<and> snd ce \<noteq> []) escapes = None"
  by (auto simp: find_None_iff hasPrefix_def dest!: escapes_shape)

lemma parse_str_esc:
  "parse_str (esc c @ r) = map_option (\<lambda>(t, q). (c # t, q)) (parse_str r)"
proof (cases "map_of escapes c")
  case None
  then have "c \<noteq> CHR 0x22" "c \<noteq> CHR 0x5C" using escapes_special by auto
  with None find_no_escape [of c r] show ?thesis
    by (simp add: esc_def parse_str.simps [of "c # r"])
next
  case (Some e)
  then show ?thesis
    using find_escape [OF map_of_SomeD [OF Some], of r]
    by (simp add: esc_def parse_str.simps [of "e @ r"])
qed

lemma parse_str_quoted: "parse_str (concat (map esc s) @ CHR 0x22 # r) = Some (s, r)"
proof (induction s)
  case Nil
  show ?case using find_no_escape [of "CHR 0x22" r] by (simp add: parse_str.simps)
qed (simp add: parse_str_esc)

text \<open>Values whose numbers are tokens over the number characters.\<close>

fun wf_json :: "json \<Rightarrow> bool" where
  "wf_json (JNum t) \<longleftrightarrow> t \<noteq> [] \<and> set t \<subseteq> set num_chars"
| "wf_json (JArr vs) \<longleftrightarrow> (\<forall>v \<in> set vs. wf_json v)"
| "wf_json (JObj kvs) \<longleftrightarrow> (\<forall>kv \<in> set kvs. wf_json (snd kv))"
| "wf_json _ \<longleftrightarrow> True"

definition value_end :: "string \<Rightarrow> bool" where
  "value_end r \<longleftrightarrow> r = [] \<or> hd r \<notin> set num_chars"

lemma value_end_simps [simp]:
  "value_end []" "value_end (CHR '','' # r)" "value_end (CHR '']'' # r)" "value_end (CHR 0x7D # r)"
  by (simp_all add: value_end_def num_chars_def)

definition reads :: "json \<Rightarrow> bool" where
  "reads v \<longleftrightarrow> (\<forall>n r. 2 * length (render v) \<le> n \<longrightarrow> value_end r \<longrightarrow>
     parse_val n (render v @ r) = Some (v, r))"

lemma readsD: "reads v \<Longrightarrow> 2 * length (render v) \<le> n \<Longrightarrow> value_end r \<Longrightarrow>
    parse_val n (render v @ r) = Some (v, r)"
  by (simp add: reads_def)

lemma parse_elems_render:
  assumes "vs \<noteq> []" "\<And>v. v \<in> set vs \<Longrightarrow> reads v"
    and "2 * length (sep_list (map render vs)) + 2 \<le> n"
  shows "parse_elems n (sep_list (map render vs) @ CHR '']'' # r) = Some (vs, r)"
  using assms
proof (induction "map render vs" arbitrary: vs n rule: sep_list.induct)
  case 1
  then show ?case by simp
next
  case (2 x)
  then obtain v m where "vs = [v]" "n = Suc m" by (cases n; cases vs) auto
  with 2 show ?case by (auto simp: readsD)
next
  case (3 x y ys)
  then obtain v w ws where vs: "vs = v # w # ws" by (cases vs; cases "tl vs") auto
  from 3 obtain m where n: "n = Suc m" by (cases n) auto
  have "parse_elems m (sep_list (map render (w # ws)) @ CHR '']'' # r) = Some (w # ws, r)"
    using 3 vs n by (intro 3(1)) auto
  moreover have "parse_val m (render v @ CHR '','' # sep_list (map render (w # ws)) @ CHR '']'' # r)
      = Some (v, CHR '','' # sep_list (map render (w # ws)) @ CHR '']'' # r)"
    using 3 vs n by (intro readsD) auto
  ultimately show ?case by (simp add: vs n)
qed

lemma parse_members_render:
  assumes "kvs \<noteq> []" "\<And>k v. (k, v) \<in> set kvs \<Longrightarrow> reads v"
    and "2 * length (sep_list (map (\<lambda>(k, v). quote k @ CHR '':'' # render v) kvs)) + 2 \<le> n"
  shows "parse_members n (sep_list (map (\<lambda>(k, v). quote k @ CHR '':'' # render v) kvs) @ CHR 0x7D # r)
    = Some (kvs, r)"
  using assms
proof (induction "map (\<lambda>(k, v). quote k @ CHR '':'' # render v) kvs" arbitrary: kvs n rule: sep_list.induct)
  case 1
  then show ?case by simp
next
  case (2 x)
  then obtain k v m where k: "kvs = [(k, v)]" "n = Suc m" by (cases n; cases kvs) auto
  have "parse_val m (render v @ CHR 0x7D # r) = Some (v, CHR 0x7D # r)"
    using 2 k by (intro readsD) auto
  then show ?case by (simp add: k quote_def parse_str_quoted)
next
  case (3 x y ys)
  let ?f = "\<lambda>(k, v). quote k @ CHR '':'' # render v"
  from 3 obtain k v kv ws where vs: "kvs = (k, v) # kv # ws" by (cases kvs; cases "tl kvs") auto
  from 3 obtain m where n: "n = Suc m" by (cases n) auto
  let ?r = "sep_list (map ?f (kv # ws)) @ CHR 0x7D # r"
  have "parse_members m ?r = Some (kv # ws, r)"
    using 3 vs n by (intro 3(1)) auto
  moreover have "parse_val m (render v @ CHR '','' # ?r) = Some (v, CHR '','' # ?r)"
    using 3 vs n by (intro readsD) auto
  ultimately show ?case by (simp add: vs n quote_def parse_str_quoted)
qed

lemma render_start:
  "wf_json v \<Longrightarrow> \<exists>c cs. render v = c # cs \<and> c \<noteq> CHR '']'' \<and> c \<noteq> CHR 0x7D"
proof (cases v)
  case (JNum t)
  moreover assume "wf_json v"
  ultimately show ?thesis by (cases t) (auto simp: num_chars_def)
qed (auto simp: quote_def)

lemma sep_list_start: "xs \<noteq> [] \<Longrightarrow> hd xs \<noteq> [] \<Longrightarrow> \<exists>t. sep_list xs = hd xs @ t"
  by (cases xs rule: sep_list.cases) auto

lemma reads_num: "wf_json (JNum t) \<Longrightarrow> reads (JNum t)"
  unfolding reads_def
proof (intro allI impI)
  fix n r assume wf: "wf_json (JNum t)" and n: "2 * length (render (JNum t)) \<le> n" and r: "value_end r"
  obtain c cs where t: "t = c # cs" using wf by (cases t) auto
  have sub: "c \<in> set num_chars" "\<forall>d \<in> set cs. d \<in> set num_chars" using wf t by auto
  obtain m where m: "n = Suc m" using n t by (cases n) auto
  have "takeWhile (\<lambda>d. d \<in> set num_chars) (t @ r) = t \<and> dropWhile (\<lambda>d. d \<in> set num_chars) (t @ r) = r"
    using r wf by (cases r) (auto simp: value_end_def takeWhile_append dropWhile_append)
  moreover have "c \<notin> {CHR ''n'', CHR ''t'', CHR ''f'', CHR ''['', CHR 0x7B, CHR 0x22}"
    using sub(1) by (auto simp: num_chars_def)
  ultimately show "parse_val n (render (JNum t) @ r) = Some (JNum t, r)"
    using sub(1) t m by (auto simp: hasPrefix_def)
qed

lemma reads_arr:
  assumes wf: "wf_json (JArr vs)" and "\<And>v. v \<in> set vs \<Longrightarrow> reads v"
  shows "reads (JArr vs)"
  unfolding reads_def
proof (intro allI impI)
  fix n r assume n: "2 * length (render (JArr vs)) \<le> n" and "value_end r"
  then obtain m where m: "n = Suc m" by (cases n) auto
  show "parse_val n (render (JArr vs) @ r) = Some (JArr vs, r)"
  proof (cases vs)
    case Nil
    with m show ?thesis by (simp add: hasPrefix_def)
  next
    case (Cons v ws)
    obtain c cs where c: "render v = c # cs" "c \<noteq> CHR '']''"
      using wf Cons render_start [of v] by auto
    obtain t where "sep_list (map render vs) = c # cs @ t"
      using sep_list_start [of "map render vs"] Cons c by auto
    moreover have "parse_elems m (sep_list (map render vs) @ CHR '']'' # r) = Some (vs, r)"
      using assms(2) Cons n m by (intro parse_elems_render) auto
    ultimately show ?thesis using m c(2) by (simp add: hasPrefix_def)
  qed
qed

lemma reads_obj:
  assumes "\<And>k v. (k, v) \<in> set kvs \<Longrightarrow> reads v"
  shows "reads (JObj kvs)"
  unfolding reads_def
proof (intro allI impI)
  fix n r assume n: "2 * length (render (JObj kvs)) \<le> n" and "value_end r"
  then obtain m where m: "n = Suc m" by (cases n) auto
  let ?f = "\<lambda>(k, v). quote k @ CHR '':'' # render v"
  show "parse_val n (render (JObj kvs) @ r) = Some (JObj kvs, r)"
  proof (cases kvs)
    case Nil
    with m show ?thesis by (simp add: hasPrefix_def)
  next
    case (Cons kv ws)
    have "hd (map ?f kvs) = CHR 0x22 # tl (hd (map ?f kvs))"
      using Cons by (simp add: quote_def split: prod.split)
    then obtain t where "sep_list (map ?f kvs) = CHR 0x22 # t"
      using sep_list_start [of "map ?f kvs"] Cons by (metis append_Cons list.discI list.map_disc_iff)
    moreover have "parse_members m (sep_list (map ?f kvs) @ CHR 0x7D # r) = Some (kvs, r)"
      using assms Cons n m by (intro parse_members_render) auto
    ultimately show ?thesis using m by (simp add: hasPrefix_def)
  qed
qed

lemma reads_wf: "wf_json v \<Longrightarrow> reads v"
proof (induction v)
  case (JNum t)
  then show ?case by (rule reads_num)
next
  case (JArr vs)
  show ?case by (rule reads_arr [OF JArr.prems]) (use JArr in auto)
next
  case (JObj kvs)
  show ?case by (rule reads_obj) (use JObj in force)
next
  case JNull
  have "parse_val n (render JNull @ r) = Some (JNull, r)" if "8 \<le> n" for n r
    using that by (cases n) (simp_all add: hasPrefix_def)
  then show ?case by (simp add: reads_def)
next
  case (JBool b)
  show ?case unfolding reads_def
  proof (intro allI impI)
    fix n r assume "2 * length (render (JBool b)) \<le> n"
    then obtain m where "n = Suc m" by (cases n) (auto split: if_splits)
    then show "parse_val n (render (JBool b) @ r) = Some (JBool b, r)" by (simp add: hasPrefix_def)
  qed
next
  case (JStr s)
  show ?case unfolding reads_def
  proof (intro allI impI)
    fix n r assume "2 * length (render (JStr s)) \<le> n"
    then obtain m where "n = Suc m" by (cases n) (auto simp: quote_def)
    then show "parse_val n (render (JStr s) @ r) = Some (JStr s, r)"
      by (simp add: quote_def hasPrefix_def parse_str_quoted)
  qed
qed

theorem parse_render: "wf_json v \<Longrightarrow> parse (render v) = Some v"
  using readsD [OF reads_wf, of v "2 * length (render v) + 2" "[]"] by (simp add: parse_def)

section \<open>Typed round trips\<close>

lemma decode_list_map: "(\<And>x. x \<in> set xs \<Longrightarrow> f (g x) = Some x) \<Longrightarrow> decode_list f (map g xs) = Some xs"
  by (induction xs) auto

lemma unmarshal_render:
  assumes "\<And>x. x \<in> set xs \<Longrightarrow> wf_json (g x)" and "\<And>x. x \<in> set xs \<Longrightarrow> f (g x) = Some x"
  shows "unmarshal f (render (JArr (map g xs))) = Some xs"
  using assms by (simp add: unmarshal_def parse_render decode_list_map del: render.simps)

lemma digits_num_chars: "set digits \<subseteq> set num_chars"
  by (simp add: digits_def num_chars_def)

lemma wf_json_u32 [simp]: "wf_json (json_u32 x)"
  using set_itoa [of "unat x"] digits_num_chars by (simp add: json_u32_def subset_trans)

lemma decode_json_u32 [simp]: "decode_u32 (json_u32 x) = Some x"
  using unat_u32_bound [of x] by (simp add: json_u32_def)

end
