(* ===== verification/FloatText.thy ===== *)
theory FloatText
  imports Float64 Json
begin

text \<open>
  A \<open>float64\<close> as a JSON number: \<open>encoding/json\<close> writes the shortest decimal that reads back to
  the value (plain notation for exponents from -6 to 20, scientific notation outside), and
  \<open>strconv.ParseFloat\<close> rounds the exact decimal value once. The writer tries 1 to 17 digits, the
  nearest decimal first, and takes the first text that reads back; 17 digits suffice for every
  \<open>float64\<close>. NaN and the infinities are a \<open>Marshal\<close> error.
\<close>

section \<open>Reading\<close>

definition pow10 :: "int \<Rightarrow> rat" where
  "pow10 k = (if 0 \<le> k then of_int (10 ^ nat k) else 1 / of_int (10 ^ nat (- k)))"

definition digit_int :: "char \<Rightarrow> int option" where
  "digit_int c = map_of (zip digits [0, 1, 2, 3, 4, 5, 6, 7, 8, 9]) c"

fun digits_int :: "int \<Rightarrow> string \<Rightarrow> int option" where
  "digits_int acc [] = Some acc"
| "digits_int acc (c # cs) =
     (case digit_int c of None \<Rightarrow> None | Some v \<Rightarrow> digits_int (10 * acc + v) cs)"

definition signed_int :: "string \<Rightarrow> int option" where
  "signed_int s =
     (case s of
        [] \<Rightarrow> None
      | c # cs \<Rightarrow>
          if c = CHR ''-'' \<and> cs \<noteq> [] then map_option uminus (digits_int 0 cs)
          else if c = CHR ''+'' \<and> cs \<noteq> [] then digits_int 0 cs
          else digits_int 0 s)"

definition split_at :: "(char \<Rightarrow> bool) \<Rightarrow> string \<Rightarrow> string \<times> string option" where
  "split_at p s =
     (case indexP p s of None \<Rightarrow> (s, None) | Some i \<Rightarrow> (take i s, Some (drop (Suc i) s)))"

definition atof_abs :: "string \<Rightarrow> rat option" where
  "atof_abs s =
     (let (mant, ex) = split_at (\<lambda>c. c = CHR ''e'' \<or> c = CHR ''E'') s;
          (ip, fp) = split_at (\<lambda>c. c = CHR ''.'') mant;
          frac = (case fp of None \<Rightarrow> [] | Some f \<Rightarrow> f)
      in if ip = [] \<or> fp = Some [] then None
         else case (digits_int 0 (ip @ frac), (case ex of None \<Rightarrow> Some 0 | Some x \<Rightarrow> signed_int x)) of
           (Some m, Some e) \<Rightarrow> Some (of_int m * pow10 (e - int (length frac)))
         | _ \<Rightarrow> None)"

text \<open>\<open>None\<close>: not a number, or out of range.\<close>

definition atof :: "string \<Rightarrow> f64 option" where
  "atof s =
     (let (neg, t) = (if hasPrefix s ''-'' then (True, drop 1 s) else (False, s))
      in case atof_abs t of
           None \<Rightarrow> None
         | Some q \<Rightarrow> (case round64 (if neg then - q else q) of Fin r \<Rightarrow> Some (Fin r) | _ \<Rightarrow> None))"

section \<open>Writing\<close>

text \<open>\<open>dexp fuel q\<close> is the decimal exponent of \<open>q > 0\<close>; a \<open>float64\<close> has exponents within 325.\<close>

fun dexp :: "nat \<Rightarrow> rat \<Rightarrow> int" where
  "dexp 0 q = 0"
| "dexp (Suc n) q = (if 10 \<le> q then dexp n (q / 10) + 1 else if q < 1 then dexp n (q * 10) - 1 else 0)"

fun itoa_int :: "int \<Rightarrow> string" where
  "itoa_int i =
     (if i < 10 then [digits ! nat i] else itoa_int (i div 10) @ [digits ! nat (i mod 10)])"

declare itoa_int.simps [simp del]

definition strip_zeros :: "string \<Rightarrow> string" where
  "strip_zeros s = rev (dropWhile (\<lambda>c. c = CHR ''0'') (rev s))"

text \<open>The text of \<open>0.ds * 10 ^ dp\<close>.\<close>

definition plain_text :: "string \<Rightarrow> int \<Rightarrow> string" where
  "plain_text ds dp =
     (if dp \<le> 0 then ''0.'' @ replicate (nat (- dp)) (CHR ''0'') @ ds
      else if int (length ds) \<le> dp then ds @ replicate (nat (dp - int (length ds))) (CHR ''0'')
      else take (nat dp) ds @ ''.'' @ drop (nat dp) ds)"

definition exp_text :: "string \<Rightarrow> int \<Rightarrow> string" where
  "exp_text ds dp =
     take 1 ds @ (if length ds \<le> 1 then [] else ''.'' @ drop 1 ds) @
     (if dp - 1 < 0 then ''e-'' @ itoa_int (1 - dp) else ''e+'' @ itoa_int (dp - 1))"

definition decimal_text :: "rat \<Rightarrow> int \<Rightarrow> int \<Rightarrow> string" where
  "decimal_text q m k =
     (let ds = itoa_int m; dp = int (length ds) + k; ds = strip_zeros ds
      in if q < 1 / 1000000 \<or> 1000000000000000000000 \<le> q then exp_text ds dp else plain_text ds dp)"

text \<open>The decimals with \<open>n\<close> digits next to \<open>q\<close>: nearest, below, above.\<close>

definition candidates :: "rat \<Rightarrow> int \<Rightarrow> string list" where
  "candidates q n =
     (let k = dexp 400 q + 1 - n; (a, b) = quotient_of (q / pow10 k)
      in map (\<lambda>m. decimal_text q m k) [round_half_even a b, a div b, a div b + 1])"

definition decimals :: "rat \<Rightarrow> string list" where
  "decimals q =
     concat (map (candidates q) [1, 2, 3, 4, 5, 6, 7, 8, 9, 10, 11, 12, 13, 14, 15, 16, 17])"

text \<open>\<open>None\<close>: \<open>Marshal\<close> refuses the value.\<close>

fun ftoa :: "f64 \<Rightarrow> string option" where
  "ftoa (Fin q) =
     (if q = 0 then Some ''0''
      else find (\<lambda>t. atof t = Some (Fin q))
        (map (\<lambda>t. (if q < 0 then ''-'' else []) @ t) (decimals \<bar>q\<bar>)))"
| "ftoa _ = None"

fun decode_f64 :: "json \<Rightarrow> f64 option" where
  "decode_f64 (JNum t) = atof t"
| "decode_f64 _ = None"

lemma itoa_int_nat: "0 \<le> i \<Longrightarrow> itoa_int i = itoa (nat i)"
proof (induction i rule: itoa_int.induct)
  case (1 i)
  then show ?case
    by (subst itoa_int.simps, subst itoa.simps)
      (auto simp: nat_less_iff nat_div_distrib nat_mod_distrib)
qed

section \<open>What was written is read back\<close>

lemma atof_0: "atof ''0'' = Some (Fin 0)"
  by (simp add: atof_def atof_abs_def split_at_def digit_int_def digits_def pow10_def hasPrefix_def)

lemma ftoa_atof: "ftoa x = Some t \<Longrightarrow> atof t = Some x"
  by (cases x) (auto simp: atof_0 dest: find_SomeD split: if_splits)

lemma digit_int_Some: "digit_int c = Some v \<Longrightarrow> c \<in> set digits"
  unfolding digit_int_def by (drule map_of_SomeD) (rule set_zip_leftD)

lemma digits_int_Some: "digits_int acc s = Some v \<Longrightarrow> set s \<subseteq> set digits"
  by (induction acc s rule: digits_int.induct) (auto dest: digit_int_Some split: option.splits)

lemma split_at_set:
  assumes "split_at p s = (a, b)"
  shows "set s \<subseteq> set a \<union> {c. p c} \<union> (case b of None \<Rightarrow> {} | Some t \<Rightarrow> set t)"
proof (cases "indexP p s")
  case None
  with assms show ?thesis by (auto simp: split_at_def)
next
  case (Some i)
  then have i: "i < length s" "p (s ! i)" by (auto dest: indexP_SomeD)
  then have "set s = set (take i s) \<union> {s ! i} \<union> set (drop (Suc i) s)"
    by (metis Un_insert_right id_take_nth_drop list.simps(15) set_append sup_bot.right_neutral Un_insert_left)
  with Some assms i(2) show ?thesis by (auto simp: split_at_def)
qed

lemma split_at_None: "split_at p s = (a, None) \<Longrightarrow> a = s"
  by (auto simp: split_at_def split: option.splits)

lemma num_char_specials:
  "CHR ''.'' \<in> set num_chars" "CHR ''e'' \<in> set num_chars" "CHR ''E'' \<in> set num_chars"
  "CHR ''-'' \<in> set num_chars" "CHR ''+'' \<in> set num_chars"
  by (simp_all add: num_chars_def)

lemma digits_int_chars: "digits_int acc s = Some v \<Longrightarrow> set s \<subseteq> set num_chars"
  by (drule digits_int_Some) (rule subset_trans [OF _ digits_num_chars])

lemma signed_int_Some: "signed_int s = Some v \<Longrightarrow> set s \<subseteq> set num_chars"
  by (cases s) (auto simp: signed_int_def num_char_specials simp del: digits_int.simps
      split: if_splits dest!: digits_int_chars)

lemma atof_abs_chars:
  assumes "atof_abs s = Some q" shows "set s \<subseteq> set num_chars"
proof -
  obtain mant ex where e: "split_at (\<lambda>c. c = CHR ''e'' \<or> c = CHR ''E'') s = (mant, ex)" by force
  obtain ip fp where f: "split_at (\<lambda>c. c = CHR ''.'') mant = (ip, fp)" by force
  from assms e f obtain m x where
    m: "digits_int 0 (ip @ (case fp of None \<Rightarrow> [] | Some f \<Rightarrow> f)) = Some m" and
    x: "(case ex of None \<Rightarrow> Some 0 | Some x \<Rightarrow> signed_int x) = Some x"
    by (auto simp: atof_abs_def Let_def split: option.splits if_splits)
  have "set mant \<subseteq> set num_chars"
    using split_at_set [OF f] digits_int_Some [OF m] digits_num_chars num_char_specials
    by (auto split: option.splits)
  moreover have "(case ex of None \<Rightarrow> {} | Some t \<Rightarrow> set t) \<subseteq> set num_chars"
    using x by (auto split: option.splits dest: signed_int_Some)
  ultimately show ?thesis using split_at_set [OF e] num_char_specials by auto
qed

lemma atof_chars:
  assumes "atof s = Some x" shows "s \<noteq> [] \<and> set s \<subseteq> set num_chars"
proof -
  have "atof [] = None" by (simp add: atof_def atof_abs_def split_at_def hasPrefix_def)
  moreover have "set s \<subseteq> set num_chars"
  proof (cases "hasPrefix s ''-''")
    case True
    then obtain t where "s = CHR ''-'' # t" by (auto simp: hasPrefix_iff)
    with assms num_char_specials show ?thesis
      by (auto simp: atof_def hasPrefix_def split: option.splits dest: atof_abs_chars)
  next
    case False
    with assms show ?thesis by (auto simp: atof_def split: option.splits dest: atof_abs_chars)
  qed
  ultimately show ?thesis using assms by auto
qed

lemma ftoa_json: "ftoa x = Some t \<Longrightarrow> wf_json (JNum t) \<and> decode_f64 (JNum t) = Some x"
  using ftoa_atof atof_chars by fastforce

end
