(* ===== verification/Proto.thy ===== *)
theory Proto
  imports FloatText
begin

text \<open>
  The messages of the control stream, \<open>proto/agent.proto\<close>: one record per message, one datatype
  per \<open>oneof\<close>. A message field of a message is an option (a nil pointer is \<open>None\<close>); fields the
  repository neither reads nor writes are left out. A signed integer is a word read with \<open>sint\<close>.
\<close>

record register_request =
  rr_name :: string
  rr_hostname :: string
  rr_os :: string
  rr_arch :: string
  rr_agent_version :: string
  rr_machine_id :: string

record register_response =
  rs_node_id :: string
  rs_ok :: bool
  rs_error :: string
  rs_metrics_interval_sec :: "32 word"

record cpu_stats =
  cs_usage_percent :: f64
  cs_cores :: u32
  cs_per_core_percent :: "f64 list"

record memory_stats =
  ms_total_bytes :: u64
  ms_used_bytes :: u64
  ms_usage_percent :: f64

record disk_stats =
  ds_path :: string
  ds_total_bytes :: u64
  ds_used_bytes :: u64
  ds_usage_percent :: f64

record gpu_device =
  gd_index :: u32
  gd_name :: string
  gd_uuid :: string
  gd_usage_percent :: f64
  gd_mem_used_bytes :: u64
  gd_mem_total_bytes :: u64

record gpu_stats =
  gs_count :: u32
  gs_devices :: "gpu_device list"
  gs_usage_percent :: f64
  gs_mem_used_bytes :: u64
  gs_mem_total_bytes :: u64

record load_avg =
  la_load1 :: f64
  la_load5 :: f64
  la_load15 :: f64

record metric_report =
  mr_ts_unix_ms :: "64 word"
  mr_cpu :: "cpu_stats option"
  mr_memory :: "memory_stats option"
  mr_disks :: "disk_stats list"
  mr_gpu :: "gpu_stats option"
  mr_load :: "load_avg option"

record port_mapping =
  pm_container_port :: u32
  pm_protocol :: string
  pm_host_port :: u32

record resource_spec =
  sp_cpu_cores :: f64
  sp_memory_bytes :: u64
  sp_gpu_count :: u32
  sp_gpu_device_ids :: "u32 list"

text \<open>A nil slice and an empty one are the same message; the flag of an absent \<open>resources\<close> is
  \<open>None\<close>.\<close>

record create_command =
  cr_container_id :: string
  cr_image :: string
  cr_env :: "string list"
  cr_cmd :: "string list"
  cr_volume_binds :: "string list"
  cr_ports :: "port_mapping list"
  cr_resources :: "resource_spec option"
  cr_name :: string
  cr_pull :: bool

text \<open>\<open>ContainerCreated\<close>, \<open>ContainerStarted\<close> and \<open>ContainerStopped\<close> have the same fields.\<close>

record container_ack =
  ca_container_id :: string
  ca_docker_id :: string
  ca_error :: string

record state_changed =
  sc_container_id :: string
  sc_docker_id :: string
  sc_action :: string
  sc_state :: string
  sc_status :: string
  sc_ts_unix_ms :: "64 word"

datatype agent_message =
    AgentRegister register_request
  | AgentHeartbeat "64 word"
  | AgentMetrics metric_report
  | AgentContainerCreated container_ack
  | AgentContainerStopped container_ack
  | AgentContainerStarted container_ack
  | AgentContainerStateChanged state_changed
  | AgentEmpty                     \<comment> \<open>no payload, or one of a later version\<close>

datatype master_message =
    MasterRegisterResp register_response
  | MasterCreateContainer create_command
  | MasterStopContainer string string bool    \<comment> \<open>container id, docker id, remove\<close>
  | MasterStartContainer string string        \<comment> \<open>container id, docker id\<close>
  | MasterListContainers
  | MasterEmpty

fun GetRegister :: "agent_message \<Rightarrow> register_request option" where
  "GetRegister (AgentRegister r) = Some r"
| "GetRegister _ = None"

section \<open>JSON of the port mappings\<close>

text \<open>The tags of the generated struct: \<open>container_port\<close>, \<open>protocol\<close>, \<open>host_port\<close>, each
  \<open>omitempty\<close>. Reading takes the fields it finds; \<open>None\<close> is a type error.\<close>

definition json_port :: "port_mapping \<Rightarrow> json" where
  "json_port p = JObj (
     (if pm_container_port p = 0 then [] else [(''container_port'', json_u32 (pm_container_port p))]) @
     (if pm_protocol p = [] then [] else [(''protocol'', JStr (pm_protocol p))]) @
     (if pm_host_port p = 0 then [] else [(''host_port'', json_u32 (pm_host_port p))]))"

definition opt_field :: "(json \<Rightarrow> 'a option) \<Rightarrow> 'a \<Rightarrow> string \<Rightarrow> (string \<times> json) list \<Rightarrow> 'a option" where
  "opt_field dec dflt k kvs =
     (case map_of kvs k of None \<Rightarrow> Some dflt | Some JNull \<Rightarrow> Some dflt | Some v \<Rightarrow> dec v)"

fun decode_port :: "json \<Rightarrow> port_mapping option" where
  "decode_port (JObj kvs) =
     (case (opt_field decode_u32 0 ''container_port'' kvs, opt_field decode_str [] ''protocol'' kvs,
            opt_field decode_u32 0 ''host_port'' kvs) of
        (Some a, Some b, Some c) \<Rightarrow>
          Some \<lparr>pm_container_port = a, pm_protocol = b, pm_host_port = c\<rparr>
      | _ \<Rightarrow> None)"
| "decode_port JNull = Some \<lparr>pm_container_port = 0, pm_protocol = [], pm_host_port = 0\<rparr>"
| "decode_port _ = None"

lemma wf_json_port [simp]: "wf_json (json_port p)"
  by (auto simp: json_port_def)

lemma json_u32_not_null [simp]: "json_u32 x \<noteq> JNull"
  by (simp add: json_u32_def)

lemma opt_field_simps [simp]:
  "opt_field dec d k [] = Some d"
  "opt_field dec d k ((k', v) # kvs) =
     (if k' = k then (if v = JNull then Some d else dec v) else opt_field dec d k kvs)"
  by (cases v; simp add: opt_field_def)+

lemma decode_json_port [simp]: "decode_port (json_port p) = Some p"
  by (cases p) (auto simp: json_port_def)

lemma unmarshal_ports: "unmarshal decode_port (render (JArr (map json_port ps))) = Some ps"
  by (rule unmarshal_render) auto

end
