(* ===== verification/ApiUtil.thy ===== *)
theory ApiUtil
  imports Proto
begin

text \<open>
  The helpers of \<open>internal/master/api/util.go\<close>: container ids and names, the external URL,
  port mappings, the free GPUs of a row. The bytes of \<open>crypto/rand\<close> are arguments. A loop over
  the runes of a string is a loop over its bytes here: every rune outside ASCII takes the same
  branch as each of its bytes, and the run of dashes they produce is collapsed to one.
\<close>

section \<open>Operations\<close>

definition newContainerID :: "byte list \<Rightarrow> string" where
  "newContainerID b = ''c-'' @ hex_encode b"

definition rand6 :: "byte list \<Rightarrow> string" where
  "rand6 b = hex_encode b"

text \<open>\<open>host\<close> is the request's \<open>Host\<close>, empty when there is no request.\<close>

definition externalURL :: "string \<Rightarrow> u32 \<Rightarrow> string" where
  "externalURL reqHost port =
     (let host =
        (if reqHost \<noteq> [] then
           (let h = (case splitHostPort reqHost of Some (hh, _) \<Rightarrow> hh | None \<Rightarrow> reqHost)
            in if h \<noteq> [] then h else ''localhost'')
         else ''localhost'')
      in ''http://'' @ host @ '':'' @ itoa (unat port) @ ''/'')"

definition kept_chars :: string where
  "kept_chars = lower_letters @ digits @ ''_.''"

definition alnum_chars :: string where
  "alnum_chars = lower_letters @ digits"

text \<open>The loop over the runes, with its flag \<open>lastDash\<close>.\<close>

fun fold_name :: "bool \<Rightarrow> string \<Rightarrow> string" where
  "fold_name lastDash [] = []"
| "fold_name lastDash (r # rs) =
     (if r \<in> set kept_chars then r # fold_name False rs
      else if \<not> lastDash then CHR ''-'' # fold_name True rs
      else fold_name lastDash rs)"

definition sanitizeContainerName :: "byte list \<Rightarrow> string \<Rightarrow> string" where
  "sanitizeContainerName rnd s0 =
     (let s = toLower (trimSpace s0) in
      if s = [] then ''pp-'' @ rand6 rnd
      else
        (let out = trimChar CHR ''-'' (fold_name False s) in
         if out = [] then ''pp-'' @ rand6 rnd
         else
           (let out = (if 64 < length out then take 57 out @ ''-'' @ rand6 rnd else out) in
            if hd out \<notin> set alnum_chars then CHR ''x'' # out else out)))"

definition autoName :: "byte list \<Rightarrow> byte list \<Rightarrow> string \<Rightarrow> string" where
  "autoName rnd1 rnd2 img =
     (let name = (case lastIndexP (\<lambda>c. c = CHR ''/'') img of
                    Some i \<Rightarrow> drop (Suc i) img | None \<Rightarrow> img);
          name = (case indexP (\<lambda>c. c = CHR '':'' \<or> c = CHR ''@'') name of
                    Some i \<Rightarrow> take i name @ ''-'' @ drop (Suc i) name | None \<Rightarrow> name);
          name = (if name = [] then ''container'' else name)
      in sanitizeContainerName rnd1 (''pp-'' @ name) @ ''-'' @ rand6 rnd2)"

record port_json =
  pj_ContainerPort :: u32
  pj_Protocol :: string
  pj_HostPort :: u32

definition portMappingsToProto :: "port_json list \<Rightarrow> port_mapping list" where
  "portMappingsToProto ps = map (\<lambda>p.
     \<lparr>pm_container_port = pj_ContainerPort p,
      pm_protocol = (if pj_Protocol p = [] then ''tcp'' else pj_Protocol p),
      pm_host_port = (if pj_HostPort p = 0 then pj_ContainerPort p else pj_HostPort p)\<rparr>) ps"

definition freeGPUsForRow :: "u32 \<Rightarrow> u32 \<Rightarrow> u32" where
  "freeGPUsForRow tot used = (if used \<ge> tot then 0 else tot - used)"

section \<open>Legal names\<close>

text \<open>
  What docker accepts as a container name, restricted to what the function promises: characters
  from \<open>[a-z0-9_.-]\<close>, the first one a letter or a digit.
\<close>

definition name_chars :: string where
  "name_chars = kept_chars @ ''-''"

definition legal_name :: "string \<Rightarrow> bool" where
  "legal_name s \<longleftrightarrow> s \<noteq> [] \<and> set s \<subseteq> set name_chars \<and> hd s \<in> set alnum_chars"

text \<open>No leading, trailing or doubled dash.\<close>

fun single_dashes :: "string \<Rightarrow> bool" where
  "single_dashes (a # b # s) = (\<not> (a = CHR ''-'' \<and> b = CHR ''-'') \<and> single_dashes (b # s))"
| "single_dashes _ = True"

lemma hex_name_chars: "set hex_digits \<subseteq> set name_chars"
  by (simp add: hex_digits_def name_chars_def kept_chars_def lower_letters_def digits_def)

lemma rand6_chars: "set (rand6 b) \<subseteq> set name_chars"
  using set_hex_encode hex_name_chars unfolding rand6_def by (rule subset_trans)

lemma length_rand6 [simp]: "length (rand6 b) = 2 * length b"
  by (simp add: rand6_def)

lemma name_char_simps [simp]:
  "CHR ''-'' \<in> set name_chars" "CHR ''x'' \<in> set name_chars" "CHR ''p'' \<in> set name_chars"
  "CHR ''x'' \<in> set alnum_chars" "CHR ''p'' \<in> set alnum_chars" "CHR ''-'' \<notin> set kept_chars"
  "CHR ''-'' \<notin> set alnum_chars"
  by (simp_all add: name_chars_def kept_chars_def alnum_chars_def lower_letters_def digits_def)

lemma kept_in_name [simp]: "c \<in> set kept_chars \<Longrightarrow> c \<in> set name_chars"
  by (simp add: name_chars_def)

lemma name_char_cases: "c \<in> set name_chars \<longleftrightarrow> c \<in> set kept_chars \<or> c = CHR ''-''"
  by (auto simp: name_chars_def)

lemma set_fold_name: "set (fold_name l s) \<subseteq> set name_chars"
  by (induction l s rule: fold_name.induct) auto

lemma length_fold_name: "length (fold_name l s) \<le> length s"
  by (induction l s rule: fold_name.induct) auto

lemma fold_name_no_dash: "fold_name True s = [] \<or> hd (fold_name True s) \<noteq> CHR ''-''"
proof (induction s)
  case (Cons a s)
  then show ?case by (cases "a \<in> set kept_chars") auto
qed simp

lemma single_dashes_Cons:
  "single_dashes (a # s) \<longleftrightarrow> (a = CHR ''-'' \<longrightarrow> s = [] \<or> hd s \<noteq> CHR ''-'') \<and> single_dashes s"
  by (cases s) auto

lemma single_dashes_fold_name: "single_dashes (fold_name l s)"
proof (induction l s rule: fold_name.induct)
  case (2 l r rs)
  then show ?case using fold_name_no_dash [of rs] by (auto simp: single_dashes_Cons)
qed simp

text \<open>Legal text is left alone, letter by letter.\<close>

lemma fold_name_idle:
  assumes "set s \<subseteq> set name_chars" "single_dashes s" "l \<longrightarrow> s = [] \<or> hd s \<noteq> CHR ''-''"
  shows "fold_name l s = s"
  using assms
proof (induction s arbitrary: l)
  case (Cons a s)
  have a: "a \<in> set kept_chars \<or> a = CHR ''-''" using Cons.prems(1) by (simp add: name_char_cases)
  have "fold_name (a = CHR ''-'') s = s"
    using Cons.prems by (intro Cons.IH) (auto simp: single_dashes_Cons)
  moreover have "a \<in> set kept_chars \<Longrightarrow> a \<noteq> CHR ''-''" by auto
  ultimately show ?case using a Cons.prems(3) by auto
qed simp

lemma lower_ascii_name: "c \<in> set name_chars \<Longrightarrow> lower_ascii c = c"
proof -
  have "list_all (\<lambda>c. lower_ascii c = c) name_chars" by code_simp
  then show "c \<in> set name_chars \<Longrightarrow> lower_ascii c = c" by (simp add: list_all_iff)
qed

lemma name_char_ascii: "c \<in> set name_chars \<Longrightarrow> c \<noteq> CHR 0xE2 \<and> c \<noteq> CHR 0xC4"
  by (auto simp: name_chars_def kept_chars_def lower_letters_def digits_def)

lemma toLower_name: "set s \<subseteq> set name_chars \<Longrightarrow> toLower s = s"
  by (induction s) (auto simp: lower_ascii_name dest: name_char_ascii)

lemma name_no_space:
  assumes "set s \<subseteq> set name_chars" shows "\<forall>e \<in> set go_spaces. e \<noteq> [] \<longrightarrow> \<not> hasPrefix s e"
proof -
  have "list_all (\<lambda>e. list_all (\<lambda>c. hd e \<noteq> c) name_chars) go_spaces" by code_simp
  then have "\<forall>e \<in> set go_spaces. hd e \<notin> set name_chars" by (auto simp: list_all_iff)
  with assms show ?thesis by (auto simp: hasPrefix_iff neq_Nil_conv)
qed

lemma name_no_space_rev:
  assumes "set s \<subseteq> set name_chars" shows "\<forall>e \<in> set (map rev go_spaces). e \<noteq> [] \<longrightarrow> \<not> hasPrefix s e"
proof -
  have "list_all (\<lambda>e. list_all (\<lambda>c. hd (rev e) \<noteq> c) name_chars) go_spaces" by code_simp
  then have "\<forall>e \<in> set (map rev go_spaces). hd e \<notin> set name_chars" by (auto simp: list_all_iff)
  with assms show ?thesis by (auto simp: hasPrefix_iff neq_Nil_conv)
qed

lemma trimSpace_name: "set s \<subseteq> set name_chars \<Longrightarrow> trimSpace s = s"
  unfolding trimSpace_def
  by (simp add: trim_left_idle name_no_space name_no_space_rev)

lemma alnum_kept: "set alnum_chars \<subseteq> set name_chars"
  by (auto simp: alnum_chars_def name_chars_def kept_chars_def)

lemma legal_hd_not_dash: "legal_name s \<Longrightarrow> hd s \<noteq> CHR ''-''"
  by (auto simp: legal_name_def)

lemma legal_append: "legal_name s \<Longrightarrow> set t \<subseteq> set name_chars \<Longrightarrow> legal_name (s @ t)"
  by (auto simp: legal_name_def)

section \<open>What the helpers guarantee\<close>

lemma legal_pp_rand: "legal_name (''pp-'' @ rand6 r)"
  using rand6_chars [of r] by (simp add: legal_name_def)

lemma sanitize_legal: "legal_name (sanitizeContainerName r s)"
proof -
  let ?o = "trimChar CHR ''-'' (fold_name False (toLower (trimSpace s)))"
  let ?o2 = "if 64 < length ?o then take 57 ?o @ ''-'' @ rand6 r else ?o"
  have "set ?o \<subseteq> set name_chars"
    using set_trimChar_subset set_fold_name by (rule subset_trans)
  then have "set ?o2 \<subseteq> set name_chars"
    using rand6_chars [of r] by (auto dest: in_set_takeD)
  moreover have "?o2 \<noteq> [] \<or> ?o = []" by auto
  ultimately show ?thesis
    using legal_pp_rand [of r]
    by (auto simp: sanitizeContainerName_def Let_def legal_name_def)
qed

lemma sanitize_length:
  assumes "length r = 3"
  shows "length (sanitizeContainerName r s) \<le> 65"
proof -
  have "length (if 64 < length t then take 57 t @ ''-'' @ rand6 r else t) \<le> 64" for t
    using assms by simp
  then show ?thesis
    using assms by (auto simp: sanitizeContainerName_def Let_def)
qed

lemma sanitize_idle:
  assumes "legal_name s" "single_dashes s" "last s \<noteq> CHR ''-''" "length s \<le> 64"
  shows "sanitizeContainerName r s = s"
proof -
  have s: "set s \<subseteq> set name_chars" "s \<noteq> []" "hd s \<in> set alnum_chars"
    using assms(1) by (auto simp: legal_name_def)
  have "fold_name False s = s" using s assms(2) by (intro fold_name_idle) auto
  moreover have "trimChar CHR ''-'' s = s"
    using legal_hd_not_dash [OF assms(1)] assms(3) by (intro trimChar_idle) simp
  ultimately show ?thesis
    using s assms(4) by (simp add: sanitizeContainerName_def trimSpace_name toLower_name)
qed

lemma autoName_legal:
  "legal_name (autoName r1 r2 img)"
  unfolding autoName_def Let_def
  by (intro legal_append sanitize_legal) (use rand6_chars [of r2] in auto)

lemma newContainerID_length: "length b = 6 \<Longrightarrow> length (newContainerID b) = 14"
  by (simp add: newContainerID_def)

lemma hex_pair_inject:
  "a < 16 \<Longrightarrow> b < 16 \<Longrightarrow> hex_digits ! a = hex_digits ! b \<Longrightarrow> a = b"
proof -
  have "distinct hex_digits" "length hex_digits = 16" by (simp_all add: hex_digits_def)
  then show "a < 16 \<Longrightarrow> b < 16 \<Longrightarrow> hex_digits ! a = hex_digits ! b \<Longrightarrow> a = b"
    by (simp add: nth_eq_iff_index_eq)
qed

lemma hex_encode_inject: "hex_encode a = hex_encode b \<Longrightarrow> a = b"
proof (induction a arbitrary: b)
  case Nil
  then show ?case by (metis hex_encode_Nil_iff hex_encode_def concat.simps(1) list.map(1))
next
  case (Cons x a)
  then obtain y c where b: "b = y # c" by (cases b) (auto simp: hex_encode_def)
  have lt: "unat z < 256" for z :: byte using unsigned_less [of z] by simp
  then have lt16: "unat z div 16 < 16" for z :: byte using less_mult_imp_div_less [of "unat z" 16 16] by simp
  from Cons.prems b have "hex_digits ! (unat x div 16) = hex_digits ! (unat y div 16)"
    "hex_digits ! (unat x mod 16) = hex_digits ! (unat y mod 16)" and tl: "hex_encode a = hex_encode c"
    by (simp_all add: hex_encode_def)
  with lt16 have "unat x div 16 = unat y div 16" "unat x mod 16 = unat y mod 16"
    by (auto intro: hex_pair_inject)
  then have "unat x = unat y" by (metis div_mult_mod_eq)
  then have "x = y" by (simp add: word_unat_eq_iff)
  with Cons.IH [OF tl] b show ?case by simp
qed

lemma newContainerID_inject: "newContainerID a = newContainerID b \<longleftrightarrow> a = b"
  by (auto simp: newContainerID_def dest: hex_encode_inject)

lemma freeGPUsForRow_unat: "unat (freeGPUsForRow tot used) = unat tot - unat used"
  by (auto simp: freeGPUsForRow_def word_le_nat_alt unat_sub)

lemma portMappingsToProto_host:
  "m \<in> set (portMappingsToProto ps) \<Longrightarrow> pm_protocol m \<noteq> [] \<and>
     (pm_host_port m = 0 \<longrightarrow> pm_container_port m = 0)"
  by (auto simp: portMappingsToProto_def split: if_splits)

end
