(* ===== verification/Store.thy ===== *)
theory Store
  imports GoStrings Float64
begin

text \<open>
  The SQLite layer of the master, \<open>internal/master/store/store.go\<close>. The four tables of the
  schema are lists of rows in rowid order; a \<open>Node\<close> or \<open>Container\<close> struct and its row are one
  record (a column the statement does not set has its default). Every SQL statement is the
  list operation it denotes, with the schema's constraints (primary keys, the partial unique
  index on \<open>machine_id\<close>, foreign keys with \<open>ON DELETE CASCADE\<close>) as checks that refuse it.

  Failures of the driver (disk, timeout, cancelled context) are the script \<open>st_faults\<close>: each
  statement takes its first entry; \<open>Some m\<close> makes the statement fail with message \<open>m\<close> and
  without effect, and an empty script is a driver that does not fail. SQLite has no NaN: it
  stores NULL, so a NaN in a \<open>REAL\<close> column stands for NULL, which \<open>Scan\<close> into a \<open>float64\<close>
  refuses. \<open>database/sql\<close> refuses a \<open>uint64\<close> argument with the high bit set.

  The mutex of the Go struct makes each operation below one atomic step. The clock is read once
  per operation and passed as \<open>now\<close>.
\<close>

section \<open>Errors\<close>

datatype err =
    ErrNoRows
  | ErrInsufficientGPUs int nat u32     \<comment> \<open>requested, free, total\<close>
  | ErrGPUTaken u32 string              \<comment> \<open>index, node\<close>
  | ErrNoFreePort u32 u32
  | ErrMsg string                       \<comment> \<open>the driver's or the library's message\<close>

definition unique_msg :: "string \<Rightarrow> err" where
  "unique_msg cols = ErrMsg (''constraint failed: UNIQUE constraint failed: '' @ cols)"

definition fk_msg :: err where
  "fk_msg = ErrMsg ''constraint failed: FOREIGN KEY constraint failed (787)''"

text \<open>The messages of \<open>database/sql\<close>: the ordinal of a refused argument, the index and the name of a column
  that cannot be scanned.\<close>

definition high_bit_msg :: "nat \<Rightarrow> err" where
  "high_bit_msg i = ErrMsg (''sql: converting argument $'' @ itoa i @
     '' type: uint64 values with high bit set are not supported'')"

definition scan_null_msg :: "nat \<Rightarrow> string \<Rightarrow> err" where
  "scan_null_msg i name = ErrMsg (''sql: Scan error on column index '' @ itoa i @ '', name '' @ [CHR 0x22] @ name @
     [CHR 0x22] @ '': converting NULL to float64 is unsupported'')"

definition show_int :: "int \<Rightarrow> string" where
  "show_int i = (if i < 0 then ''-'' @ itoa (nat (- i)) else itoa (nat i))"

fun err_Error :: "err \<Rightarrow> string" where
  "err_Error ErrNoRows = ''sql: no rows in result set''"
| "err_Error (ErrInsufficientGPUs count free tot) =
     ''insufficient free GPUs on node: requested '' @ show_int count @ '', '' @ itoa free @
     '' free of '' @ itoa (unat tot)"
| "err_Error (ErrGPUTaken idx nodeID) =
     ''requested GPU index is already allocated: GPU '' @ itoa (unat idx) @ '' on node '' @ nodeID"
| "err_Error (ErrNoFreePort start stop) =
     ''no free port in ['' @ itoa (unat start) @ '','' @ itoa (unat stop) @ '']''"
| "err_Error (ErrMsg m) = m"

definition isUniqueViolation :: "err \<Rightarrow> bool" where
  "isUniqueViolation e =
     (contains (err_Error e) ''UNIQUE constraint failed'' \<or>
      contains (err_Error e) ''constraint failed: UNIQUE'')"

section \<open>Rows and tables\<close>

record node =
  n_ID :: string
  n_MachineID :: string
  n_Name :: string
  n_Hostname :: string
  n_OS :: string
  n_Arch :: string
  n_AgentVersion :: string
  n_State :: string
  n_LastHeartbeat :: gotime
  n_RegisteredAt :: gotime
  n_CPUPercent :: f64
  n_CPUCores :: u32
  n_MemUsedBytes :: u64
  n_MemTotalBytes :: u64
  n_DiskJSON :: string
  n_GPUJSON :: string
  n_Load1 :: f64
  n_GpuCount :: u32
  n_GpuMemUsed :: u64
  n_GpuMemTotal :: u64
  n_GpuUsageAvg :: f64
  n_MetricsAt :: gotime

definition zero_node :: node where
  "zero_node = \<lparr>n_ID = [], n_MachineID = [], n_Name = [], n_Hostname = [], n_OS = [],
     n_Arch = [], n_AgentVersion = [], n_State = [], n_LastHeartbeat = zero_time,
     n_RegisteredAt = zero_time, n_CPUPercent = Fin 0, n_CPUCores = 0, n_MemUsedBytes = 0,
     n_MemTotalBytes = 0, n_DiskJSON = [], n_GPUJSON = [], n_Load1 = Fin 0, n_GpuCount = 0,
     n_GpuMemUsed = 0, n_GpuMemTotal = 0, n_GpuUsageAvg = Fin 0, n_MetricsAt = zero_time\<rparr>"

record container =
  c_ID :: string
  c_NodeID :: string
  c_DockerID :: string
  c_Name :: string
  c_Image :: string
  c_State :: string
  c_Status :: string
  c_EnvJSON :: string
  c_CmdJSON :: string
  c_PortsJSON :: string
  c_VolumeBinds :: string
  c_CPUCores :: f64
  c_MemoryBytes :: u64
  c_GPUCount :: u32
  c_GPUIndicesJSON :: string
  c_ExternalPort :: u32
  c_CreatedAt :: gotime
  c_UpdatedAt :: gotime

record gpu_row =
  g_node :: string
  g_index :: u32
  g_container :: string
  g_at :: gotime

record port_row =
  p_port :: u32
  p_container :: string

record store =
  st_nodes :: "node list"
  st_containers :: "container list"
  st_gpus :: "gpu_row list"
  st_ports :: "port_row list"
  st_faults :: "string option list"

definition schema :: store where
  "schema = \<lparr>st_nodes = [], st_containers = [], st_gpus = [], st_ports = [], st_faults = []\<rparr>"

section \<open>One statement\<close>

text \<open>\<open>stmt s\<close> is the driver's part of a statement: the message it fails with, if any.\<close>

definition stmt :: "store \<Rightarrow> store \<times> string option" where
  "stmt s = (case st_faults s of [] \<Rightarrow> (s, None) | f # fs \<Rightarrow> (s\<lparr>st_faults := fs\<rparr>, f))"

definition exec :: "(store \<Rightarrow> store \<times> (err + 'a)) \<Rightarrow> store \<Rightarrow> store \<times> (err + 'a)" where
  "exec f s = (case stmt s of (s1, Some m) \<Rightarrow> (s1, Inl (ErrMsg m)) | (s1, None) \<Rightarrow> f s1)"

definition query :: "(store \<Rightarrow> err + 'a) \<Rightarrow> store \<Rightarrow> store \<times> (err + 'a)" where
  "query f = exec (\<lambda>s. (s, f s))"

text \<open>A transaction that is not committed leaves the tables as they were at its start.\<close>

definition rollback :: "store \<Rightarrow> store \<Rightarrow> store" where
  "rollback s0 s = s0\<lparr>st_faults := st_faults s\<rparr>"

definition high_bit :: "u64 \<Rightarrow> bool" where
  "high_bit x \<longleftrightarrow> 2 ^ 63 \<le> unat x"

section \<open>Nodes\<close>

definition node_taken :: "node \<Rightarrow> node list \<Rightarrow> bool" where
  "node_taken n rows \<longleftrightarrow>
     n_MachineID n \<noteq> [] \<and> (\<exists>r \<in> set rows. n_ID r \<noteq> n_ID n \<and> n_MachineID r = n_MachineID n)"

definition UpsertNode :: "gotime \<Rightarrow> node \<Rightarrow> store \<Rightarrow> store \<times> (err + unit)" where
  "UpsertNode now n0 =
     (let n = (if is_zero (n_RegisteredAt n0) then n0\<lparr>n_RegisteredAt := now\<rparr> else n0)
      in exec (\<lambda>s.
        if node_taken n (st_nodes s) then (s, Inl (unique_msg ''nodes.machine_id (2067)''))
        else if n_ID n \<in> n_ID ` set (st_nodes s) then
          (s\<lparr>st_nodes := map (\<lambda>r. if n_ID r = n_ID n then
               r\<lparr>n_MachineID := n_MachineID n, n_Name := n_Name n, n_Hostname := n_Hostname n,
                 n_OS := n_OS n, n_Arch := n_Arch n, n_AgentVersion := n_AgentVersion n,
                 n_State := n_State n, n_LastHeartbeat := n_LastHeartbeat n\<rparr> else r)
               (st_nodes s)\<rparr>, Inr ())
        else
          (s\<lparr>st_nodes := st_nodes s @
               [zero_node\<lparr>n_ID := n_ID n, n_MachineID := n_MachineID n, n_Name := n_Name n,
                 n_Hostname := n_Hostname n, n_OS := n_OS n, n_Arch := n_Arch n,
                 n_AgentVersion := n_AgentVersion n, n_State := n_State n,
                 n_LastHeartbeat := n_LastHeartbeat n, n_RegisteredAt := n_RegisteredAt n\<rparr>]\<rparr>,
           Inr ())))"

definition scanNode :: "node \<Rightarrow> err + node" where
  "scanNode r =
     (if is_nan (n_CPUPercent r) then Inl (scan_null_msg 10 ''cpu_percent'')
      else if is_nan (n_Load1 r) then Inl (scan_null_msg 16 ''load1'')
      else if is_nan (n_GpuUsageAvg r) then Inl (scan_null_msg 20 ''gpu_usage_avg'')
      else Inr r)"

definition first_row :: "('r \<Rightarrow> err + 'a) \<Rightarrow> 'r list \<Rightarrow> err + 'a" where
  "first_row scan rows = (case rows of [] \<Rightarrow> Inl ErrNoRows | r # _ \<Rightarrow> scan r)"

definition GetNodeByMachineID :: "string \<Rightarrow> store \<Rightarrow> store \<times> (err + node)" where
  "GetNodeByMachineID machineID s =
     (if machineID = [] then (s, Inl ErrNoRows)
      else query (\<lambda>s. first_row scanNode [r \<leftarrow> st_nodes s. n_MachineID r = machineID]) s)"

definition UpdateNodeState :: "gotime \<Rightarrow> string \<Rightarrow> string \<Rightarrow> store \<Rightarrow> store \<times> (err + unit)" where
  "UpdateNodeState now nid state = exec (\<lambda>s.
     (s\<lparr>st_nodes := map (\<lambda>r. if n_ID r = nid
          then r\<lparr>n_State := state, n_LastHeartbeat := now\<rparr> else r) (st_nodes s)\<rparr>, Inr ()))"

definition UpdateNodeMetrics :: "gotime \<Rightarrow> node \<Rightarrow> store \<Rightarrow> store \<times> (err + unit)" where
  "UpdateNodeMetrics now n s =
     (if high_bit (n_MemUsedBytes n) then (s, Inl (high_bit_msg 3))
      else if high_bit (n_MemTotalBytes n) then (s, Inl (high_bit_msg 4))
      else if high_bit (n_GpuMemUsed n) then (s, Inl (high_bit_msg 9))
      else if high_bit (n_GpuMemTotal n) then (s, Inl (high_bit_msg 10))
      else exec (\<lambda>s. (s\<lparr>st_nodes := map (\<lambda>r. if n_ID r = n_ID n then
          r\<lparr>n_CPUPercent := n_CPUPercent n, n_CPUCores := n_CPUCores n,
            n_MemUsedBytes := n_MemUsedBytes n, n_MemTotalBytes := n_MemTotalBytes n,
            n_DiskJSON := n_DiskJSON n, n_GPUJSON := n_GPUJSON n, n_Load1 := n_Load1 n,
            n_GpuCount := n_GpuCount n, n_GpuMemUsed := n_GpuMemUsed n,
            n_GpuMemTotal := n_GpuMemTotal n, n_GpuUsageAvg := n_GpuUsageAvg n,
            n_MetricsAt := now, n_LastHeartbeat := now\<rparr> else r) (st_nodes s)\<rparr>, Inr ())) s)"

text \<open>\<open>ORDER BY registered_at DESC\<close>; rows of the same time keep the rowid order.\<close>

definition ListNodes :: "store \<Rightarrow> store \<times> (err + node list)" where
  "ListNodes = query (\<lambda>s. scan_all scanNode (sort_key (\<lambda>r. - n_RegisteredAt r) (st_nodes s)))"

definition GetNode :: "string \<Rightarrow> store \<Rightarrow> store \<times> (err + node)" where
  "GetNode nid = query (\<lambda>s. first_row scanNode [r \<leftarrow> st_nodes s. n_ID r = nid])"

section \<open>Containers\<close>

text \<open>\<open>InsertContainer\<close> also fills the times of the caller's struct: the result is that struct.\<close>

definition InsertContainer :: "gotime \<Rightarrow> container \<Rightarrow> store \<Rightarrow> store \<times> (err + container)" where
  "InsertContainer now c0 s =
     (let c1 = (if is_zero (c_CreatedAt c0) then c0\<lparr>c_CreatedAt := now\<rparr> else c0);
          c = c1\<lparr>c_UpdatedAt := now\<rparr>
      in if high_bit (c_MemoryBytes c) then (s, Inl (high_bit_msg 13))
         else exec (\<lambda>s.
           if c_ID c \<in> c_ID ` set (st_containers s)
           then (s, Inl (unique_msg ''containers.id (1555)''))
           else if c_NodeID c \<notin> n_ID ` set (st_nodes s) then (s, Inl fk_msg)
           else (s\<lparr>st_containers := st_containers s @ [c]\<rparr>, Inr c)) s)"

definition update_container :: "string \<Rightarrow> (container \<Rightarrow> container) \<Rightarrow> store \<Rightarrow> store" where
  "update_container cid f s =
     s\<lparr>st_containers := map (\<lambda>r. if c_ID r = cid then f r else r) (st_containers s)\<rparr>"

definition UpdateContainerState ::
  "gotime \<Rightarrow> string \<Rightarrow> string \<Rightarrow> string \<Rightarrow> string \<Rightarrow> store \<Rightarrow> store \<times> (err + unit)" where
  "UpdateContainerState now cid dockerID state status = exec (\<lambda>s.
     (update_container cid (\<lambda>r. r\<lparr>c_DockerID := (if dockerID = [] then c_DockerID r else dockerID),
        c_State := state, c_Status := status, c_UpdatedAt := now\<rparr>) s, Inr ()))"

definition UpdateContainerExternalPort ::
  "gotime \<Rightarrow> string \<Rightarrow> u32 \<Rightarrow> store \<Rightarrow> store \<times> (err + unit)" where
  "UpdateContainerExternalPort now cid port = exec (\<lambda>s.
     (update_container cid (\<lambda>r. r\<lparr>c_ExternalPort := port, c_UpdatedAt := now\<rparr>) s, Inr ()))"

definition DeleteContainer :: "string \<Rightarrow> store \<Rightarrow> store \<times> (err + unit)" where
  "DeleteContainer cid = exec (\<lambda>s.
     (s\<lparr>st_containers := [r \<leftarrow> st_containers s. c_ID r \<noteq> cid],
        st_gpus := [g \<leftarrow> st_gpus s. g_container g \<noteq> cid]\<rparr>, Inr ()))"

definition ContainerExists :: "string \<Rightarrow> store \<Rightarrow> store \<times> (err + bool)" where
  "ContainerExists cid = query (\<lambda>s. Inr (\<exists>r \<in> set (st_containers s). c_ID r = cid))"

definition scanContainer :: "container \<Rightarrow> err + container" where
  "scanContainer r = (if is_nan (c_CPUCores r) then Inl (scan_null_msg 11 ''cpu_cores'') else Inr r)"

definition ListContainers :: "store \<Rightarrow> store \<times> (err + container list)" where
  "ListContainers =
     query (\<lambda>s. scan_all scanContainer (sort_key (\<lambda>r. - c_CreatedAt r) (st_containers s)))"

definition GetContainer :: "string \<Rightarrow> store \<Rightarrow> store \<times> (err + container)" where
  "GetContainer cid = query (\<lambda>s. first_row scanContainer [r \<leftarrow> st_containers s. c_ID r = cid])"

definition UpdateContainerGPUIndices ::
  "gotime \<Rightarrow> string \<Rightarrow> string \<Rightarrow> store \<Rightarrow> store \<times> (err + unit)" where
  "UpdateContainerGPUIndices now cid indicesJSON = exec (\<lambda>s.
     (update_container cid (\<lambda>r. r\<lparr>c_GPUIndicesJSON := indicesJSON, c_UpdatedAt := now\<rparr>) s, Inr ()))"

section \<open>Ports\<close>

text \<open>
  The loop \<open>for p := start; p <= end; p++\<close> on a \<open>uint32\<close>: with \<open>end\<close> the largest value the
  guard never fails and \<open>p\<close> wraps, so the loop is a partial function; \<open>Some None\<close> is a loop
  that ended without a free port.
\<close>

partial_function (option) port_scan :: "u32 list \<Rightarrow> u32 \<Rightarrow> u32 \<Rightarrow> u32 option option" where
  "port_scan used p stop =
     (if p \<le> stop then (if p \<notin> set used then Some (Some p) else port_scan used (p + 1) stop)
      else Some None)"

definition insert_port :: "u32 \<Rightarrow> string \<Rightarrow> store \<Rightarrow> store \<times> (err + unit)" where
  "insert_port p cid s =
     (if p \<in> p_port ` set (st_ports s) then (s, Inl (unique_msg ''port_alloc.port (1555)''))
      else (s\<lparr>st_ports := st_ports s @ [\<lparr>p_port = p, p_container = cid\<rparr>]\<rparr>, Inr ()))"

definition used_ports :: "u32 \<Rightarrow> u32 \<Rightarrow> store \<Rightarrow> u32 list" where
  "used_ports start stop s =
     sort [p \<leftarrow> map p_port (st_ports s). start \<le> p \<and> p \<le> stop]"

text \<open>\<open>None\<close>: the call does not return. \<open>BEGIN\<close> and \<open>COMMIT\<close> are statements of their own.\<close>

definition AllocPort :: "u32 \<Rightarrow> u32 \<Rightarrow> string \<Rightarrow> store \<Rightarrow> (store \<times> (err + u32)) option" where
  "AllocPort start stop cid s0 =
     (case exec (\<lambda>s. (s, Inr ())) s0 of
        (s1, Inl e) \<Rightarrow> Some (s1, Inl e)
      | (s1, Inr _) \<Rightarrow>
     (case query (\<lambda>s. Inr (used_ports start stop s)) s1 of
        (s2, Inl e) \<Rightarrow> Some (rollback s0 s2, Inl e)
      | (s2, Inr used) \<Rightarrow>
     (case port_scan used start stop of
        None \<Rightarrow> None
      | Some None \<Rightarrow> Some (rollback s0 s2, Inl (ErrNoFreePort start stop))
      | Some (Some p) \<Rightarrow>
     (case exec (insert_port p cid) s2 of
        (s3, Inl e) \<Rightarrow> Some (rollback s0 s3, Inl e)
      | (s3, Inr _) \<Rightarrow>
     (case exec (\<lambda>s. (s, Inr ())) s3 of
        (s4, Inl e) \<Rightarrow> Some (rollback s0 s4, Inl e)
      | (s4, Inr _) \<Rightarrow> Some (s4, Inr p))))))"

definition FreePort :: "u32 \<Rightarrow> store \<Rightarrow> store \<times> (err + unit)" where
  "FreePort port = exec (\<lambda>s. (s\<lparr>st_ports := [r \<leftarrow> st_ports s. p_port r \<noteq> port]\<rparr>, Inr ()))"

section \<open>GPUs\<close>

definition insert_gpu :: "gotime \<Rightarrow> string \<Rightarrow> string \<Rightarrow> u32 \<Rightarrow> store \<Rightarrow> store \<times> (err + unit)" where
  "insert_gpu now nodeID cid idx s =
     (if (\<exists>g \<in> set (st_gpus s). g_node g = nodeID \<and> g_index g = idx)
      then (s, Inl (unique_msg ''gpu_alloc.node_id, gpu_alloc.gpu_index (1555)''))
      else if cid \<notin> c_ID ` set (st_containers s) \<or> nodeID \<notin> n_ID ` set (st_nodes s)
      then (s, Inl fk_msg)
      else (s\<lparr>st_gpus := st_gpus s @
              [\<lparr>g_node = nodeID, g_index = idx, g_container = cid, g_at = now\<rparr>]\<rparr>, Inr ()))"

fun insert_gpus ::
  "gotime \<Rightarrow> string \<Rightarrow> string \<Rightarrow> u32 list \<Rightarrow> store \<Rightarrow> store \<times> (err + unit)" where
  "insert_gpus now nodeID cid [] s = (s, Inr ())"
| "insert_gpus now nodeID cid (idx # rest) s =
     (case exec (insert_gpu now nodeID cid idx) s of
        (s1, Inl e) \<Rightarrow> (s1, Inl (if isUniqueViolation e then ErrGPUTaken idx nodeID else e))
      | (s1, Inr _) \<Rightarrow> insert_gpus now nodeID cid rest s1)"

definition readUsedIndices :: "string \<Rightarrow> store \<Rightarrow> store \<times> (err + u32 list)" where
  "readUsedIndices nodeID =
     query (\<lambda>s. Inr (map g_index [g \<leftarrow> st_gpus s. g_node g = nodeID]))"

text \<open>The loop \<open>for i := 0; i < total && len(chosen) < count; i++\<close>.\<close>

function gpu_scan :: "u32 list \<Rightarrow> u32 \<Rightarrow> int \<Rightarrow> u32 \<Rightarrow> u32 list \<Rightarrow> u32 list" where
  "gpu_scan used tot count i chosen =
     (if i < tot \<and> int (length chosen) < count
      then gpu_scan used tot count (i + 1) (if i \<in> set used then chosen else chosen @ [i])
      else chosen)"
  by pat_completeness auto
termination
  by (relation "measure (\<lambda>(used, tot, count, i, chosen). unat tot - unat i)")
    (auto simp: unat_Suc_word word_less_nat_alt)

declare gpu_scan.simps [simp del]

definition commit_gpus ::
  "gotime \<Rightarrow> string \<Rightarrow> string \<Rightarrow> u32 list \<Rightarrow> store \<Rightarrow> store \<Rightarrow> store \<times> (err + unit)" where
  "commit_gpus now nodeID cid idxs s0 s =
     (case insert_gpus now nodeID cid idxs s of
        (s1, Inl e) \<Rightarrow> (rollback s0 s1, Inl e)
      | (s1, Inr _) \<Rightarrow>
     (case exec (\<lambda>s. (s, Inr ())) s1 of
        (s2, Inl e) \<Rightarrow> (rollback s0 s2, Inl e)
      | (s2, Inr _) \<Rightarrow> (s2, Inr ())))"

definition AllocGPUs ::
  "gotime \<Rightarrow> string \<Rightarrow> string \<Rightarrow> int \<Rightarrow> u32 \<Rightarrow> store \<Rightarrow> store \<times> (err + u32 list)" where
  "AllocGPUs now nodeID cid count tot s0 =
     (if count \<le> 0 then (s0, Inr [])
      else
     (case exec (\<lambda>s. (s, Inr ())) s0 of
        (s1, Inl e) \<Rightarrow> (s1, Inl e)
      | (s1, Inr _) \<Rightarrow>
     (case readUsedIndices nodeID s1 of
        (s2, Inl e) \<Rightarrow> (rollback s0 s2, Inl e)
      | (s2, Inr used) \<Rightarrow>
     (let chosen = gpu_scan used tot count 0 [] in
      if int (length chosen) < count
      then (rollback s0 s2, Inl (ErrInsufficientGPUs count (length chosen) tot))
      else (case commit_gpus now nodeID cid chosen s0 s2 of
              (s3, Inl e) \<Rightarrow> (s3, Inl e)
            | (s3, Inr _) \<Rightarrow> (s3, Inr chosen))))))"

definition AllocSpecificGPUs ::
  "gotime \<Rightarrow> string \<Rightarrow> string \<Rightarrow> u32 list \<Rightarrow> store \<Rightarrow> store \<times> (err + unit)" where
  "AllocSpecificGPUs now nodeID cid indices s0 =
     (if indices = [] then (s0, Inr ())
      else
     (case exec (\<lambda>s. (s, Inr ())) s0 of
        (s1, Inl e) \<Rightarrow> (s1, Inl e)
      | (s1, Inr _) \<Rightarrow> commit_gpus now nodeID cid indices s0 s1))"

definition FreeGPUs :: "string \<Rightarrow> store \<Rightarrow> store \<times> (err + unit)" where
  "FreeGPUs cid = exec (\<lambda>s. (s\<lparr>st_gpus := [g \<leftarrow> st_gpus s. g_container g \<noteq> cid]\<rparr>, Inr ()))"

definition GetContainerGPUs :: "string \<Rightarrow> store \<Rightarrow> store \<times> (err + u32 list)" where
  "GetContainerGPUs cid =
     query (\<lambda>s. Inr (sort (map g_index [g \<leftarrow> st_gpus s. g_container g = cid])))"

text \<open>\<open>GROUP BY node_id\<close>; the Go map has a key for every node that holds at least one GPU.\<close>

definition GPUUsageByNode :: "store \<Rightarrow> store \<times> (err + (string \<times> u32) list)" where
  "GPUUsageByNode = query (\<lambda>s. Inr (map
     (\<lambda>n. (n, of_nat (length [g \<leftarrow> st_gpus s. g_node g = n]))) (remdups (map g_node (st_gpus s)))))"

record gpu_alloc =
  ga_Index :: u32
  ga_ContainerID :: string
  ga_ContainerName :: string

definition ListGPUAllocsForNode :: "string \<Rightarrow> store \<Rightarrow> store \<times> (err + gpu_alloc list)" where
  "ListGPUAllocsForNode nodeID = query (\<lambda>s. Inr (map
     (\<lambda>g. \<lparr>ga_Index = g_index g, ga_ContainerID = g_container g,
        ga_ContainerName = (case find (\<lambda>c. c_ID c = g_container g) (st_containers s) of
           None \<Rightarrow> [] | Some c \<Rightarrow> c_Name c)\<rparr>)
     (sort_key g_index [g \<leftarrow> st_gpus s. g_node g = nodeID])))"

section \<open>Opening the database\<close>

text \<open>\<open>sqlOpen\<close> is \<open>sql.Open\<close> on a data source name, \<open>execSchema\<close> the script that creates the missing
  tables and leaves the tables that are there.\<close>

definition Open :: "(string \<Rightarrow> err + 'db) \<Rightarrow> ('db \<Rightarrow> err + store) \<Rightarrow> string \<Rightarrow> err + store" where
  "Open sqlOpen execSchema path =
     (case sqlOpen (path @ ''?_pragma=journal_mode(WAL)&_pragma=busy_timeout(5000)&_pragma=foreign_keys(ON)'') of
        Inl e \<Rightarrow> Inl e
      | Inr db \<Rightarrow>
          (case execSchema db of
             Inl e \<Rightarrow> Inl (ErrMsg (''create schema: '' @ err_Error e))
           | Inr s \<Rightarrow> Inr s))"

end
