(* ===== verification/Store_Inv.thy ===== *)
theory Store_Inv
  imports Store
begin

text \<open>
  The integrity constraints of the schema as an invariant, kept by every operation of
  \<open>Store\<close> whatever the driver's failures, and the frame facts: which tables an operation
  leaves alone. Both are instances of the interface \<open>table_predicate\<close>: a predicate on stores
  that does not look at the script of driver failures.
\<close>

section \<open>Tables, and predicates on them\<close>

definition tables :: "store \<Rightarrow> store" where
  "tables s = s\<lparr>st_faults := []\<rparr>"

lemma tables_faults [simp]: "tables (s\<lparr>st_faults := fs\<rparr>) = tables s"
  by (simp add: tables_def)

lemma tables_rollback [simp]: "tables (rollback s0 s) = tables s0"
  by (simp add: rollback_def)

lemma tables_eq_iff:
  "tables s = tables t \<longleftrightarrow> st_nodes s = st_nodes t \<and> st_containers s = st_containers t \<and>
     st_gpus s = st_gpus t \<and> st_ports s = st_ports t"
  by (cases s; cases t) (simp add: tables_def)

lemma tables_fields [simp]:
  "st_nodes (tables s) = st_nodes s" "st_containers (tables s) = st_containers s"
  "st_gpus (tables s) = st_gpus s" "st_ports (tables s) = st_ports s" "st_faults (tables s) = []"
  by (simp_all add: tables_def)

lemma stmt_cases:
  obtains (ok) fs where "stmt s = (s\<lparr>st_faults := fs\<rparr>, None)"
    | (fault) fs m where "stmt s = (s\<lparr>st_faults := fs\<rparr>, Some m)"
proof (cases "st_faults s")
  case Nil
  then have "s = s\<lparr>st_faults := []\<rparr>" by (cases s) simp
  with Nil have "stmt s = (s\<lparr>st_faults := []\<rparr>, None)" by (simp add: stmt_def)
  then show ?thesis by (rule ok)
next
  case (Cons f fs)
  then show ?thesis by (cases f) (auto simp: stmt_def intro: ok fault)
qed

lemma exec_cases:
  assumes "exec f s = (s', r)"
  obtains (ok) fs where "f (s\<lparr>st_faults := fs\<rparr>) = (s', r)"
    | (fault) fs m where "s' = s\<lparr>st_faults := fs\<rparr>" "r = Inl (ErrMsg m)"
  using assms by (cases rule: stmt_cases [of s]) (auto simp: exec_def)

lemma exec_no_faults: "st_faults s = [] \<Longrightarrow> exec f s = f s"
  by (simp add: exec_def stmt_def)

lemma query_no_faults: "st_faults s = [] \<Longrightarrow> query f s = (s, f s)"
  by (simp add: query_def exec_no_faults)

locale table_predicate =
  fixes P :: "store \<Rightarrow> bool"
  assumes P_faults: "P (s\<lparr>st_faults := fs\<rparr>) = P s"
begin

lemma P_exec:
  assumes "P s" and "\<And>t. P t \<Longrightarrow> P (fst (f t))"
  shows "P (fst (exec f s))"
proof -
  obtain s' r where e: "exec f s = (s', r)" by force
  then show ?thesis
  proof (cases rule: exec_cases)
    case (ok fs)
    have "P (fst (f (s\<lparr>st_faults := fs\<rparr>)))" using assms by (simp add: P_faults)
    with ok e show ?thesis by simp
  next
    case (fault fs m)
    with e assms(1) show ?thesis by (simp add: P_faults)
  qed
qed

lemma P_exec_pair: "exec f s = (s', r) \<Longrightarrow> P s \<Longrightarrow> (\<And>t. P t \<Longrightarrow> P (fst (f t))) \<Longrightarrow> P s'"
  using P_exec [of s f] by simp

lemma P_query: "P s \<Longrightarrow> P (fst (query f s))"
  by (simp add: query_def P_exec)

lemma P_query_pair: "query f s = (s', r) \<Longrightarrow> P s \<Longrightarrow> P s'"
  using P_query [of s f] by simp

lemma P_rollback: "P s0 \<Longrightarrow> P (rollback s0 s)"
  by (simp add: rollback_def P_faults)

lemma P_insert_gpus:
  assumes step: "\<And>t idx. P t \<Longrightarrow> P (fst (insert_gpu now nid cid idx t))" and "P s"
  shows "P (fst (insert_gpus now nid cid idxs s))"
  using \<open>P s\<close>
proof (induction idxs arbitrary: s)
  case (Cons i idxs)
  obtain s' r where e: "exec (insert_gpu now nid cid i) s = (s', r)" by force
  with Cons.prems step have "P s'" by (blast intro: P_exec_pair)
  with e Cons.IH show ?case by (simp split: sum.split)
qed simp

lemma P_commit_gpus:
  assumes "\<And>t idx. P t \<Longrightarrow> P (fst (insert_gpu now nid cid idx t))" and "P s" and "P s0"
  shows "P (fst (commit_gpus now nid cid idxs s0 s))"
proof -
  obtain s1 r1 where e: "insert_gpus now nid cid idxs s = (s1, r1)" by force
  with P_insert_gpus [of now nid cid s idxs] assms have "P s1" by simp
  then have "P (fst (exec (\<lambda>s. (s, Inr ())) s1 :: store \<times> (err + unit)))"
    by (intro P_exec) simp_all
  with e \<open>P s0\<close> show ?thesis
    by (auto simp: commit_gpus_def P_rollback split: sum.split prod.split)
qed

lemma P_AllocSpecificGPUs:
  assumes "\<And>t idx. P t \<Longrightarrow> P (fst (insert_gpu now nid cid idx t))" and "P s"
  shows "P (fst (AllocSpecificGPUs now nid cid idxs s))"
proof -
  obtain s1 and r1 :: "err + unit" where e: "exec (\<lambda>s. (s, Inr ())) s = (s1, r1)" by force
  then have "P s1" using \<open>P s\<close> by (auto elim: P_exec_pair)
  with e assms P_commit_gpus [of now nid cid s1 s idxs] show ?thesis
    by (auto simp: AllocSpecificGPUs_def split: sum.split)
qed

lemma P_AllocGPUs:
  assumes "\<And>t idx. P t \<Longrightarrow> P (fst (insert_gpu now nid cid idx t))" and "P s"
  shows "P (fst (AllocGPUs now nid cid count tot s))"
proof -
  obtain s1 and r1 :: "err + unit" where e: "exec (\<lambda>s. (s, Inr ())) s = (s1, r1)" by force
  then have s1: "P s1" using \<open>P s\<close> by (auto elim: P_exec_pair)
  obtain s2 r2 where e2: "readUsedIndices nid s1 = (s2, r2)" by force
  then have s2: "P s2" using s1 by (auto simp: readUsedIndices_def elim: P_query_pair)
  have "P (fst (commit_gpus now nid cid idxs s s2))" for idxs
    using assms s2 by (intro P_commit_gpus)
  with e e2 s1 \<open>P s\<close> show ?thesis
    by (auto simp: AllocGPUs_def Let_def P_rollback split: sum.splits prod.splits)
      (metis fst_conv)+
qed

lemma P_AllocPort:
  assumes "\<And>t p. P t \<Longrightarrow> P (fst (insert_port p cid t))" and "P s"
    and "AllocPort start stop cid s = Some (s', r)"
  shows "P s'"
proof -
  obtain s1 and r1 :: "err + unit" where e1: "exec (\<lambda>s. (s, Inr ())) s = (s1, r1)" by force
  then have s1: "P s1" using \<open>P s\<close> by (auto elim: P_exec_pair)
  obtain s2 r2 where e2: "query (\<lambda>s. Inr (used_ports start stop s)) s1 = (s2, r2)" by force
  then have s2: "P s2" using s1 by (auto elim: P_query_pair)
  have s3: "P s3" if "exec (insert_port p cid) s2 = (s3, r3)" for p s3 r3
    using that s2 assms(1) by (auto elim: P_exec_pair)
  have s4: "P s4" if "exec (insert_port p cid) s2 = (s3, r3)"
    and "exec (\<lambda>s. (s, Inr ())) s3 = (s4, r4 :: err + unit)" for p s3 r3 s4 r4
    using that s3 by (auto elim: P_exec_pair)
  show ?thesis
    using assms(2,3) e1 e2 s1
    by (auto simp: AllocPort_def P_rollback split: sum.splits prod.splits option.splits dest: s4)
qed

end
section \<open>The schema's constraints\<close>

definition node_ids :: "store \<Rightarrow> string list" where
  "node_ids s = map n_ID (st_nodes s)"

definition machine_ids :: "store \<Rightarrow> string list" where
  "machine_ids s = map n_MachineID (st_nodes s)"

definition container_ids :: "store \<Rightarrow> string list" where
  "container_ids s = map c_ID (st_containers s)"

definition gpu_keys :: "store \<Rightarrow> (string \<times> u32) list" where
  "gpu_keys s = map (\<lambda>g. (g_node g, g_index g)) (st_gpus s)"

definition integrity :: "store \<Rightarrow> bool" where
  "integrity s \<longleftrightarrow>
     distinct (node_ids s) \<and>
     distinct [m \<leftarrow> machine_ids s. m \<noteq> []] \<and>
     distinct (container_ids s) \<and>
     set (map c_NodeID (st_containers s)) \<subseteq> set (node_ids s) \<and>
     distinct (gpu_keys s) \<and>
     set (map g_container (st_gpus s)) \<subseteq> set (container_ids s) \<and>
     set (map g_node (st_gpus s)) \<subseteq> set (node_ids s) \<and>
     distinct (map p_port (st_ports s))"

lemmas integrity_defs = integrity_def node_ids_def machine_ids_def container_ids_def gpu_keys_def

lemma integrity_faults [simp]: "integrity (s\<lparr>st_faults := fs\<rparr>) = integrity s"
  by (simp add: integrity_defs)

text \<open>Only the key columns matter.\<close>

lemma integrity_keys_cong:
  assumes "node_ids t = node_ids s" "machine_ids t = machine_ids s"
    and "container_ids t = container_ids s"
    and "map c_NodeID (st_containers t) = map c_NodeID (st_containers s)"
    and "st_gpus t = st_gpus s" "st_ports t = st_ports s"
  shows "integrity t = integrity s"
  using assms by (simp only: integrity_def gpu_keys_def)

interpretation integ: table_predicate integrity
  by unfold_locales simp

interpretation nodes_are: table_predicate "\<lambda>s. st_nodes s = N"
  by unfold_locales simp

interpretation containers_are: table_predicate "\<lambda>s. st_containers s = C"
  by unfold_locales simp

interpretation gpus_are: table_predicate "\<lambda>s. st_gpus s = G"
  by unfold_locales simp

interpretation ports_are: table_predicate "\<lambda>s. st_ports s = Q"
  by unfold_locales simp

lemma integrity_schema: "integrity schema"
  by (simp add: integrity_defs schema_def)

subsection \<open>Nodes\<close>

lemma integrity_map_nodes:
  assumes "integrity s" and "\<And>r. n_ID (f r) = n_ID r" and "\<And>r. n_MachineID (f r) = n_MachineID r"
  shows "integrity (s\<lparr>st_nodes := map (\<lambda>r. if p r then f r else r) (st_nodes s)\<rparr>)"
  using assms
  by (subst integrity_keys_cong [of _ s])
    (simp_all add: node_ids_def machine_ids_def container_ids_def map_update_same del: map_map)

lemma distinct_nonempty_map_update:
  assumes "distinct [m \<leftarrow> map mid rows. m \<noteq> []]"
    and "\<And>r. r \<in> set rows \<Longrightarrow> \<not> p r \<Longrightarrow> mid r = [] \<or> mid r \<noteq> v"
    and "distinct (map key rows)" and "\<And>r. p r \<Longrightarrow> key r = k"
  shows "distinct [m \<leftarrow> map (\<lambda>r. if p r then v else mid r) rows. m \<noteq> []]"
  using assms
proof (induction rows)
  case (Cons r rows)
  have "\<not> p r'" if "p r" "r' \<in> set rows" for r'
    using that Cons.prems(3) Cons.prems(4) [of r] Cons.prems(4) [of r'] by (auto simp: rev_image_eqI)
  moreover have "distinct [m \<leftarrow> map (\<lambda>r. if p r then v else mid r) rows. m \<noteq> []]"
    using Cons.prems by (intro Cons.IH) (auto split: if_splits)
  ultimately show ?case using Cons.prems by (auto split: if_splits simp: image_iff)
qed simp

lemma integrity_upsert_row:
  assumes "integrity s" and "\<not> node_taken n (st_nodes s)"
    and f: "\<And>r. n_ID (f r) = n_ID r" "\<And>r. n_MachineID (f r) = n_MachineID n"
  shows "integrity (s\<lparr>st_nodes := map (\<lambda>r. if n_ID r = n_ID n then f r else r) (st_nodes s)\<rparr>)"
    (is "integrity ?t")
proof -
  have ids: "node_ids ?t = node_ids s"
    using f by (simp add: node_ids_def map_update_same del: map_map)
  have m: "machine_ids ?t =
      map (\<lambda>r. if n_ID r = n_ID n then n_MachineID n else n_MachineID r) (st_nodes s)"
    using f by (simp add: machine_ids_def)
  have "distinct [m \<leftarrow> machine_ids ?t. m \<noteq> []]"
    unfolding m
    using assms(1,2) by (intro distinct_nonempty_map_update [where key = n_ID and k = "n_ID n"])
      (auto simp: integrity_defs node_taken_def)
  then show ?thesis
    using assms(1) by (simp add: integrity_def ids gpu_keys_def container_ids_def)
qed

lemma integrity_insert_node:
  assumes "integrity s" and "\<not> node_taken n (st_nodes s)" and "n_ID n \<notin> n_ID ` set (st_nodes s)"
    and "n_ID r = n_ID n" "n_MachineID r = n_MachineID n"
  shows "integrity (s\<lparr>st_nodes := st_nodes s @ [r]\<rparr>)"
proof -
  have "n_MachineID r' \<noteq> n_MachineID n" if "n_MachineID n \<noteq> []" "r' \<in> set (st_nodes s)" for r'
  proof -
    have "n_ID r' \<noteq> n_ID n" using assms(3) that(2) by (metis imageI)
    with assms(2) that show ?thesis by (auto simp: node_taken_def)
  qed
  then have "n_MachineID n \<noteq> [] \<longrightarrow> n_MachineID n \<notin> n_MachineID ` set (st_nodes s)"
    by force
  with assms show ?thesis by (auto simp: integrity_defs)
qed

lemma node_taken_registered [simp]: "node_taken (n\<lparr>n_RegisteredAt := t\<rparr>) rows = node_taken n rows"
  by (simp add: node_taken_def)

lemma integrity_UpsertNode [store_inv]:
  assumes "integrity s" shows "integrity (fst (UpsertNode now n s))"
  unfolding UpsertNode_def Let_def
  using assms by (intro integ.P_exec)
    (auto intro!: integrity_upsert_row integrity_insert_node)

lemma integrity_UpdateNodeState [store_inv]:
  assumes "integrity s" shows "integrity (fst (UpdateNodeState now nid state s))"
  unfolding UpdateNodeState_def
  using assms by (intro integ.P_exec) (auto intro!: integrity_map_nodes)

lemma integrity_UpdateNodeMetrics [store_inv]:
  assumes "integrity s" shows "integrity (fst (UpdateNodeMetrics now n s))"
  unfolding UpdateNodeMetrics_def
  using assms by (auto intro!: integ.P_exec integrity_map_nodes)

subsection \<open>Containers\<close>

lemma integrity_update_container:
  assumes "integrity s" and "\<And>r. c_ID (f r) = c_ID r" and "\<And>r. c_NodeID (f r) = c_NodeID r"
  shows "integrity (update_container cid f s)"
  using assms
  by (subst integrity_keys_cong [of _ s])
    (simp_all add: update_container_def node_ids_def machine_ids_def container_ids_def
      map_update_same del: map_map)

lemma integrity_insert_container:
  assumes "integrity s" "c_ID c \<notin> c_ID ` set (st_containers s)"
    and "c_NodeID c \<in> n_ID ` set (st_nodes s)"
  shows "integrity (s\<lparr>st_containers := st_containers s @ [c]\<rparr>)"
  using assms by (auto simp: integrity_defs)

lemma integrity_InsertContainer [store_inv]:
  assumes "integrity s" shows "integrity (fst (InsertContainer now c s))"
  unfolding InsertContainer_def Let_def
  using assms by (auto intro!: integ.P_exec integrity_insert_container)

lemma integrity_UpdateContainerState [store_inv]:
  assumes "integrity s" shows "integrity (fst (UpdateContainerState now cid d st u s))"
  unfolding UpdateContainerState_def
  using assms by (intro integ.P_exec) (auto intro!: integrity_update_container)

lemma integrity_UpdateContainerExternalPort [store_inv]:
  assumes "integrity s" shows "integrity (fst (UpdateContainerExternalPort now cid p s))"
  unfolding UpdateContainerExternalPort_def
  using assms by (intro integ.P_exec) (auto intro!: integrity_update_container)

lemma integrity_UpdateContainerGPUIndices [store_inv]:
  assumes "integrity s" shows "integrity (fst (UpdateContainerGPUIndices now cid j s))"
  unfolding UpdateContainerGPUIndices_def
  using assms by (intro integ.P_exec) (auto intro!: integrity_update_container)

lemma integrity_DeleteContainer [store_inv]:
  assumes "integrity s" shows "integrity (fst (DeleteContainer cid s))"
  unfolding DeleteContainer_def
  using assms by (intro integ.P_exec) (auto simp: integrity_defs distinct_map_filter)

subsection \<open>Ports and GPUs\<close>

lemma integrity_insert_port: "integrity s \<Longrightarrow> integrity (fst (insert_port p cid s))"
  by (auto simp: insert_port_def integrity_defs)

lemma integrity_AllocPort [store_inv]:
  "AllocPort start stop cid s = Some (s', r) \<Longrightarrow> integrity s \<Longrightarrow> integrity s'"
  by (blast intro: integ.P_AllocPort integrity_insert_port)

lemma integrity_FreePort [store_inv]:
  assumes "integrity s" shows "integrity (fst (FreePort p s))"
  unfolding FreePort_def
  using assms by (intro integ.P_exec) (auto simp: integrity_defs distinct_map_filter)

lemma integrity_insert_gpu: "integrity s \<Longrightarrow> integrity (fst (insert_gpu now nid cid idx s))"
  by (auto simp: insert_gpu_def integrity_defs)

lemma integrity_AllocGPUs [store_inv]:
  assumes "integrity s" shows "integrity (fst (AllocGPUs now nid cid count tot s))"
  using assms by (intro integ.P_AllocGPUs integrity_insert_gpu)

lemma integrity_AllocSpecificGPUs [store_inv]:
  assumes "integrity s" shows "integrity (fst (AllocSpecificGPUs now nid cid idxs s))"
  using assms by (intro integ.P_AllocSpecificGPUs integrity_insert_gpu)

lemma integrity_FreeGPUs [store_inv]:
  assumes "integrity s" shows "integrity (fst (FreeGPUs cid s))"
  unfolding FreeGPUs_def
  using assms by (intro integ.P_exec) (auto simp: integrity_defs distinct_map_filter)

subsection \<open>Queries\<close>

lemma integrity_query [store_inv]: "integrity s \<Longrightarrow> integrity (fst (query f s))"
  by (rule integ.P_query)

lemma tables_query [simp]: "tables (fst (query f s)) = tables s"
proof -
  obtain s' r where "query f s = (s', r)" by force
  then show ?thesis by (auto simp: query_def elim!: exec_cases)
qed

lemmas query_ops = ListNodes_def GetNode_def ListContainers_def GetContainer_def
  ContainerExists_def GetContainerGPUs_def GPUUsageByNode_def ListGPUAllocsForNode_def

lemma tables_queries [simp]:
  "tables (fst (ListNodes s)) = tables s"
  "tables (fst (GetNode nid s)) = tables s"
  "tables (fst (GetNodeByMachineID mid s)) = tables s"
  "tables (fst (ListContainers s)) = tables s"
  "tables (fst (GetContainer cid s)) = tables s"
  "tables (fst (ContainerExists cid s)) = tables s"
  "tables (fst (GetContainerGPUs cid s)) = tables s"
  "tables (fst (GPUUsageByNode s)) = tables s"
  "tables (fst (ListGPUAllocsForNode nid s)) = tables s"
  by (simp_all add: query_ops GetNodeByMachineID_def)

lemma integrity_tables: "integrity (tables s) = integrity s"
  by (simp add: tables_def)

lemma integrity_cong: "tables s = tables t \<Longrightarrow> integrity s = integrity t"
  by (metis integrity_tables)

end
