(* ===== verification/Store_Alloc.thy ===== *)
theory Store_Alloc
  imports Store_Inv
begin

text \<open>
  What the two allocators of the store do: the port scan finds the smallest free port of its
  range, the GPU scan the lowest free indices; a reservation happens completely or not at all.
  \<open>holder\<close> abstracts the \<open>gpu_alloc\<close> table to the map from devices to the containers that
  hold them, and the interface \<open>gpu_pool\<close> states what the rest of the master relies on.
\<close>

section \<open>Ports\<close>

declare port_scan.simps [code]

lemma word_interval: "set (map of_nat [unat (a :: u32)..<Suc (unat b)]) = {a..b}"
proof (intro set_eqI iffI)
  fix x :: u32
  assume "x \<in> set (map of_nat [unat a..<Suc (unat b)])"
  then obtain k where k: "unat a \<le> k" "k \<le> unat b" "x = of_nat k" by auto
  then have "unat x = k" by (simp add: unat_of_nat_u32)
  with k show "x \<in> {a..b}" by (simp add: word_le_nat_alt)
next
  fix x :: u32
  assume "x \<in> {a..b}"
  then have "unat a \<le> unat x" "unat x \<le> unat b" by (simp_all add: word_le_nat_alt)
  moreover have "x = of_nat (unat x)" by simp
  ultimately show "x \<in> set (map of_nat [unat a..<Suc (unat b)])"
    by (metis atLeastLessThan_iff image_eqI le_imp_less_Suc list.set_map set_upt)
qed

lemma word_upt_Cons:
  "(p :: u32) \<le> b \<Longrightarrow> map of_nat [unat p..<Suc (unat b)] = p # map of_nat [Suc (unat p)..<Suc (unat b)]"
  by (simp add: word_le_nat_alt upt_conv_Cons del: upt_Suc)

text \<open>Below the largest \<open>uint32\<close> the loop is the search for the first unused port.\<close>

lemma port_scan_eq_find:
  assumes "stop < - 1"
  shows "port_scan used p stop =
    Some (find (\<lambda>q. q \<notin> set used) (map of_nat [unat p..<Suc (unat stop)]))"
proof (induction "Suc (unat stop) - unat p" arbitrary: p)
  case 0
  then have "\<not> p \<le> stop" by (simp add: word_le_nat_alt)
  with 0 show ?case by (simp add: port_scan.simps [of _ p])
next
  case (Suc k)
  show ?case
  proof (cases "p \<le> stop")
    case True
    then have "p < - 1" using assms by (rule order_le_less_trans)
    then have n: "unat (p + 1) = Suc (unat p)" by (rule unat_Suc_word)
    with Suc.hyps(2) have "k = Suc (unat stop) - unat (p + 1)" by simp
    note IH = Suc.hyps(1) [OF this]
    show ?thesis
      using True IH n by (simp add: port_scan.simps [of _ p] word_upt_Cons del: upt_Suc)
  next
    case False
    with Suc.hyps(2) show ?thesis by (simp add: word_le_nat_alt)
  qed
qed

lemma find_upt_first:
  assumes "find P (map f [a..<b]) = Some x"
  obtains k where "a \<le> k" "k < b" "x = f k" "P x" "\<forall>j. a \<le> j \<and> j < k \<longrightarrow> \<not> P (f j)"
proof -
  from assms obtain i where i: "i < b - a" "P (f (a + i))" "x = f (a + i)"
    "\<forall>j < i. \<not> P (f (a + j))"
    by (auto simp: find_Some_iff)
  then have "\<forall>j. a \<le> j \<and> j < a + i \<longrightarrow> \<not> P (f j)"
    by (metis add_less_cancel_left le_Suc_ex)
  with i show ?thesis by (intro that [of "a + i"]) auto
qed

lemma port_scan_Some:
  assumes "stop < - 1" and "port_scan used p stop = Some (Some q)"
  shows "p \<le> q \<and> q \<le> stop \<and> q \<notin> set used \<and> (\<forall>r. p \<le> r \<and> r < q \<longrightarrow> r \<in> set used)"
proof -
  from assms have "find (\<lambda>q. q \<notin> set used) (map of_nat [unat p..<Suc (unat stop)]) = Some q"
    by (simp add: port_scan_eq_find del: upt_Suc)
  then obtain k where k: "unat p \<le> k" "k < Suc (unat stop)" "q = of_nat k" "q \<notin> set used"
    "\<forall>j. unat p \<le> j \<and> j < k \<longrightarrow> of_nat j \<in> set used"
    by (elim find_upt_first) auto
  then have q: "unat q = k" by (simp add: unat_of_nat_u32 [of k stop])
  have "r \<in> set used" if "p \<le> r" "r < q" for r
    using k(5) [rule_format, of "unat r"] that q by (simp add: word_le_nat_alt word_less_nat_alt)
  with k q show ?thesis by (auto simp: word_le_nat_alt)
qed

lemma port_scan_None:
  assumes "stop < - 1"
  shows "port_scan used p stop = Some None \<longleftrightarrow> {p..stop} \<subseteq> set used"
  using assms word_interval [of p stop]
  by (auto simp: port_scan_eq_find find_None_iff simp del: upt_Suc)

text \<open>With the largest \<open>uint32\<close> as the end of the range the loop variable wraps to port 0.\<close>

lemma port_scan_wraps: "port_scan [- 1] (- 1) (- 1) = Some (Some 0)"
  by (simp add: port_scan.simps)

lemma set_used_ports: "set (used_ports start stop s) = {p \<in> p_port ` set (st_ports s). start \<le> p \<and> p \<le> stop}"
  by (auto simp: used_ports_def)

text \<open>A statement without effect of its own (\<open>BEGIN\<close>, \<open>COMMIT\<close>, a query) keeps the tables.\<close>

lemma exec_noop: "exec (\<lambda>s. (s, Inr v)) s = (s', r) \<Longrightarrow> tables s' = tables s"
  by (elim exec_cases) auto

lemma query_tables: "query f s = (s', r) \<Longrightarrow> tables s' = tables s"
  using tables_query [of f s] by simp

lemma query_Inr: "query f s = (s', Inr v) \<Longrightarrow> \<exists>fs. s' = s\<lparr>st_faults := fs\<rparr> \<and> f s' = Inr v"
  by (auto simp: query_def elim!: exec_cases)

lemma exec_noop_Inr: "exec (\<lambda>s. (s, Inr v)) s = (s', Inr w) \<Longrightarrow> \<exists>fs. s' = s\<lparr>st_faults := fs\<rparr>"
  by (elim exec_cases) auto

lemma used_ports_faults [simp]: "used_ports a b (s\<lparr>st_faults := fs\<rparr>) = used_ports a b s"
  by (simp add: used_ports_def)

definition add_port :: "u32 \<Rightarrow> string \<Rightarrow> store \<Rightarrow> store" where
  "add_port p cid s = s\<lparr>st_ports := st_ports s @ [\<lparr>p_port = p, p_container = cid\<rparr>]\<rparr>"

lemma exec_insert_port_Inr:
  "exec (insert_port p cid) s = (s', Inr v) \<Longrightarrow>
     p \<notin> p_port ` set (st_ports s) \<and> (\<exists>fs. s' = add_port p cid (s\<lparr>st_faults := fs\<rparr>))"
  by (elim exec_cases) (auto simp: insert_port_def add_port_def split: if_splits)

text \<open>The outcome of the whole transaction: the port of the scan, or no change.\<close>

lemma AllocPort_Inr:
  assumes "AllocPort start stop cid s = Some (s', Inr p)"
  shows "port_scan (used_ports start stop s) start stop = Some (Some p)"
    and "p \<notin> p_port ` set (st_ports s)" and "tables s' = tables (add_port p cid s)"
proof -
  obtain s1 and r1 :: "err + unit" where e1: "exec (\<lambda>s. (s, Inr ())) s = (s1, r1)" by force
  obtain s2 r2 where e2: "query (\<lambda>s. Inr (used_ports start stop s)) s1 = (s2, r2)" by force
  obtain s3 r3 where e3: "exec (insert_port p cid) s2 = (s3, r3)" by force
  obtain s4 and r4 :: "err + unit" where e4: "exec (\<lambda>s. (s, Inr ())) s3 = (s4, r4)" by force
  from assms e1 e2 e3 e4 have r: "r1 = Inr ()" "r2 = Inr (used_ports start stop s2)"
    "r3 = Inr ()" "r4 = Inr ()" "s' = s4"
    and scan: "port_scan (used_ports start stop s2) start stop = Some (Some p)"
    by (auto simp: AllocPort_def split: sum.splits prod.splits option.splits dest!: query_Inr)
  from e1 r obtain f1 where s1: "s1 = s\<lparr>st_faults := f1\<rparr>" by (auto dest: exec_noop_Inr)
  from e2 r s1 obtain f2 where s2: "s2 = s\<lparr>st_faults := f2\<rparr>" by (auto dest!: query_Inr)
  show "port_scan (used_ports start stop s) start stop = Some (Some p)"
    using scan s2 by simp
  show "p \<notin> p_port ` set (st_ports s)"
    using exec_insert_port_Inr [of p cid s2] e3 r s2 by auto
  obtain f3 where s3: "s3 = add_port p cid (s2\<lparr>st_faults := f3\<rparr>)"
    using exec_insert_port_Inr [of p cid s2] e3 r by auto
  from e4 r obtain f4 where "s4 = s3\<lparr>st_faults := f4\<rparr>" by (auto dest: exec_noop_Inr)
  then show "tables s' = tables (add_port p cid s)"
    using s3 s2 r by (simp add: tables_eq_iff add_port_def)
qed

lemma AllocPort_Inl:
  assumes "AllocPort start stop cid s = Some (s', Inl e)"
  shows "tables s' = tables s"
proof -
  obtain s1 and r1 :: "err + unit" where e1: "exec (\<lambda>s. (s, Inr ())) s = (s1, r1)" by force
  then have "tables s1 = tables s" by (rule exec_noop)
  with assms e1 show ?thesis
    by (auto simp: AllocPort_def split: sum.splits prod.splits option.splits)
qed

lemma AllocPort_returns: "stop < - 1 \<Longrightarrow> \<exists>res. AllocPort start stop cid s = Some res"
  by (auto simp: AllocPort_def port_scan_eq_find simp del: upt_Suc
      split: sum.splits prod.splits option.splits)

text \<open>With the largest number as the end of the range, the loop ends exactly if there is a number that is
  not in use: then it comes to one, at the latest after it has wrapped.\<close>

lemma port_scan_top_returns: "q \<notin> set used \<Longrightarrow> port_scan used p (- 1) \<noteq> None"
proof (induction "unat (q - p)" arbitrary: p rule: less_induct)
  case less
  show ?case
  proof (cases "p \<in> set used")
    case True
    with less.prems have "q - p \<noteq> 0" by auto
    moreover have "q - (p + 1) = (q - p) - 1" by simp
    ultimately have "unat (q - (p + 1)) < unat (q - p)" by (metis unat_minus_one diff_less unat_gt_0 zero_less_one)
    from less.hyps [OF this less.prems] True show ?thesis by (simp add: port_scan.simps [of used p])
  qed (simp add: port_scan.simps [of used p])
qed

lemma port_scan_top_Some: "port_scan used p stop = Some r \<Longrightarrow> stop = - 1 \<longrightarrow> (\<exists>q. q \<notin> set used)"
proof (erule port_scan.raw_induct [rotated])
  fix f :: "u32 list \<Rightarrow> u32 \<Rightarrow> u32 \<Rightarrow> u32 option option" and used p stop r
  assume "\<And>used p stop r. f used p stop = Some r \<Longrightarrow> stop = - 1 \<longrightarrow> (\<exists>q. q \<notin> set used)"
    and "(if p \<le> stop then (if p \<notin> set used then Some (Some p) else f used (p + 1) stop) else Some None) = Some r"
  then show "stop = - 1 \<longrightarrow> (\<exists>q. q \<notin> set used)" by (cases "p \<in> set used") auto
qed

lemma port_scan_None_iff: "port_scan used p stop = None \<longleftrightarrow> stop = - 1 \<and> set used = UNIV"
proof (cases "stop = - 1")
  case True
  then show ?thesis using port_scan_top_returns [of _ used p] port_scan_top_Some [of used p stop] by fastforce
next
  case False
  then have "stop < - 1" by (simp add: word_order.not_eq_extremum)
  then show ?thesis using False by (simp add: port_scan_eq_find del: upt_Suc)
qed

lemma AllocPort_None:
  assumes "AllocPort start stop cid s = None"
  shows "start = 0 \<and> stop = - 1 \<and> p_port ` set (st_ports s) = UNIV"
proof -
  obtain s1 and r1 :: "err + unit" where e1: "exec (\<lambda>s. (s, Inr ())) s = (s1, r1)" by force
  obtain s2 r2 where e2: "query (\<lambda>s. Inr (used_ports start stop s)) s1 = (s2, r2)" by force
  from assms e1 e2 obtain used where u: "r2 = Inr used" "port_scan used start stop = None"
    by (auto simp: AllocPort_def split: sum.splits prod.splits option.splits)
  then have "stop = - 1" "set used = UNIV" by (simp_all add: port_scan_None_iff)
  moreover have "used = used_ports start stop s1"
    using query_Inr [OF e2 [unfolded u(1)]] by auto
  moreover have "st_ports s1 = st_ports s" using exec_noop [OF e1] by (simp add: tables_eq_iff)
  ultimately have "UNIV = {p \<in> p_port ` set (st_ports s). start \<le> p \<and> p \<le> - 1}"
    by (simp add: used_ports_def)
  then have "p \<in> p_port ` set (st_ports s) \<and> start \<le> p" for p by blast
  then show ?thesis using \<open>stop = - 1\<close> by (metis UNIV_eq_I word_le_0_iff)
qed

lemma AllocPort_smallest:
  assumes "AllocPort start stop cid s = Some (s', Inr p)" and "stop < - 1"
  shows "start \<le> p \<and> p \<le> stop \<and> p \<notin> p_port ` set (st_ports s) \<and>
    (\<forall>q. start \<le> q \<and> q < p \<longrightarrow> q \<in> p_port ` set (st_ports s))"
proof -
  from port_scan_Some [OF assms(2) AllocPort_Inr(1) [OF assms(1)]]
  show ?thesis by (simp add: set_used_ports) blast
qed

lemma AllocPort_no_faults:
  assumes "st_faults s = []" and "stop < - 1"
  shows "AllocPort start stop cid s = Some
     (case find (\<lambda>q. q \<notin> set (used_ports start stop s)) (map of_nat [unat start..<Suc (unat stop)]) of
        None \<Rightarrow> (s, Inl (ErrNoFreePort start stop))
      | Some p \<Rightarrow> (add_port p cid s, Inr p))"
proof (cases "find (\<lambda>q. q \<notin> set (used_ports start stop s)) (map of_nat [unat start..<Suc (unat stop)])")
  case None
  have "rollback s s = s" by (simp add: rollback_def)
  with None assms show ?thesis
    by (simp add: AllocPort_def exec_no_faults query_no_faults port_scan_eq_find del: upt_Suc)
next
  case (Some p)
  then have "port_scan (used_ports start stop s) start stop = Some (Some p)"
    using assms(2) by (simp add: port_scan_eq_find del: upt_Suc)
  moreover from port_scan_Some [OF assms(2) this] have "p \<notin> p_port ` set (st_ports s)"
    by (simp add: set_used_ports) blast
  ultimately show ?thesis
    using Some assms(1)
    by (simp add: AllocPort_def exec_no_faults query_no_faults insert_port_def add_port_def del: upt_Suc)
qed

section \<open>The GPU scan\<close>

text \<open>The loop is the first \<open>count\<close> free indices, in ascending order.\<close>

definition free_indices :: "u32 list \<Rightarrow> u32 \<Rightarrow> u32 list" where
  "free_indices used tot = [i \<leftarrow> map of_nat [0..<unat tot]. i \<notin> set used]"

lemma gpu_scan_take:
  assumes "int (length chosen) \<le> count" and "i \<le> tot"
  shows "gpu_scan used tot count i chosen =
    chosen @ take (nat count - length chosen) [j \<leftarrow> map of_nat [unat i..<unat tot]. j \<notin> set used]"
  using assms
proof (induction used tot count i chosen rule: gpu_scan.induct)
  case (1 used tot count i chosen)
  show ?case
  proof (cases "i < tot \<and> int (length chosen) < count")
    case True
    then have n: "unat (i + 1) = Suc (unat i)" by (auto intro: unat_Suc_word)
    have le: "i + 1 \<le> tot" using True n by (simp add: word_le_nat_alt word_less_nat_alt)
    have up: "map of_nat [unat i..<unat tot] = i # map of_nat [Suc (unat i)..<unat tot]"
      using True by (simp add: word_less_nat_alt upt_conv_Cons)
    have c: "nat count - length chosen = Suc (nat count - Suc (length chosen))" using True by auto
    show ?thesis
      using "1.IH" [OF True] True le n
      by (subst gpu_scan.simps) (auto simp: up c)
  next
    case False
    with "1.prems" have "i = tot \<or> nat count = length chosen" by auto
    with False show ?thesis by (subst gpu_scan.simps) auto
  qed
qed

lemma gpu_scan_free:
  "0 \<le> count \<Longrightarrow> gpu_scan used tot count 0 [] = take (nat count) (free_indices used tot)"
  by (subst gpu_scan_take) (simp_all add: free_indices_def)

lemma free_indices_facts:
  "sorted (free_indices used tot)" "distinct (free_indices used tot)"
  "set (free_indices used tot) = {i. i < tot} - set used"
proof -
  have u: "unat (of_nat k :: u32) = k" if "k < unat tot" for k
    using that by (simp add: unat_of_nat_u32 [of k tot])
  have "sorted (map (of_nat :: nat \<Rightarrow> u32) [0..<unat tot])"
    by (auto simp: sorted_iff_nth_mono word_le_nat_alt u)
  then show "sorted (free_indices used tot)"
    by (simp add: free_indices_def sorted_filter [of "\<lambda>x. x", simplified])
  have "inj_on (of_nat :: nat \<Rightarrow> u32) (set [0..<unat tot])"
    by (rule inj_onI) (metis atLeastLessThan_iff set_upt u)
  then show "distinct (free_indices used tot)"
    by (simp add: free_indices_def distinct_map)
  have "i \<in> of_nat ` {0..<unat tot}" if "i < tot" for i
    using that by (intro image_eqI [of _ _ "unat i"]) (simp_all add: word_less_nat_alt)
  then show "set (free_indices used tot) = {i. i < tot} - set used"
    by (auto simp: free_indices_def word_less_nat_alt u)
qed

section \<open>Reservations\<close>

definition gpu_rows :: "gotime \<Rightarrow> string \<Rightarrow> string \<Rightarrow> u32 list \<Rightarrow> gpu_row list" where
  "gpu_rows now nid cid idxs =
     map (\<lambda>i. \<lparr>g_node = nid, g_index = i, g_container = cid, g_at = now\<rparr>) idxs"

definition add_gpus :: "gpu_row list \<Rightarrow> store \<Rightarrow> store" where
  "add_gpus rows s = s\<lparr>st_gpus := st_gpus s @ rows\<rparr>"

text \<open>What a reservation needs: fresh, pairwise different devices of a node and a container
  that exist.\<close>

definition reservable :: "string \<Rightarrow> string \<Rightarrow> u32 list \<Rightarrow> store \<Rightarrow> bool" where
  "reservable nid cid idxs s \<longleftrightarrow>
     distinct idxs \<and> (\<forall>i \<in> set idxs. (nid, i) \<notin> set (gpu_keys s)) \<and>
     (idxs \<noteq> [] \<longrightarrow> cid \<in> c_ID ` set (st_containers s) \<and> nid \<in> n_ID ` set (st_nodes s))"

lemma gpu_keys_faults [simp]: "gpu_keys (s\<lparr>st_faults := fs\<rparr>) = gpu_keys s"
  by (simp add: gpu_keys_def)

lemma reservable_faults [simp]: "reservable nid cid idxs (s\<lparr>st_faults := fs\<rparr>) = reservable nid cid idxs s"
  by (simp add: reservable_def)

lemma gpu_taken_iff:
  "(\<exists>g \<in> set (st_gpus s). g_node g = nid \<and> g_index g = i) \<longleftrightarrow> (nid, i) \<in> set (gpu_keys s)"
  by (auto simp: gpu_keys_def)

lemma insert_gpu_Inr_iff:
  "insert_gpu now nid cid i s = (s', Inr v) \<longleftrightarrow>
     reservable nid cid [i] s \<and> s' = add_gpus (gpu_rows now nid cid [i]) s"
  unfolding insert_gpu_def gpu_taken_iff
  by (auto simp: reservable_def add_gpus_def gpu_rows_def)

lemma insert_gpu_Inl: "insert_gpu now nid cid i s = (s', Inl e) \<Longrightarrow> s' = s \<and> \<not> reservable nid cid [i] s"
  unfolding insert_gpu_def gpu_taken_iff
  by (auto simp: reservable_def split: if_splits)

lemma reservable_Cons:
  "reservable nid cid (i # idxs) s \<longleftrightarrow>
     reservable nid cid [i] s \<and> reservable nid cid idxs (add_gpus (gpu_rows now nid cid [i]) s)"
  by (auto simp: reservable_def gpu_keys_def add_gpus_def gpu_rows_def)

lemma add_gpus_append: "add_gpus ys (add_gpus xs s) = add_gpus (xs @ ys) s"
  by (simp add: add_gpus_def)

lemma add_gpus_faults [simp]:
  "(add_gpus rows s)\<lparr>st_faults := fs\<rparr> = add_gpus rows (s\<lparr>st_faults := fs\<rparr>)"
  by (simp add: add_gpus_def)

lemma insert_gpus_Inr:
  "insert_gpus now nid cid idxs s = (s', Inr v) \<Longrightarrow>
     reservable nid cid idxs s \<and> (\<exists>fs. s' = add_gpus (gpu_rows now nid cid idxs) (s\<lparr>st_faults := fs\<rparr>))"
proof (induction idxs arbitrary: s)
  case Nil
  then show ?case
    by (auto simp: reservable_def add_gpus_def gpu_rows_def intro: exI [of _ "st_faults s"])
next
  case (Cons i idxs)
  from Cons.prems obtain s1 where s1: "exec (insert_gpu now nid cid i) s = (s1, Inr ())"
    and rest: "insert_gpus now nid cid idxs s1 = (s', Inr v)"
    by (auto split: prod.splits sum.splits)
  from s1 obtain f1 where r1: "reservable nid cid [i] s"
    and e1: "s1 = add_gpus (gpu_rows now nid cid [i]) (s\<lparr>st_faults := f1\<rparr>)"
    by (elim exec_cases) (auto simp: insert_gpu_Inr_iff)
  from Cons.IH [OF rest] obtain fs where "reservable nid cid idxs s1"
    and e2: "s' = add_gpus (gpu_rows now nid cid idxs) (s1\<lparr>st_faults := fs\<rparr>)" by blast
  with r1 e1 have "reservable nid cid (i # idxs) (s\<lparr>st_faults := f1\<rparr>)"
    by (subst reservable_Cons [where now = now]) simp
  moreover have "s' = add_gpus (gpu_rows now nid cid (i # idxs)) (s\<lparr>st_faults := fs\<rparr>)"
    by (simp add: e1 e2 add_gpus_append gpu_rows_def)
  ultimately show ?case by auto
qed

lemma insert_gpus_ok:
  assumes "st_faults s = []" and "reservable nid cid idxs s"
  shows "insert_gpus now nid cid idxs s = (add_gpus (gpu_rows now nid cid idxs) s, Inr ())"
  using assms
proof (induction idxs arbitrary: s)
  case Nil
  then show ?case by (simp add: add_gpus_def gpu_rows_def)
next
  case (Cons i idxs)
  then have r: "reservable nid cid [i] s"
    "reservable nid cid idxs (add_gpus (gpu_rows now nid cid [i]) s)"
    using reservable_Cons [of nid cid i idxs s now] by auto
  then have "exec (insert_gpu now nid cid i) s = (add_gpus (gpu_rows now nid cid [i]) s, Inr ())"
    using Cons.prems(1) by (simp add: exec_no_faults insert_gpu_Inr_iff)
  moreover have "st_faults (add_gpus (gpu_rows now nid cid [i]) s) = []"
    using Cons.prems(1) by (simp add: add_gpus_def)
  ultimately show ?case
    using Cons.IH r(2) by (simp add: add_gpus_append) (simp add: gpu_rows_def)
qed

lemma commit_gpus_Inr:
  assumes "commit_gpus now nid cid idxs s0 s = (s', Inr v)"
  shows "reservable nid cid idxs s \<and> tables s' = tables (add_gpus (gpu_rows now nid cid idxs) s)"
proof -
  from assms obtain s1 where s1: "insert_gpus now nid cid idxs s = (s1, Inr ())"
    and s2: "exec (\<lambda>s. (s, Inr ())) s1 = (s', Inr (v :: unit) :: err + unit)"
    by (auto simp: commit_gpus_def split: prod.splits sum.splits)
  from insert_gpus_Inr [OF s1] exec_noop [OF s2] show ?thesis
    by (auto simp: tables_eq_iff add_gpus_def)
qed

lemma commit_gpus_Inl:
  "commit_gpus now nid cid idxs s0 s = (s', Inl e) \<Longrightarrow> tables s' = tables s0"
  by (auto simp: commit_gpus_def split: prod.splits sum.splits)

lemma commit_gpus_ok:
  assumes "st_faults s = []" and "reservable nid cid idxs s"
  shows "commit_gpus now nid cid idxs s0 s = (add_gpus (gpu_rows now nid cid idxs) s, Inr ())"
proof -
  have "st_faults (add_gpus (gpu_rows now nid cid idxs) s) = []"
    using assms(1) by (simp add: add_gpus_def)
  then show ?thesis
    using insert_gpus_ok [OF assms, of now] by (simp add: commit_gpus_def exec_no_faults)
qed

lemma AllocSpecificGPUs_Inr:
  assumes "AllocSpecificGPUs now nid cid idxs s = (s', Inr v)"
  shows "reservable nid cid idxs s \<and> tables s' = tables (add_gpus (gpu_rows now nid cid idxs) s)"
proof (cases "idxs = []")
  case True
  with assms show ?thesis
    by (auto simp: AllocSpecificGPUs_def reservable_def add_gpus_def gpu_rows_def)
next
  case False
  with assms obtain s1 where s1: "exec (\<lambda>s. (s, Inr ())) s = (s1, Inr () :: err + unit)"
    and c: "commit_gpus now nid cid idxs s s1 = (s', Inr v)"
    by (auto simp: AllocSpecificGPUs_def split: prod.splits sum.splits)
  from exec_noop_Inr [OF s1] commit_gpus_Inr [OF c] show ?thesis
    by (auto simp: tables_eq_iff add_gpus_def)
qed

lemma AllocSpecificGPUs_Inl:
  assumes "AllocSpecificGPUs now nid cid idxs s = (s', Inl e)"
  shows "tables s' = tables s"
proof -
  obtain s1 and r1 :: "err + unit" where s1: "exec (\<lambda>s. (s, Inr ())) s = (s1, r1)" by force
  then have "tables s1 = tables s" by (rule exec_noop)
  with assms s1 show ?thesis
    by (auto simp: AllocSpecificGPUs_def split: prod.splits sum.splits if_splits
        dest: commit_gpus_Inl)
qed

lemma AllocSpecificGPUs_ok:
  assumes "st_faults s = []" and "reservable nid cid idxs s"
  shows "AllocSpecificGPUs now nid cid idxs s = (add_gpus (gpu_rows now nid cid idxs) s, Inr ())"
  using assms commit_gpus_ok [OF assms]
  by (auto simp: AllocSpecificGPUs_def exec_no_faults add_gpus_def gpu_rows_def)

lemma readUsedIndices_Inr:
  "readUsedIndices nid s = (s', Inr used) \<Longrightarrow>
     set used = {i. (nid, i) \<in> set (gpu_keys s)} \<and> (\<exists>fs. s' = s\<lparr>st_faults := fs\<rparr>)"
  unfolding readUsedIndices_def
  by (drule query_Inr) (auto simp: gpu_keys_def)

lemma AllocGPUs_Inl:
  assumes "AllocGPUs now nid cid count tot s = (s', Inl e)"
  shows "tables s' = tables s"
proof -
  obtain s1 and r1 :: "err + unit" where s1: "exec (\<lambda>s. (s, Inr ())) s = (s1, r1)" by force
  then have "tables s1 = tables s" by (rule exec_noop)
  with assms s1 show ?thesis
    by (auto simp: AllocGPUs_def Let_def split: prod.splits sum.splits if_splits
        dest: commit_gpus_Inl)
qed

text \<open>A count-based reservation takes the lowest free indices of the node.\<close>

lemma AllocGPUs_Inr:
  assumes "AllocGPUs now nid cid count tot s = (s', Inr idxs)" and "0 < count"
  shows "reservable nid cid idxs s" "tables s' = tables (add_gpus (gpu_rows now nid cid idxs) s)"
    "int (length idxs) = count" "sorted idxs"
    "\<exists>used. set used = {i. (nid, i) \<in> set (gpu_keys s)} \<and> idxs = take (nat count) (free_indices used tot)"
proof -
  from assms obtain s1 s2 used where s1: "exec (\<lambda>s. (s, Inr ())) s = (s1, Inr () :: err + unit)"
    and s2: "readUsedIndices nid s1 = (s2, Inr used)"
    and ix: "idxs = gpu_scan used tot count 0 []" "\<not> int (length idxs) < count"
    and c: "commit_gpus now nid cid idxs s s2 = (s', Inr ())"
    by (auto simp: AllocGPUs_def Let_def split: prod.splits sum.splits if_splits)
  from s1 obtain f1 where e1: "s1 = s\<lparr>st_faults := f1\<rparr>" by (auto dest: exec_noop_Inr)
  from readUsedIndices_Inr [OF s2] e1 obtain f2
    where u: "set used = {i. (nid, i) \<in> set (gpu_keys s)}" and e2: "s2 = s\<lparr>st_faults := f2\<rparr>"
    by auto
  from commit_gpus_Inr [OF c] e2
  show "reservable nid cid idxs s" "tables s' = tables (add_gpus (gpu_rows now nid cid idxs) s)"
    by (simp_all add: tables_eq_iff add_gpus_def)
  have t: "idxs = take (nat count) (free_indices used tot)"
    using ix(1) assms(2) by (simp add: gpu_scan_free)
  then show "int (length idxs) = count" using ix(2) assms(2) by auto
  show "sorted idxs" using t free_indices_facts(1) by (simp add: sorted_wrt_take)
  from u t show "\<exists>used. set used = {i. (nid, i) \<in> set (gpu_keys s)} \<and>
      idxs = take (nat count) (free_indices used tot)" by blast
qed

section \<open>Which error\<close>

lemma isUniqueViolation_unique [simp]: "isUniqueViolation (unique_msg cols)"
proof -
  have "contains ''constraint failed: UNIQUE constraint failed: '' ''UNIQUE constraint failed''"
    by (simp add: hasPrefix_def)
  then show ?thesis by (simp only: isUniqueViolation_def unique_msg_def err_Error.simps contains_append1) simp
qed

lemma not_isUniqueViolation_fk [simp]: "\<not> isUniqueViolation fk_msg"
  by (simp add: isUniqueViolation_def fk_msg_def hasPrefix_def)

text \<open>Without driver failures, and with container and node in place, the only refusal of a
  reservation is a device that is taken (or listed twice).\<close>

lemma insert_gpus_taken:
  assumes "st_faults s = []" and "cid \<in> c_ID ` set (st_containers s)" and "nid \<in> n_ID ` set (st_nodes s)"
    and "\<not> reservable nid cid idxs s"
  shows "\<exists>i \<in> set idxs. snd (insert_gpus now nid cid idxs s) = Inl (ErrGPUTaken i nid)"
  using assms
proof (induction idxs arbitrary: s)
  case Nil
  then show ?case by (simp add: reservable_def)
next
  case (Cons i idxs)
  show ?case
  proof (cases "(nid, i) \<in> set (gpu_keys s)")
    case True
    then have "insert_gpu now nid cid i s = (s, Inl (unique_msg ''gpu_alloc.node_id, gpu_alloc.gpu_index (1555)''))"
      by (simp add: insert_gpu_def gpu_taken_iff)
    then show ?thesis using Cons.prems(1) by (simp add: exec_no_faults)
  next
    case False
    let ?t = "add_gpus (gpu_rows now nid cid [i]) s"
    have r: "reservable nid cid [i] s" using False Cons.prems by (simp add: reservable_def)
    then have "\<not> reservable nid cid idxs ?t"
      using Cons.prems(4) reservable_Cons [of nid cid i idxs s now] by simp
    with Cons.prems have "\<exists>j \<in> set idxs. snd (insert_gpus now nid cid idxs ?t) = Inl (ErrGPUTaken j nid)"
      by (intro Cons.IH) (simp_all add: add_gpus_def)
    moreover have "exec (insert_gpu now nid cid i) s = (?t, Inr ())"
      using Cons.prems(1) r by (simp add: exec_no_faults insert_gpu_Inr_iff)
    ultimately show ?thesis by auto
  qed
qed

lemma AllocSpecificGPUs_taken:
  assumes "st_faults s = []" and "cid \<in> c_ID ` set (st_containers s)" and "nid \<in> n_ID ` set (st_nodes s)"
    and "\<not> reservable nid cid idxs s"
  shows "\<exists>i \<in> set idxs. AllocSpecificGPUs now nid cid idxs s =
    (rollback s (fst (insert_gpus now nid cid idxs s)), Inl (ErrGPUTaken i nid))"
proof -
  obtain s1 r where e: "insert_gpus now nid cid idxs s = (s1, r)" by force
  with insert_gpus_taken [OF assms, of now] obtain i where "i \<in> set idxs" "r = Inl (ErrGPUTaken i nid)"
    by auto
  moreover have "idxs \<noteq> []" using assms(4) by (auto simp: reservable_def)
  ultimately show ?thesis
    using e assms(1) by (auto simp: AllocSpecificGPUs_def commit_gpus_def exec_no_faults)
qed

section \<open>The abstract pool\<close>

definition holder :: "store \<Rightarrow> string \<times> u32 \<Rightarrow> string option" where
  "holder s = map_of (map (\<lambda>g. ((g_node g, g_index g), g_container g)) (st_gpus s))"

lemma holder_cong: "tables s = tables t \<Longrightarrow> holder s = holder t"
  by (simp add: tables_eq_iff holder_def)

lemma holder_None_iff: "holder s k = None \<longleftrightarrow> k \<notin> set (gpu_keys s)"
  by (auto simp: holder_def gpu_keys_def map_of_eq_None_iff image_iff)

lemma holder_Some_iff:
  assumes "integrity s"
  shows "holder s (n, i) = Some c \<longleftrightarrow>
    (\<exists>g \<in> set (st_gpus s). g_node g = n \<and> g_index g = i \<and> g_container g = c)"
proof -
  have "distinct (map fst (map (\<lambda>g. ((g_node g, g_index g), g_container g)) (st_gpus s)))"
    using assms by (simp add: integrity_defs comp_def)
  then show ?thesis by (auto simp: holder_def map_of_eq_Some_iff image_iff)
qed

lemma holder_add_gpus:
  assumes "reservable nid cid idxs s"
  shows "holder (add_gpus (gpu_rows now nid cid idxs) s) =
    (\<lambda>k. if fst k = nid \<and> snd k \<in> set idxs then Some cid else holder s k)"
proof
  fix k :: "string \<times> u32"
  obtain n i where k: "k = (n, i)" by force
  have "map_of (map (\<lambda>j. ((nid, j), cid)) idxs) (n, i) = (if n = nid \<and> i \<in> set idxs then Some cid else None)"
    by (induction idxs) auto
  moreover have "n = nid \<and> i \<in> set idxs \<Longrightarrow> holder s (n, i) = None"
    using assms by (simp add: reservable_def holder_None_iff)
  ultimately show "holder (add_gpus (gpu_rows now nid cid idxs) s) k =
      (if fst k = nid \<and> snd k \<in> set idxs then Some cid else holder s k)"
    by (auto simp: holder_def add_gpus_def gpu_rows_def k map_add_def comp_def split: option.splits)
qed

lemma holder_free:
  assumes "integrity s"
  shows "holder (s\<lparr>st_gpus := [g \<leftarrow> st_gpus s. g_container g \<noteq> cid]\<rparr>) =
    (\<lambda>k. if holder s k = Some cid then None else holder s k)"
proof
  fix k :: "string \<times> u32"
  let ?f = "\<lambda>g. ((g_node g, g_index g), g_container g)"
  have "distinct (map fst (map ?f (st_gpus s)))"
    using assms by (simp add: integrity_defs comp_def)
  moreover have "map ?f [g \<leftarrow> st_gpus s. g_container g \<noteq> cid] =
      [kv \<leftarrow> map ?f (st_gpus s). snd kv \<noteq> cid]"
    by (simp add: filter_map comp_def)
  ultimately show "holder (s\<lparr>st_gpus := [g \<leftarrow> st_gpus s. g_container g \<noteq> cid]\<rparr>) k =
      (if holder s k = Some cid then None else holder s k)"
    by (simp add: holder_def map_of_drop_value del: map_map)
qed

locale gpu_pool =
  fixes reserve :: "string \<Rightarrow> string \<Rightarrow> u32 list \<Rightarrow> 's \<Rightarrow> 's \<times> (err + unit)"
    and release :: "string \<Rightarrow> 's \<Rightarrow> 's \<times> (err + unit)"
    and holds :: "'s \<Rightarrow> string \<times> u32 \<Rightarrow> string option"
    and ok :: "'s \<Rightarrow> bool"
  assumes reserve_ok: "ok s \<Longrightarrow> ok (fst (reserve n c is s))"
    and release_ok: "ok s \<Longrightarrow> ok (fst (release c s))"
    and reserve_fresh: "ok s \<Longrightarrow> reserve n c is s = (s', Inr u) \<Longrightarrow> i \<in> set is \<Longrightarrow> holds s (n, i) = None"
    and reserve_holds: "ok s \<Longrightarrow> reserve n c is s = (s', Inr u) \<Longrightarrow>
      holds s' = (\<lambda>k. if fst k = n \<and> snd k \<in> set is then Some c else holds s k)"
    and reserve_fails: "ok s \<Longrightarrow> reserve n c is s = (s', Inl e) \<Longrightarrow> holds s' = holds s"
    and release_holds: "ok s \<Longrightarrow> release c s = (s', Inr u) \<Longrightarrow>
      holds s' = (\<lambda>k. if holds s k = Some c then None else holds s k)"
    and release_fails: "ok s \<Longrightarrow> release c s = (s', Inl e) \<Longrightarrow> holds s' = holds s"
begin

text \<open>A reservation never takes a device from a container, and only the release of its own
  container gives one up.\<close>

lemma reserve_keeps:
  assumes "ok s" and "holds s k = Some c" and "reserve n c' is s = (s', r)"
  shows "holds s' k = Some c"
proof (cases r)
  case (Inl e)
  with assms show ?thesis using reserve_fails by metis
next
  case (Inr u)
  have "\<not> (fst k = n \<and> snd k \<in> set is)"
    using assms Inr reserve_fresh [of s n c' "is" s' u "snd k"] by auto
  with assms Inr reserve_holds [of s n c' "is" s' u] show ?thesis by auto
qed

lemma release_keeps:
  assumes "ok s" and "holds s k = Some c" and "release c' s = (s', r)" and "c \<noteq> c'"
  shows "holds s' k = Some c"
  using assms release_holds [of s c' s'] release_fails [of s c' s'] by (cases r) auto

lemma two_reservations_disjoint:
  assumes "ok s" and "reserve n c is s = (s1, Inr u)" and "reserve n c' js s1 = (s2, Inr v)"
  shows "set is \<inter> set js = {}"
proof -
  have "ok s1" using reserve_ok [of s n c "is"] assms(1,2) by simp
  with assms show ?thesis
    using reserve_holds [of s n c "is" s1 u] reserve_fresh [of s1 n c' js s2 v] by fastforce
qed

lemma reserve_release_roundtrip:
  assumes "ok s" and "\<forall>k. holds s k \<noteq> Some c"
    and "reserve n c is s = (s1, Inr u)" and "release c s1 = (s2, Inr v)"
  shows "holds s2 = holds s"
proof -
  have "ok s1" using reserve_ok [of s n c "is"] assms(1,3) by simp
  then show ?thesis
    using assms reserve_holds [of s n c "is" s1 u] release_holds [of s1 c s2 v]
      reserve_fresh [of s n c "is" s1 u] by (fastforce simp: fun_eq_iff)
qed

end

lemma FreeGPUs_cases:
  assumes "FreeGPUs cid s = (s', r)"
  shows "(\<exists>v. r = Inr v \<and> tables s' = tables (s\<lparr>st_gpus := [g \<leftarrow> st_gpus s. g_container g \<noteq> cid]\<rparr>))
    \<or> (\<exists>e. r = Inl e \<and> tables s' = tables s)"
  using assms unfolding FreeGPUs_def by (elim exec_cases) (auto simp: tables_eq_iff)

interpretation pool: gpu_pool "AllocSpecificGPUs now" FreeGPUs holder integrity for now
proof (unfold_locales, goal_cases)
  case (1 s n c "is") then show ?case by (rule integrity_AllocSpecificGPUs)
next
  case (2 s c) then show ?case by (rule integrity_FreeGPUs)
next
  case (3 s n c "is" s' u i)
  then show ?case using AllocSpecificGPUs_Inr by (auto simp: reservable_def holder_None_iff)
next
  case (4 s n c "is" s' u)
  then have r: "reservable n c is s" and t: "tables s' = tables (add_gpus (gpu_rows now n c is) s)"
    using AllocSpecificGPUs_Inr [of now n c "is" s s' u] by auto
  show ?case unfolding holder_cong [OF t] by (rule holder_add_gpus [OF r])
next
  case (5 s n c "is" s' e) then show ?case by (intro holder_cong AllocSpecificGPUs_Inl)
next
  case (6 s c s' u)
  then have t: "tables s' = tables (s\<lparr>st_gpus := [g \<leftarrow> st_gpus s. g_container g \<noteq> c]\<rparr>)"
    using FreeGPUs_cases [of c s s' "Inr u"] by auto
  show ?case unfolding holder_cong [OF t] by (rule holder_free [OF 6(1)])
next
  case (7 s c s' e)
  then have "tables s' = tables s" using FreeGPUs_cases [of c s s' "Inl e"] by auto
  then show ?case by (rule holder_cong)
qed

end
