(* ===== verification/Scheduler.thy ===== *)
theory Scheduler
  imports Store_Alloc
begin

text \<open>
  Node selection, \<open>internal/master/scheduler/scheduler.go\<close>: the loop over the nodes with its
  guards and its running minimum, the score in \<open>float64\<close> arithmetic, and the rejection message.
  The theorems say which node comes out, and that its free GPUs are really there.
\<close>

section \<open>Operations\<close>

record resource_request =
  rq_CPUCores :: f64
  rq_MemoryBytes :: u64
  rq_GPUCount :: u32

datatype select_error = StoreError err | NoNode string

definition ErrNoNode :: string where
  "ErrNoNode = ''no suitable node available''"

fun select_Error :: "select_error \<Rightarrow> string" where
  "select_Error (StoreError e) = err_Error e"
| "select_Error (NoNode detail) = ErrNoNode @ '': '' @ detail"

definition map_u32 :: "(string \<times> u32) list \<Rightarrow> string \<Rightarrow> u32" where
  "map_u32 m k = (case map_of m k of Some v \<Rightarrow> v | None \<Rightarrow> 0)"

definition freeGPUsOn :: "node \<Rightarrow> (string \<times> u32) list \<Rightarrow> u32" where
  "freeGPUsOn n gpuUsed =
     (let used = map_u32 gpuUsed (n_ID n)
      in if used \<ge> n_GpuCount n then 0 else n_GpuCount n - used)"

definition ratio :: "u64 \<Rightarrow> u64 \<Rightarrow> f64" where
  "ratio used tot = (if tot > 0 then f64_div (f64_of_int (uint used)) (f64_of_int (uint tot)) else Fin 0)"

definition score :: "node \<Rightarrow> f64" where
  "score n =
     (let cpu = f64_div (n_CPUPercent n) (Fin 100);
          mem = ratio (n_MemUsedBytes n) (n_MemTotalBytes n);
          gpu = f64_div (n_GpuUsageAvg n) (Fin 100);
          gpuMem = ratio (n_GpuMemUsed n) (n_GpuMemTotal n)
      in f64_add (f64_add (f64_add
           (f64_mul (round64 (4 / 10)) cpu) (f64_mul (round64 (3 / 10)) mem))
           (f64_mul (round64 (2 / 10)) gpu)) (f64_mul (round64 (1 / 10)) gpuMem))"

record select_stats =
  ss_online :: nat
  ss_gpuOK :: nat
  ss_cpuOK :: nat
  ss_memOK :: nat

definition no_stats :: select_stats where
  "no_stats = \<lparr>ss_online = 0, ss_gpuOK = 0, ss_cpuOK = 0, ss_memOK = 0\<rparr>"

definition gpu_rejects :: "resource_request \<Rightarrow> (string \<times> u32) list \<Rightarrow> node \<Rightarrow> bool" where
  "gpu_rejects req used n \<longleftrightarrow> rq_GPUCount req > 0 \<and> freeGPUsOn n used < rq_GPUCount req"

definition cpu_rejects :: "resource_request \<Rightarrow> node \<Rightarrow> bool" where
  "cpu_rejects req n \<longleftrightarrow>
     f64_gt0 (rq_CPUCores req) \<and> f64_gt0 (f64_of_int (uint (n_CPUCores n))) \<and>
     f64_lt (f64_of_int (uint (n_CPUCores n))) (rq_CPUCores req)"

definition mem_rejects :: "resource_request \<Rightarrow> node \<Rightarrow> bool" where
  "mem_rejects req n \<longleftrightarrow>
     rq_MemoryBytes req > 0 \<and> n_MemTotalBytes n > 0 \<and> n_MemTotalBytes n < rq_MemoryBytes req"

text \<open>The loop, with its variables \<open>best\<close>, \<open>bestScore\<close> and \<open>stats\<close>.\<close>

fun select_loop :: "resource_request \<Rightarrow> (string \<times> u32) list \<Rightarrow> node list \<Rightarrow>
    node option \<Rightarrow> f64 \<Rightarrow> select_stats \<Rightarrow> node option \<times> select_stats" where
  "select_loop req used [] best bestScore stats = (best, stats)"
| "select_loop req used (n # ns) best bestScore stats =
     (if n_State n \<noteq> ''online'' then select_loop req used ns best bestScore stats
      else let stats = stats\<lparr>ss_online := ss_online stats + 1\<rparr> in
      if gpu_rejects req used n then select_loop req used ns best bestScore stats
      else let stats = stats\<lparr>ss_gpuOK := ss_gpuOK stats + 1\<rparr> in
      if cpu_rejects req n then select_loop req used ns best bestScore stats
      else let stats = stats\<lparr>ss_cpuOK := ss_cpuOK stats + 1\<rparr> in
      if mem_rejects req n then select_loop req used ns best bestScore stats
      else let stats = stats\<lparr>ss_memOK := ss_memOK stats + 1\<rparr>; s = score n in
      if f64_lt s bestScore then select_loop req used ns (Some n) s stats
      else select_loop req used ns best bestScore stats)"

fun joinComma :: "string list \<Rightarrow> string" where
  "joinComma [] = []"
| "joinComma [p] = p"
| "joinComma (p # q # ps) = p @ '', '' @ joinComma (q # ps)"

text \<open>\<open>%.2f\<close>: the exact value in hundredths, ties to even.\<close>

fun fmt2 :: "f64 \<Rightarrow> string" where
  "fmt2 NaN = ''NaN''"
| "fmt2 (Inf s) = (if s then ''+Inf'' else ''-Inf'')"
| "fmt2 (Fin q) =
     (let (n, d) = quotient_of q; h = nat (round_half_even (100 * \<bar>n\<bar>) d)
      in (if n < 0 then ''-'' else []) @ itoa (h div 100) @ ''.'' @
         itoa (h mod 100 div 10) @ itoa (h mod 10))"

definition rejectionError :: "resource_request \<Rightarrow> select_stats \<Rightarrow> select_error" where
  "rejectionError req s = NoNode (joinComma (
     [itoa (ss_online s) @ '' online''] @
     (if rq_GPUCount req > 0
      then [itoa (ss_gpuOK s) @ '' with >='' @ itoa (unat (rq_GPUCount req)) @ '' free GPUs'']
      else []) @
     (if f64_gt0 (rq_CPUCores req)
      then [itoa (ss_cpuOK s) @ '' with >='' @ fmt2 (rq_CPUCores req) @ '' CPU cores'']
      else []) @
     (if rq_MemoryBytes req > 0
      then [itoa (ss_memOK s) @ '' with >='' @ itoa (unat (rq_MemoryBytes req)) @ '' bytes memory'']
      else [])))"

definition Select :: "resource_request \<Rightarrow> store \<Rightarrow> store \<times> (select_error + node)" where
  "Select req s =
     (case ListNodes s of
        (s1, Inl e) \<Rightarrow> (s1, Inl (StoreError e))
      | (s1, Inr nodes) \<Rightarrow>
     (case GPUUsageByNode s1 of
        (s2, Inl e) \<Rightarrow> (s2, Inl (StoreError e))
      | (s2, Inr gpuUsed) \<Rightarrow>
     (case select_loop req gpuUsed nodes None (Inf True) no_stats of
        (None, stats) \<Rightarrow> (s2, Inl (rejectionError req stats))
      | (Some best, _) \<Rightarrow> (s2, Inr best))))"

definition SchedulerFreeGPUs :: "node \<Rightarrow> (string \<times> u32) list \<Rightarrow> u32" where
  "SchedulerFreeGPUs n gpuUsed = freeGPUsOn n gpuUsed"

section \<open>The specification\<close>

definition eligible :: "resource_request \<Rightarrow> (string \<times> u32) list \<Rightarrow> node \<Rightarrow> bool" where
  "eligible req used n \<longleftrightarrow> n_State n = ''online'' \<and> \<not> gpu_rejects req used n \<and>
     \<not> cpu_rejects req n \<and> \<not> mem_rejects req n"

text \<open>The leftmost of the candidates with the least score below \<open>b\<close>.\<close>

fun leftmost_min :: "node option \<Rightarrow> f64 \<Rightarrow> node list \<Rightarrow> node option" where
  "leftmost_min best b [] = best"
| "leftmost_min best b (n # ns) =
     (if f64_lt (score n) b then leftmost_min (Some n) (score n) ns else leftmost_min best b ns)"

lemma select_loop_spec:
  "fst (select_loop req used ns best b st) = leftmost_min best b [n \<leftarrow> ns. eligible req used n]"
  by (induction req used ns best b st rule: select_loop.induct) (auto simp: Let_def eligible_def)

lemma select_loop_stats:
  "snd (select_loop req used ns best b st) =
     \<lparr>ss_online = ss_online st + length [n \<leftarrow> ns. n_State n = ''online''],
      ss_gpuOK = ss_gpuOK st + length [n \<leftarrow> ns. n_State n = ''online'' \<and> \<not> gpu_rejects req used n],
      ss_cpuOK = ss_cpuOK st + length [n \<leftarrow> ns. n_State n = ''online'' \<and> \<not> gpu_rejects req used n \<and>
        \<not> cpu_rejects req n],
      ss_memOK = ss_memOK st + length [n \<leftarrow> ns. eligible req used n]\<rparr>"
  by (induction req used ns best b st rule: select_loop.induct) (auto simp: Let_def eligible_def)

definition best_of :: "node list \<Rightarrow> node \<Rightarrow> bool" where
  "best_of ns n \<longleftrightarrow> f64_lt (score n) (Inf True) \<and>
     (\<exists>xs ys. ns = xs @ n # ys \<and> (\<forall>m \<in> set xs. score m = NaN \<or> f64_lt (score n) (score m)) \<and>
        (\<forall>m \<in> set ys. \<not> f64_lt (score m) (score n)))"

lemma leftmost_min_cases:
  assumes "b \<noteq> NaN"
  shows "(leftmost_min best b ns = best \<and> (\<forall>m \<in> set ns. \<not> f64_lt (score m) b)) \<or>
    (\<exists>n xs ys. leftmost_min best b ns = Some n \<and> ns = xs @ n # ys \<and> f64_lt (score n) b \<and>
       (\<forall>m \<in> set xs. score m = NaN \<or> f64_lt (score n) (score m)) \<and>
       (\<forall>m \<in> set ys. \<not> f64_lt (score m) (score n)))"
  using assms
proof (induction ns arbitrary: best b)
  case (Cons a ns)
  have nan: "x = NaN \<or> x \<noteq> NaN" for x :: f64 by blast
  show ?case
  proof (cases "f64_lt (score a) b")
    case True
    then have a: "score a \<noteq> NaN" by auto
    from Cons.IH [OF a, of "Some a"] show ?thesis
    proof (elim disjE exE conjE)
      assume "leftmost_min (Some a) (score a) ns = Some a" "\<forall>m \<in> set ns. \<not> f64_lt (score m) (score a)"
      with True show ?thesis by (intro disjI2 exI [of _ a] exI [of _ "[]"] exI [of _ ns]) simp
    next
      fix n xs ys
      assume n: "leftmost_min (Some a) (score a) ns = Some n" "ns = xs @ n # ys"
        "f64_lt (score n) (score a)" "\<forall>m \<in> set xs. score m = NaN \<or> f64_lt (score n) (score m)"
        "\<forall>m \<in> set ys. \<not> f64_lt (score m) (score n)"
      then have "f64_lt (score n) b" using True f64_lt_trans by blast
      with True n show ?thesis
        by (intro disjI2 exI [of _ n] exI [of _ "a # xs"] exI [of _ ys]) auto
    qed
  next
    case False
    from Cons.IH [OF Cons.prems, of best] show ?thesis
    proof (elim disjE exE conjE)
      assume "leftmost_min best b ns = best" "\<forall>m \<in> set ns. \<not> f64_lt (score m) b"
      with False show ?thesis by simp
    next
      fix n xs ys
      assume n: "leftmost_min best b ns = Some n" "ns = xs @ n # ys"
        "f64_lt (score n) b" "\<forall>m \<in> set xs. score m = NaN \<or> f64_lt (score n) (score m)"
        "\<forall>m \<in> set ys. \<not> f64_lt (score m) (score n)"
      then have "score a = NaN \<or> f64_lt (score n) (score a)"
        using False f64_lt_le_trans by blast
      with False n show ?thesis
        by (intro disjI2 exI [of _ n] exI [of _ "a # xs"] exI [of _ ys]) auto
    qed
  qed
qed simp

lemma leftmost_min_Some: "leftmost_min None (Inf True) ns = Some n \<Longrightarrow> best_of ns n"
  using leftmost_min_cases [of "Inf True" None ns] by (auto simp: best_of_def)

lemma leftmost_min_None:
  "leftmost_min None (Inf True) ns = None \<longleftrightarrow> (\<forall>m \<in> set ns. \<not> f64_lt (score m) (Inf True))"
  using leftmost_min_cases [of "Inf True" None ns] by auto

lemma best_of_least:
  assumes "best_of ns n" "m \<in> set ns"
  shows "\<not> f64_lt (score m) (score n)"
  using assms f64_lt_asym by (fastforce simp: best_of_def)

section \<open>The GPU counts\<close>

lemma gpu_rows_of_node_distinct:
  "integrity s \<Longrightarrow> distinct (map g_index [g \<leftarrow> st_gpus s. g_node g = nid])"
proof -
  assume "integrity s"
  then have "distinct (map (\<lambda>g. (g_node g, g_index g)) (st_gpus s))" by (simp add: integrity_defs)
  then show ?thesis by (induction "st_gpus s") (auto simp: distinct_map inj_on_def)
qed

lemma map_of_map_pair: "map_of (map (\<lambda>k. (k, f k)) ks) k = (if k \<in> set ks then Some (f k) else None)"
  by (induction ks) auto

definition node_usage :: "string \<Rightarrow> store \<Rightarrow> nat" where
  "node_usage nid s = length [g \<leftarrow> st_gpus s. g_node g = nid]"

lemma GPUUsageByNode_Inr:
  assumes "GPUUsageByNode s = (s', Inr used)"
  shows "map_u32 used nid = of_nat (node_usage nid s)"
proof -
  have "used = map (\<lambda>n. (n, of_nat (length [g \<leftarrow> st_gpus s. g_node g = n]))) (remdups (map g_node (st_gpus s)))"
    using assms query_Inr unfolding GPUUsageByNode_def by fastforce
  moreover have "node_usage nid s = 0" if "nid \<notin> g_node ` set (st_gpus s)"
    using that by (auto simp: node_usage_def filter_empty_conv)
  ultimately show ?thesis
    by (auto simp: map_u32_def map_of_map_pair node_usage_def)
qed

text \<open>A node has at least as many free indices below its device count as the counts say.\<close>

lemma length_free_indices: "length (free_indices used tot) \<ge> unat tot - length used"
proof -
  have "unat tot = length [i \<leftarrow> map of_nat [0..<unat tot]. i \<notin> set used] +
      length [i \<leftarrow> map of_nat [0..<unat tot]. i \<in> set (used :: u32 list)]"
    using sum_length_filter_compl [of "\<lambda>i. i \<notin> set used" "map of_nat [0..<unat tot]"] by simp
  moreover have "length [i \<leftarrow> map of_nat [0..<unat tot]. i \<in> set used] \<le> length used"
  proof -
    have "distinct (map (of_nat :: nat \<Rightarrow> u32) [0..<unat tot])"
      using free_indices_facts(2) [of "[]" tot] by (simp add: free_indices_def)
    then have "distinct [i \<leftarrow> map of_nat [0..<unat tot]. i \<in> set used]" by (rule distinct_filter)
    then have "length [i \<leftarrow> map of_nat [0..<unat tot]. i \<in> set used] =
        card (set [i \<leftarrow> map of_nat [0..<unat tot]. i \<in> set used])"
      by (simp only: distinct_card)
    also have "\<dots> \<le> card (set used)" by (intro card_mono) auto
    also have "\<dots> \<le> length used" by (rule card_length)
    finally show ?thesis .
  qed
  ultimately show ?thesis by (simp add: free_indices_def)
qed

lemma free_indices_cong: "set a = set b \<Longrightarrow> free_indices a tot = free_indices b tot"
  by (simp add: free_indices_def)

lemma AllocGPUs_enough:
  assumes "st_faults s = []" and "cid \<in> c_ID ` set (st_containers s)" and "nid \<in> n_ID ` set (st_nodes s)"
    and "0 < count" and "nat count \<le> unat tot - node_usage nid s"
  shows "\<exists>idxs. AllocGPUs now nid cid count tot s = (add_gpus (gpu_rows now nid cid idxs) s, Inr idxs) \<and>
    int (length idxs) = count"
proof -
  let ?used = "map g_index [g \<leftarrow> st_gpus s. g_node g = nid]"
  let ?ix = "take (nat count) (free_indices ?used tot)"
  have "nat count \<le> length (free_indices ?used tot)"
    using assms(5) length_free_indices [of tot ?used] by (simp add: node_usage_def)
  then have len: "int (length ?ix) = count" using assms(4) by simp
  have "distinct ?ix" using free_indices_facts(2) by (rule distinct_take)
  moreover have "(nid, i) \<notin> set (gpu_keys s)" if "i \<in> set ?ix" for i
    using in_set_takeD [OF that] free_indices_facts(3) [of ?used tot] by (auto simp: gpu_keys_def)
  ultimately have "reservable nid cid ?ix s" using assms(2,3) by (auto simp: reservable_def)
  then have "commit_gpus now nid cid ?ix s s = (add_gpus (gpu_rows now nid cid ?ix) s, Inr ())"
    using assms(1) by (intro commit_gpus_ok)
  then have "AllocGPUs now nid cid count tot s = (add_gpus (gpu_rows now nid cid ?ix) s, Inr ?ix)"
    using assms(1,4) len
    by (simp add: AllocGPUs_def exec_no_faults readUsedIndices_def query_no_faults gpu_scan_free Let_def
        del: length_take)
  with len show ?thesis by blast
qed

section \<open>Select\<close>

lemma ListNodes_Inr:
  "ListNodes s = (s', Inr ns) \<Longrightarrow> set ns = set (st_nodes s) \<and> tables s' = tables s"
proof -
  assume l: "ListNodes s = (s', Inr ns)"
  then obtain fs where "s' = s\<lparr>st_faults := fs\<rparr>"
    "scan_all scanNode (sort_key (\<lambda>r. - n_RegisteredAt r) (st_nodes s')) = Inr ns"
    unfolding ListNodes_def by (blast dest: query_Inr)
  moreover from this have "ns = sort_key (\<lambda>r. - n_RegisteredAt r) (st_nodes s')"
    by (auto simp: scan_all_Inr_iff scanNode_def list_all2_conv_all_nth intro!: nth_equalityI split: if_splits)
  ultimately show ?thesis by simp
qed

lemma Select_Inr:
  assumes "Select req s = (s', Inr n)"
  obtains nodes used where "set nodes = set (st_nodes s)" "tables s' = tables s"
    "\<And>nid. map_u32 used nid = of_nat (node_usage nid s)"
    "best_of [m \<leftarrow> nodes. eligible req used m] n"
proof -
  from assms obtain s1 nodes used stats where l: "ListNodes s = (s1, Inr nodes)"
    and u: "GPUUsageByNode s1 = (s', Inr used)"
    and b: "select_loop req used nodes None (Inf True) no_stats = (Some n, stats)"
    by (auto simp: Select_def split: prod.splits sum.splits option.splits)
  from l have t1: "tables s1 = tables s" and n: "set nodes = set (st_nodes s)"
    by (auto dest: ListNodes_Inr)
  from u have "tables s' = tables s1"
    unfolding GPUUsageByNode_def by (rule query_tables)
  moreover have "node_usage nid s1 = node_usage nid s" for nid
    using t1 by (simp add: node_usage_def tables_eq_iff)
  moreover have "best_of [m \<leftarrow> nodes. eligible req used m] n"
    using b select_loop_spec [of req used nodes None "Inf True" no_stats] by (auto intro: leftmost_min_Some)
  ultimately show ?thesis
    using that n t1 GPUUsageByNode_Inr [OF u] by metis
qed

lemma free_gpus_unat: "unat (freeGPUsOn n used) = unat (n_GpuCount n) - unat (map_u32 used (n_ID n))"
  by (auto simp: freeGPUsOn_def Let_def word_le_nat_alt unat_sub)

end
