(* ===== verification/Metrics.thy ===== *)
theory Metrics
  imports Proto Store
begin

text \<open>
  The metrics package, \<open>internal/master/metrics\<close>: the snapshot handed to a sink, the JSON form of
  a node's disks, the choice of the sink and the row a report becomes in GreptimeDB. The ingester
  SDK (client and table) is not part of the repository: it is a record of functions, an argument
  of the definitions that call it.
\<close>

section \<open>Samples\<close>

record gpu_sample =
  gp_Index :: u32
  gp_Name :: string
  gp_UUID :: string
  gp_UsagePercent :: f64
  gp_MemUsedBytes :: u64
  gp_MemTotalBytes :: u64

record disk_sample =
  dk_Path :: string
  dk_TotalBytes :: u64
  dk_UsedBytes :: u64
  dk_UsagePercent :: f64

record metric =
  me_NodeID :: string
  me_NodeName :: string
  me_CPUPercent :: f64
  me_CPUCores :: u32
  me_MemUsedBytes :: u64
  me_MemTotalBytes :: u64
  me_Load1 :: f64
  me_GpuCount :: u32
  me_GpuUsageAvg :: f64
  me_GpuMemUsed :: u64
  me_GpuMemTotal :: u64
  me_GpuDevices :: "gpu_sample list"
  me_Disks :: "disk_sample list"
  me_TS :: gotime

section \<open>Disks as JSON\<close>

definition json_u64 :: "u64 \<Rightarrow> json" where
  "json_u64 x = JNum (itoa (unat x))"

fun decode_u64 :: "json \<Rightarrow> u64 option" where
  "decode_u64 (JNum t) =
     (case atoi t of None \<Rightarrow> None | Some n \<Rightarrow> if n < 2 ^ 64 then Some (of_nat n) else None)"
| "decode_u64 _ = None"

text \<open>The struct \<open>jsonDisk\<close>, read by field name.\<close>

fun decode_disk :: "json \<Rightarrow> disk_sample option" where
  "decode_disk (JObj kvs) =
     (case (opt_field decode_str [] ''path'' kvs, opt_field decode_u64 0 ''total_bytes'' kvs,
            opt_field decode_u64 0 ''used_bytes'' kvs, opt_field decode_f64 (Fin 0) ''usage_percent'' kvs) of
        (Some p, Some t, Some u, Some x) \<Rightarrow>
          Some \<lparr>dk_Path = p, dk_TotalBytes = t, dk_UsedBytes = u, dk_UsagePercent = x\<rparr>
      | _ \<Rightarrow> None)"
| "decode_disk JNull =
     Some \<lparr>dk_Path = [], dk_TotalBytes = 0, dk_UsedBytes = 0, dk_UsagePercent = Fin 0\<rparr>"
| "decode_disk _ = None"

definition DecodeDisks :: "string \<Rightarrow> disk_sample list" where
  "DecodeDisks s =
     (if s = [] then []
      else case unmarshal decode_disk s of None \<Rightarrow> [] | Some ds \<Rightarrow> ds)"

section \<open>Choice of the sink\<close>

record metrics_config =
  mc_URL :: string
  mc_Database :: string
  mc_Username :: string
  mc_Password :: string
  mc_Table :: string

datatype 'c sink = NoopSink | DegradedSink string | GreptimeSink 'c metrics_config

definition defaultTable :: string where
  "defaultTable = ''node_metrics''"

text \<open>\<open>newClient endpoint cfg\<close> is the SDK's constructor; its error is a message.\<close>

definition newGreptimeSink ::
  "(string \<Rightarrow> metrics_config \<Rightarrow> string + 'c) \<Rightarrow> metrics_config \<Rightarrow> 'c sink" where
  "newGreptimeSink newClient cfg =
     (let db = (if mc_Database cfg = [] then ''public'' else mc_Database cfg);
          tbl = (if mc_Table cfg = [] then defaultTable else mc_Table cfg);
          cfg = cfg\<lparr>mc_Database := db, mc_Table := tbl\<rparr>;
          endpoint = trimPrefix (trimPrefix (mc_URL cfg) ''http://'') ''https://''
      in case newClient endpoint cfg of
           Inl e \<Rightarrow> DegradedSink e
         | Inr client \<Rightarrow> GreptimeSink client cfg)"

definition NewSink ::
  "(string \<Rightarrow> metrics_config \<Rightarrow> string + 'c) \<Rightarrow> metrics_config \<Rightarrow> 'c sink" where
  "NewSink newClient cfg = (if mc_URL cfg = [] then NoopSink else newGreptimeSink newClient cfg)"

fun IsDegraded :: "'c sink \<Rightarrow> bool" where
  "IsDegraded (DegradedSink _) = True"
| "IsDegraded _ = False"

section \<open>The GreptimeDB row\<close>

datatype column_type = STRING | FLOAT64 | INT32 | INT64 | JSONCOL | TIMESTAMP_MILLISECOND

datatype column_kind = Tag | Field | Timestamp

datatype cell =
    CellString string
  | CellF64 f64
  | CellI32 "32 word"
  | CellI64 "64 word"
  | CellDisks "disk_sample list"
  | CellGpus "gpu_sample list"
  | CellNil
  | CellTime gotime

record ('c, 't) table_sdk =
  tk_new :: "string \<Rightarrow> string + 't"
  tk_column :: "column_kind \<Rightarrow> string \<Rightarrow> column_type \<Rightarrow> 't \<Rightarrow> string + 't"
  tk_row :: "cell list \<Rightarrow> 't \<Rightarrow> string + 't"
  tk_write :: "'c \<Rightarrow> 't \<Rightarrow> string option"
  tk_close :: "'c \<Rightarrow> string option"

definition columns :: "(column_kind \<times> string \<times> column_type) list" where
  "columns =
     [(Tag, ''node_id'', STRING), (Tag, ''node_name'', STRING),
      (Field, ''cpu_percent'', FLOAT64), (Field, ''cpu_cores'', INT32),
      (Field, ''mem_used_bytes'', INT64), (Field, ''mem_total_bytes'', INT64),
      (Field, ''load1'', FLOAT64), (Field, ''gpu_count'', INT32),
      (Field, ''gpu_usage_percent'', FLOAT64), (Field, ''gpu_mem_used_bytes'', INT64),
      (Field, ''gpu_mem_total_bytes'', INT64), (Field, ''disks'', JSONCOL), (Field, ''gpus'', JSONCOL),
      (Timestamp, ''ts'', TIMESTAMP_MILLISECOND)]"

fun add_columns :: "('c, 't) table_sdk \<Rightarrow> (column_kind \<times> string \<times> column_type) list \<Rightarrow> 't \<Rightarrow> string + 't" where
  "add_columns sdk [] t = Inr t"
| "add_columns sdk ((k, name, ty) # cols) t =
     (case tk_column sdk k name ty t of Inl e \<Rightarrow> Inl e | Inr t' \<Rightarrow> add_columns sdk cols t')"

definition buildTable :: "('c, 't) table_sdk \<Rightarrow> string \<Rightarrow> string + 't" where
  "buildTable sdk name =
     (case tk_new sdk name of Inl e \<Rightarrow> Inl e | Inr t \<Rightarrow> add_columns sdk columns t)"

text \<open>The conversions \<open>int32(x)\<close> and \<open>int64(x)\<close> keep the bits.\<close>

definition metric_row :: "gotime \<Rightarrow> metric \<Rightarrow> cell list" where
  "metric_row ts m =
     [CellString (me_NodeID m), CellString (me_NodeName m), CellF64 (me_CPUPercent m),
      CellI32 (me_CPUCores m), CellI64 (me_MemUsedBytes m), CellI64 (me_MemTotalBytes m),
      CellF64 (me_Load1 m), CellI32 (me_GpuCount m), CellF64 (me_GpuUsageAvg m),
      CellI64 (me_GpuMemUsed m), CellI64 (me_GpuMemTotal m),
      (if me_Disks m = [] then CellNil else CellDisks (me_Disks m)),
      (if me_GpuDevices m = [] then CellNil else CellGpus (me_GpuDevices m)),
      CellTime ts]"

definition greptime_Write ::
  "('c, 't) table_sdk \<Rightarrow> 'c \<Rightarrow> metrics_config \<Rightarrow> gotime \<Rightarrow> metric \<Rightarrow> string option" where
  "greptime_Write sdk client cfg now m =
     (if me_NodeID m = [] then None
      else
        (let ts = (if is_zero (me_TS m) then now else me_TS m) in
         case buildTable sdk (mc_Table cfg) of
           Inl e \<Rightarrow> Some e
         | Inr tbl \<Rightarrow>
        (case tk_row sdk (metric_row ts m) tbl of
           Inl e \<Rightarrow> Some e
         | Inr tbl' \<Rightarrow> tk_write sdk client tbl')))"

text \<open>The result is the error, if any.\<close>

fun sink_Write :: "('c, 't) table_sdk \<Rightarrow> gotime \<Rightarrow> 'c sink \<Rightarrow> metric \<Rightarrow> string option" where
  "sink_Write sdk now NoopSink m = None"
| "sink_Write sdk now (DegradedSink e) m = Some e"
| "sink_Write sdk now (GreptimeSink c cfg) m = greptime_Write sdk c cfg now m"

fun sink_Close :: "('c, 't) table_sdk \<Rightarrow> 'c sink \<Rightarrow> string option" where
  "sink_Close sdk (GreptimeSink c cfg) = tk_close sdk c"
| "sink_Close sdk _ = None"

section \<open>Facts\<close>

text \<open>A cell fits a column.\<close>

fun cell_fits :: "column_type \<Rightarrow> cell \<Rightarrow> bool" where
  "cell_fits STRING (CellString _) = True"
| "cell_fits FLOAT64 (CellF64 _) = True"
| "cell_fits INT32 (CellI32 _) = True"
| "cell_fits INT64 (CellI64 _) = True"
| "cell_fits JSONCOL (CellDisks _) = True"
| "cell_fits JSONCOL (CellGpus _) = True"
| "cell_fits JSONCOL CellNil = True"
| "cell_fits TIMESTAMP_MILLISECOND (CellTime _) = True"
| "cell_fits _ _ = False"

lemma metric_row_fits: "list_all2 (\<lambda>(k, n, ty) c. cell_fits ty c) columns (metric_row ts m)"
  by (simp add: columns_def metric_row_def)

lemma NewSink_never_fails:
  "NewSink nc cfg = NoopSink \<longleftrightarrow> mc_URL cfg = []"
  by (auto simp: NewSink_def newGreptimeSink_def Let_def split: sum.splits)

lemma unat_u64_bound: "unat (x :: u64) < 18446744073709551616"
proof -
  have "unat x < 2 ^ LENGTH(64)" by (rule unsigned_less)
  then show ?thesis by simp
qed

lemma decode_json_u64 [simp]: "decode_u64 (json_u64 x) = Some x"
  using unat_u64_bound [of x] by (simp add: json_u64_def)

lemma wf_json_u64 [simp]: "wf_json (json_u64 x)"
  using set_itoa [of "unat x"] digits_num_chars by (simp add: json_u64_def subset_trans)

lemma json_u64_not_null [simp]: "json_u64 x \<noteq> JNull"
  by (simp add: json_u64_def)

end
