(* ===== verification/AgentMgr.thy ===== *)
theory AgentMgr
  imports Metrics Store_Alloc
begin

text \<open>
  The agent manager, \<open>internal/master/agentmgr\<close>: sessions keyed by node, registration, the
  handlers of the agents' messages, disconnection, and the two bounded channels (updates for the
  web sockets, metrics for the sink worker). A stream is a number; \<open>mg_sent\<close> is the log of what
  was sent on which stream, and \<open>mg_broken\<close> names the streams on which \<open>Send\<close> fails and its
  error. Each handler is one function of the manager and its store; \<open>now\<close> is the clock during
  the call and random bytes are an argument.
\<close>

section \<open>State\<close>

record session =
  se_NodeID :: string
  se_nodeName :: string
  se_remoteHost :: string
  se_stream :: nat

record node_update =
  nu_NodeID :: string
  nu_Kind :: string
  nu_At :: gotime
  nu_Snapshot :: "node option"

record manager =
  mg_store :: store
  mg_sessions :: "(string \<times> session) list"
  mg_updates :: "node_update list"
  mg_sinkCh :: "metric list"
  mg_closed :: "nat list"
  mg_sent :: "(nat \<times> master_message) list"
  mg_broken :: "(nat \<times> string) list"
  mg_stopped :: bool

definition updates_cap :: nat where "updates_cap = 256"
definition sink_cap :: nat where "sink_cap = 1024"

definition NewManager :: "store \<Rightarrow> manager" where
  "NewManager s = \<lparr>mg_store = s, mg_sessions = [], mg_updates = [], mg_sinkCh = [], mg_closed = [],
     mg_sent = [], mg_broken = [], mg_stopped = False\<rparr>"

text \<open>A call of the store from the manager.\<close>

definition on_store :: "(store \<Rightarrow> store \<times> 'r) \<Rightarrow> manager \<Rightarrow> manager \<times> 'r" where
  "on_store f m = (case f (mg_store m) of (s, r) \<Rightarrow> (m\<lparr>mg_store := s\<rparr>, r))"

abbreviation do_store :: "(store \<Rightarrow> store \<times> 'r) \<Rightarrow> manager \<Rightarrow> manager" where
  "do_store f m \<equiv> fst (on_store f m)"

section \<open>Channels, sessions\<close>

definition enqueueMetric :: "metric \<Rightarrow> manager \<Rightarrow> manager" where
  "enqueueMetric x m =
     (if length (mg_sinkCh m) < sink_cap then m\<lparr>mg_sinkCh := mg_sinkCh m @ [x]\<rparr> else m)"

definition publish :: "node_update \<Rightarrow> manager \<Rightarrow> manager" where
  "publish u m =
     (if length (mg_updates m) < updates_cap then m\<lparr>mg_updates := mg_updates m @ [u]\<rparr> else m)"

definition notice :: "string \<Rightarrow> string \<Rightarrow> gotime \<Rightarrow> node_update" where
  "notice nodeID kind now = \<lparr>nu_NodeID = nodeID, nu_Kind = kind, nu_At = now, nu_Snapshot = None\<rparr>"

text \<open>One turn of \<open>sinkLoop\<close> that finds a metric: the worker takes it and writes it.\<close>

definition sinkLoop_turn ::
  "('c, 't) table_sdk \<Rightarrow> 'c sink \<Rightarrow> gotime \<Rightarrow> manager \<Rightarrow> manager \<times> string option" where
  "sinkLoop_turn sdk snk now m =
     (if mg_stopped m then (m, None)
      else case mg_sinkCh m of
        [] \<Rightarrow> (m, None)
      | x # xs \<Rightarrow> (m\<lparr>mg_sinkCh := xs\<rparr>, sink_Write sdk now snk x))"

text \<open>The worker's \<open>select\<close> may still take \<open>k\<close> metrics, whose writes have a cancelled context, before it
  sees the end; when \<open>Shutdown\<close> returns it is gone and what is queued stays there. The error of
  \<open>Close\<close> is dropped.\<close>

definition Shutdown ::
  "('c, 't) table_sdk \<Rightarrow> 'c sink \<Rightarrow> nat \<Rightarrow> manager \<Rightarrow> manager \<times> string option" where
  "Shutdown sdk snk k m =
     (if mg_stopped m then (m, sink_Close sdk snk)
      else (m\<lparr>mg_sinkCh := drop k (mg_sinkCh m), mg_stopped := True\<rparr>, sink_Close sdk snk))"

definition Get :: "string \<Rightarrow> manager \<Rightarrow> session option" where
  "Get nodeID m = map_of (mg_sessions m) nodeID"

definition Online :: "manager \<Rightarrow> string list" where
  "Online m = map fst (mg_sessions m)"

definition newSession :: "string \<Rightarrow> string \<Rightarrow> nat \<Rightarrow> string \<Rightarrow> session" where
  "newSession nodeID nodeName stream remoteHost =
     \<lparr>se_NodeID = nodeID, se_nodeName = nodeName, se_remoteHost = remoteHost, se_stream = stream\<rparr>"

text \<open>\<open>close\<close> closes the session's own channel \<open>closed\<close>, once. Nobody receives from that channel, and the
  stream of the session stays open: \<open>mg_closed\<close> only records for which streams it was called.\<close>

definition close :: "session \<Rightarrow> manager \<Rightarrow> manager" where
  "close s m = (if se_stream s \<in> set (mg_closed m) then m
     else m\<lparr>mg_closed := se_stream s # mg_closed m\<rparr>)"

definition stream_send :: "nat \<Rightarrow> master_message \<Rightarrow> manager \<Rightarrow> manager \<times> (err + unit)" where
  "stream_send st msg m =
     (case map_of (mg_broken m) st of
        Some e \<Rightarrow> (m, Inl (ErrMsg e))
      | None \<Rightarrow> (m\<lparr>mg_sent := mg_sent m @ [(st, msg)]\<rparr>, Inr ()))"

definition Send :: "session \<Rightarrow> master_message \<Rightarrow> manager \<Rightarrow> manager \<times> (err + unit)" where
  "Send s msg = stream_send (se_stream s) msg"

text \<open>\<open>peer\<close> is the peer address of the context, if it has one.\<close>

definition remoteHostFromContext :: "string option \<Rightarrow> string" where
  "remoteHostFromContext peer =
     (case peer of
        None \<Rightarrow> []
      | Some a \<Rightarrow> (case splitHostPort a of None \<Rightarrow> a | Some (host, _) \<Rightarrow> host))"

definition randomID :: "err + byte list \<Rightarrow> err + string" where
  "randomID rnd = (case rnd of Inl e \<Rightarrow> Inl e | Inr b \<Rightarrow> Inr (hex_encode b))"

section \<open>Registration\<close>

definition resolveNodeID ::
  "gotime \<Rightarrow> err + byte list \<Rightarrow> register_request \<Rightarrow> manager \<Rightarrow> manager \<times> (err + string)" where
  "resolveNodeID now rnd reg m =
     (if rr_machine_id reg = [] then (m, Inl (ErrMsg ''register: machine_id required''))
      else
     (case on_store (GetNodeByMachineID (rr_machine_id reg)) m of
        (m1, Inr existing) \<Rightarrow>
          (case on_store (UpsertNode now (existing\<lparr>n_Name := rr_name reg,
                 n_Hostname := rr_hostname reg, n_OS := rr_os reg, n_Arch := rr_arch reg,
                 n_AgentVersion := rr_agent_version reg, n_State := ''online'',
                 n_LastHeartbeat := now\<rparr>)) m1 of
             (m2, Inl e) \<Rightarrow> (m2, Inl e)
           | (m2, Inr _) \<Rightarrow> (m2, Inr (n_ID existing)))
      | (m1, Inl e) \<Rightarrow>
          if e \<noteq> ErrNoRows then (m1, Inl e)
          else
         (case randomID rnd of
            Inl e \<Rightarrow> (m1, Inl e)
          | Inr nid \<Rightarrow>
         (case on_store (UpsertNode now (zero_node\<lparr>n_ID := nid, n_MachineID := rr_machine_id reg,
                 n_Name := rr_name reg, n_Hostname := rr_hostname reg, n_OS := rr_os reg,
                 n_Arch := rr_arch reg, n_AgentVersion := rr_agent_version reg,
                 n_State := ''online'', n_LastHeartbeat := now, n_RegisteredAt := now\<rparr>)) m1 of
            (m2, Inl e) \<Rightarrow> (m2, Inl e)
          | (m2, Inr _) \<Rightarrow> (m2, Inr nid)))))"

text \<open>\<open>first\<close> is the result of the first \<open>Recv\<close> on the stream.\<close>

definition OnAgentConnect ::
  "gotime \<Rightarrow> err + byte list \<Rightarrow> string option \<Rightarrow> nat \<Rightarrow> err + agent_message \<Rightarrow> manager \<Rightarrow>
     manager \<times> (err + session \<times> string)" where
  "OnAgentConnect now rnd peer stream first m =
     (case first of
        Inl e \<Rightarrow> (m, Inl (ErrMsg (''recv first msg: '' @ err_Error e)))
      | Inr msg \<Rightarrow>
     (case GetRegister msg of
        None \<Rightarrow> (m, Inl (ErrMsg ''first message must be RegisterRequest''))
      | Some reg \<Rightarrow>
     (case resolveNodeID now rnd reg m of
        (m1, Inl e) \<Rightarrow> (m1, Inl e)
      | (m1, Inr nodeID) \<Rightarrow>
     (let sess = newSession nodeID (rr_name reg) stream (remoteHostFromContext peer);
          m2 = (case map_of (mg_sessions m1) nodeID of None \<Rightarrow> m1 | Some old \<Rightarrow> close old m1);
          m3 = m2\<lparr>mg_sessions := AList.update nodeID sess (mg_sessions m2)\<rparr>
      in case on_store (UpdateNodeState now nodeID ''online'') m3 of
           (m4, Inl e) \<Rightarrow> (m4, Inl e)
         | (m4, Inr _) \<Rightarrow>
        (case stream_send stream (MasterRegisterResp \<lparr>rs_node_id = nodeID, rs_ok = True,
                rs_error = [], rs_metrics_interval_sec = 5\<rparr>) m4 of
           (m5, Inl e) \<Rightarrow> (m5, Inl e)
         | (m5, Inr _) \<Rightarrow> (publish (notice nodeID ''state'' now) m5, Inr (sess, nodeID)))))))"

section \<open>Metrics\<close>

definition json_disk :: "disk_stats \<Rightarrow> json option" where
  "json_disk d = map_option (\<lambda>t. JObj
     [(''path'', JStr (ds_path d)), (''total_bytes'', json_u64 (ds_total_bytes d)),
      (''usage_percent'', JNum t), (''used_bytes'', json_u64 (ds_used_bytes d))])
     (ftoa (ds_usage_percent d))"

definition json_gpu :: "gpu_device \<Rightarrow> json option" where
  "json_gpu d = map_option (\<lambda>t. JObj
     [(''index'', json_u32 (gd_index d)), (''mem_total_bytes'', json_u64 (gd_mem_total_bytes d)),
      (''mem_used_bytes'', json_u64 (gd_mem_used_bytes d)), (''name'', JStr (gd_name d)),
      (''usage_percent'', JNum t), (''uuid'', JStr (gd_uuid d))])
     (ftoa (gd_usage_percent d))"

text \<open>An error of \<open>Marshal\<close> gives the empty string, which is what the callers store.\<close>

definition encodeJSON :: "json list option \<Rightarrow> string" where
  "encodeJSON v = (case v of None \<Rightarrow> [] | Some vs \<Rightarrow> render (JArr vs))"

definition jsonMarshalGpu :: "gpu_stats \<Rightarrow> string" where
  "jsonMarshalGpu g = encodeJSON (those (map json_gpu (gs_devices g)))"

definition jsonMarshalDisks :: "disk_stats list \<Rightarrow> string" where
  "jsonMarshalDisks ds = encodeJSON (those (map json_disk ds))"

text \<open>The \<open>Node\<close> that \<open>handleMetrics\<close> fills from the report.\<close>

definition report_node :: "string \<Rightarrow> metric_report \<Rightarrow> node" where
  "report_node nodeID r =
     (let n = zero_node\<lparr>n_ID := nodeID\<rparr>;
          n = (case mr_cpu r of None \<Rightarrow> n
               | Some c \<Rightarrow> n\<lparr>n_CPUPercent := cs_usage_percent c, n_CPUCores := cs_cores c\<rparr>);
          n = (case mr_memory r of None \<Rightarrow> n
               | Some c \<Rightarrow> n\<lparr>n_MemUsedBytes := ms_used_bytes c, n_MemTotalBytes := ms_total_bytes c\<rparr>);
          n = (case mr_load r of None \<Rightarrow> n | Some c \<Rightarrow> n\<lparr>n_Load1 := la_load1 c\<rparr>);
          n = (case mr_gpu r of None \<Rightarrow> n
               | Some g \<Rightarrow> n\<lparr>n_GpuCount := gs_count g, n_GpuMemUsed := gs_mem_used_bytes g,
                   n_GpuMemTotal := gs_mem_total_bytes g, n_GpuUsageAvg := gs_usage_percent g,
                   n_GPUJSON := jsonMarshalGpu g\<rparr>)
      in if mr_disks r \<noteq> [] then n\<lparr>n_DiskJSON := jsonMarshalDisks (mr_disks r)\<rparr> else n)"

definition gpu_sample_of :: "gpu_device \<Rightarrow> gpu_sample" where
  "gpu_sample_of d =
     \<lparr>gp_Index = gd_index d, gp_Name = gd_name d, gp_UUID = gd_uuid d,
      gp_UsagePercent = gd_usage_percent d, gp_MemUsedBytes = gd_mem_used_bytes d,
      gp_MemTotalBytes = gd_mem_total_bytes d\<rparr>"

definition metricFromReport ::
  "gotime \<Rightarrow> string \<Rightarrow> string \<Rightarrow> node \<Rightarrow> metric_report option \<Rightarrow> gotime \<Rightarrow> metric" where
  "metricFromReport now nodeID nodeName n r ts =
     \<lparr>me_NodeID = nodeID, me_NodeName = nodeName, me_CPUPercent = n_CPUPercent n,
      me_CPUCores = n_CPUCores n, me_MemUsedBytes = n_MemUsedBytes n,
      me_MemTotalBytes = n_MemTotalBytes n, me_Load1 = n_Load1 n, me_GpuCount = n_GpuCount n,
      me_GpuUsageAvg = n_GpuUsageAvg n, me_GpuMemUsed = n_GpuMemUsed n,
      me_GpuMemTotal = n_GpuMemTotal n,
      me_GpuDevices = (case r of None \<Rightarrow> []
         | Some rep \<Rightarrow> (case mr_gpu rep of None \<Rightarrow> [] | Some g \<Rightarrow> map gpu_sample_of (gs_devices g))),
      me_Disks = DecodeDisks (n_DiskJSON n),
      me_TS = (if is_zero ts then now else ts)\<rparr>"

definition UnixMilli :: "64 word \<Rightarrow> gotime" where
  "UnixMilli ms = sint ms * 1000000"

definition handleMetrics :: "gotime \<Rightarrow> session \<Rightarrow> metric_report \<Rightarrow> manager \<Rightarrow> manager" where
  "handleMetrics now s r m =
     (let n = report_node (se_NodeID s) r;
          m2 = (case on_store (UpdateNodeMetrics now n) m of
                  (m1, Inl e) \<Rightarrow> m1
                | (m1, Inr _) \<Rightarrow> publish ((notice (se_NodeID s) ''metrics'' now)\<lparr>nu_Snapshot := Some n\<rparr>) m1)
      in enqueueMetric (metricFromReport now (se_NodeID s) (se_nodeName s) n (Some r)
           (UnixMilli (mr_ts_unix_ms r))) m2)"

section \<open>Container messages\<close>

definition handleContainerCreated :: "gotime \<Rightarrow> session \<Rightarrow> container_ack \<Rightarrow> manager \<Rightarrow> manager" where
  "handleContainerCreated now s c m =
     (let bad = (ca_error c \<noteq> []);
          state = (if bad then ''error'' else ''running'');
          status = (if bad then ca_error c else ''running'');
          m1 = (if bad then do_store (FreeGPUs (ca_container_id c)) m else m);
          m2 = do_store (UpdateContainerState now (ca_container_id c) (ca_docker_id c) state status) m1
      in publish (notice (se_NodeID s) ''container'' now) m2)"

definition handleContainerStopped :: "gotime \<Rightarrow> session \<Rightarrow> container_ack \<Rightarrow> manager \<Rightarrow> manager" where
  "handleContainerStopped now s c m =
     (let m1 = (if ca_error c \<noteq> []
        then do_store (UpdateContainerState now (ca_container_id c) (ca_docker_id c) ''error'' (ca_error c)) m
        else do_store (UpdateContainerState now (ca_container_id c) (ca_docker_id c) ''exited'' ''exited'') m)
      in publish (notice (se_NodeID s) ''container'' now) m1)"

definition handleContainerStarted :: "gotime \<Rightarrow> session \<Rightarrow> container_ack \<Rightarrow> manager \<Rightarrow> manager" where
  "handleContainerStarted now s c m =
     (let bad = (ca_error c \<noteq> []);
          state = (if bad then ''error'' else ''running'');
          status = (if bad then ca_error c else ''running'');
          m1 = (if bad then do_store (FreeGPUs (ca_container_id c)) m else m);
          m2 = do_store (UpdateContainerState now (ca_container_id c) (ca_docker_id c) state status) m1
      in publish (notice (se_NodeID s) ''container'' now) m2)"

definition isTerminalGPUAction :: "string \<Rightarrow> bool" where
  "isTerminalGPUAction action = (action \<in> {''die'', ''stop'', ''kill'', ''destroy''})"

definition handleContainerStateChanged ::
  "gotime \<Rightarrow> session \<Rightarrow> state_changed \<Rightarrow> manager \<Rightarrow> manager" where
  "handleContainerStateChanged now s c m =
     (if sc_container_id c = [] \<or> sc_state c = [] then m
      else
     (case on_store (ContainerExists (sc_container_id c)) m of
        (m1, Inl e) \<Rightarrow> m1
      | (m1, Inr False) \<Rightarrow> m1
      | (m1, Inr True) \<Rightarrow>
          (let m2 = do_store (UpdateContainerState now (sc_container_id c) (sc_docker_id c)
                 (sc_state c) (sc_status c)) m1;
               m3 = (if isTerminalGPUAction (sc_action c)
                     then do_store (FreeGPUs (sc_container_id c)) m2 else m2)
           in publish (notice (se_NodeID s) ''container'' now) m3)))"

fun handleIncoming :: "gotime \<Rightarrow> session \<Rightarrow> agent_message \<Rightarrow> manager \<Rightarrow> manager" where
  "handleIncoming now s (AgentHeartbeat _) m =
     publish (notice (se_NodeID s) ''state'' now) (do_store (UpdateNodeState now (se_NodeID s) ''online'') m)"
| "handleIncoming now s (AgentMetrics r) m = handleMetrics now s r m"
| "handleIncoming now s (AgentContainerCreated c) m = handleContainerCreated now s c m"
| "handleIncoming now s (AgentContainerStopped c) m = handleContainerStopped now s c m"
| "handleIncoming now s (AgentContainerStarted c) m = handleContainerStarted now s c m"
| "handleIncoming now s (AgentContainerStateChanged c) m = handleContainerStateChanged now s c m"
| "handleIncoming now s (AgentRegister _) m = m"
| "handleIncoming now s AgentEmpty m = m"

section \<open>Disconnection\<close>

text \<open>The loop of \<open>revertTransientOnDisconnect\<close> over the listed containers.\<close>

fun revert_loop :: "gotime \<Rightarrow> string \<Rightarrow> string \<Rightarrow> container list \<Rightarrow> manager \<Rightarrow> manager" where
  "revert_loop now nodeID status [] m = m"
| "revert_loop now nodeID status (c # cs) m =
     (if c_NodeID c \<noteq> nodeID then revert_loop now nodeID status cs m
      else if c_State c \<noteq> ''starting'' \<and> c_State c \<noteq> ''stopping''
      then revert_loop now nodeID status cs m
      else revert_loop now nodeID status cs
        (publish (notice nodeID ''container'' now)
        (do_store (FreeGPUs (c_ID c))
        (do_store (UpdateContainerState now (c_ID c) (c_DockerID c) ''error'' status) m))))"

definition revertTransientOnDisconnect :: "gotime \<Rightarrow> string \<Rightarrow> string \<Rightarrow> manager \<Rightarrow> manager" where
  "revertTransientOnDisconnect now nodeID reason m =
     (case on_store ListContainers m of
        (m1, Inl e) \<Rightarrow> m1
      | (m1, Inr cs) \<Rightarrow> revert_loop now nodeID (''agent disconnected: '' @ reason) cs m1)"

definition handleDisconnect :: "gotime \<Rightarrow> string \<Rightarrow> err \<Rightarrow> manager \<Rightarrow> manager" where
  "handleDisconnect now nodeID e m =
     (let m1 = m\<lparr>mg_sessions := AList.delete nodeID (mg_sessions m)\<rparr>;
          m2 = (case map_of (mg_sessions m) nodeID of None \<Rightarrow> m1 | Some s \<Rightarrow> close s m1);
          m3 = do_store (UpdateNodeState now nodeID ''offline'') m2;
          m4 = publish (notice nodeID ''state'' now) m3
      in revertTransientOnDisconnect now nodeID (err_Error e) m4)"

text \<open>
  \<open>HandleMessages\<close>: the received messages up to the error that ends the stream. The session is
  looked up once, before the loop. (The step relation of the whole master interleaves the turns of
  this loop with everything else; here the loop runs alone.)
\<close>

definition HandleMessages ::
  "gotime \<Rightarrow> string \<Rightarrow> agent_message list \<Rightarrow> err \<Rightarrow> manager \<Rightarrow> manager \<times> err" where
  "HandleMessages now nodeID msgs e m =
     (case Get nodeID m of
        None \<Rightarrow> (m, ErrMsg ''session missing'')
      | Some sess \<Rightarrow> (handleDisconnect now nodeID e (fold (handleIncoming now sess) msgs m), e))"

definition Connect ::
  "gotime \<Rightarrow> err + byte list \<Rightarrow> string option \<Rightarrow> nat \<Rightarrow> err + agent_message \<Rightarrow>
     agent_message list \<Rightarrow> err \<Rightarrow> manager \<Rightarrow> manager \<times> err" where
  "Connect now rnd peer stream first msgs e m =
     (case OnAgentConnect now rnd peer stream first m of
        (m1, Inl e1) \<Rightarrow> (m1, e1)
      | (m1, Inr (sess, nodeID)) \<Rightarrow> HandleMessages now nodeID msgs e m1)"

end
