(* ===== verification/Proxy.thy ===== *)
theory Proxy
  imports AgentMgr
begin

text \<open>
  The TCP proxy of the master, \<open>internal/master/proxy/proxy.go\<close>: the maps of listeners and routes and
  the decision taken for an accepted connection (the copying of its bytes is in \<open>Pipe\<close>). \<open>net.Listen\<close> and \<open>net.DialTimeout\<close> are arguments: \<open>listen p\<close> is an error or the
  port the listener got, \<open>dial a\<close> an error or nothing.
\<close>

section \<open>Listeners and routes\<close>

definition PortRangeMin :: u32 where "PortRangeMin = 30000"
definition PortRangeMax :: u32 where "PortRangeMax = 32767"

record route =
  rt_containerID :: string
  rt_nodeID :: string
  rt_hostPort :: u32

record proxy =
  px_listeners :: "u32 list"
  px_routes :: "(u32 \<times> route) list"

definition NewProxy :: proxy where
  "NewProxy = \<lparr>px_listeners = [], px_routes = []\<rparr>"

definition BindPort :: "(u32 \<Rightarrow> err + u32) \<Rightarrow> u32 \<Rightarrow> proxy \<Rightarrow> proxy \<times> (err + unit)" where
  "BindPort listen port s =
     (if port \<in> set (px_listeners s)
      then (s, Inl (ErrMsg (''port '' @ itoa (unat port) @ '' already bound'')))
      else
     (case listen port of
        Inl e \<Rightarrow> (s, Inl (ErrMsg (''listen :'' @ itoa (unat port) @ '': '' @ err_Error e)))
      | Inr actual \<Rightarrow> (s\<lparr>px_listeners := List.insert actual (px_listeners s)\<rparr>, Inr ())))"

definition RegisterRoute :: "u32 \<Rightarrow> string \<Rightarrow> string \<Rightarrow> u32 \<Rightarrow> proxy \<Rightarrow> proxy" where
  "RegisterRoute port containerID nodeID hostPort s =
     s\<lparr>px_routes := AList.update port
         \<lparr>rt_containerID = containerID, rt_nodeID = nodeID, rt_hostPort = hostPort\<rparr> (px_routes s)\<rparr>"

definition UnregisterRoute :: "u32 \<Rightarrow> proxy \<Rightarrow> proxy \<times> u32" where
  "UnregisterRoute port s =
     (let s1 = s\<lparr>px_routes := AList.delete port (px_routes s)\<rparr>;
          s2 = (if port \<in> set (px_listeners s1)
                then s1\<lparr>px_listeners := removeAll port (px_listeners s1)\<rparr> else s1)
      in (s2, port))"

definition LoadExistingRoute :: "u32 \<Rightarrow> string \<Rightarrow> string \<Rightarrow> u32 \<Rightarrow> proxy \<Rightarrow> proxy" where
  "LoadExistingRoute port containerID nodeID hostPort s =
     s\<lparr>px_routes := AList.update port
         \<lparr>rt_containerID = containerID, rt_nodeID = nodeID, rt_hostPort = hostPort\<rparr> (px_routes s)\<rparr>"

section \<open>One connection\<close>

datatype forwarded =
    NoRoute
  | NodeOffline string
  | NoRemoteHost string
  | DialFailed string err
  | Piped string string        \<comment> \<open>address, container\<close>

definition forward :: "(string \<Rightarrow> err option) \<Rightarrow> manager \<Rightarrow> u32 \<Rightarrow> proxy \<Rightarrow> forwarded" where
  "forward dial m port s =
     (case map_of (px_routes s) port of
        None \<Rightarrow> NoRoute
      | Some rt \<Rightarrow>
     (case Get (rt_nodeID rt) m of
        None \<Rightarrow> NodeOffline (rt_nodeID rt)
      | Some sess \<Rightarrow>
     (let host = se_remoteHost sess in
      if host = [] then NoRemoteHost (rt_nodeID rt)
      else
     (let addr = joinHostPort host (itoa (unat (rt_hostPort rt))) in
      case dial addr of
        Some e \<Rightarrow> DialFailed addr e
      | None \<Rightarrow> Piped addr (rt_containerID rt)))))"

text \<open>A connection that is accepted on \<open>port\<close>: only a port with a listener accepts.\<close>

definition acceptLoop :: "(string \<Rightarrow> err option) \<Rightarrow> manager \<Rightarrow> u32 \<Rightarrow> proxy \<Rightarrow> forwarded option" where
  "acceptLoop dial m port s =
     (if port \<in> set (px_listeners s) then Some (forward dial m port s) else None)"

section \<open>Facts\<close>

lemma proxy_fields [simp]:
  "px_listeners (RegisterRoute p c n h s) = px_listeners s"
  "px_routes (fst (BindPort listen p s)) = px_routes s"
  "map_of (px_routes (RegisterRoute p c n h s)) = (map_of (px_routes s))(p \<mapsto>
     \<lparr>rt_containerID = c, rt_nodeID = n, rt_hostPort = h\<rparr>)"
  "map_of (px_routes (fst (UnregisterRoute p s))) = (map_of (px_routes s))(p := None)"
  "set (px_listeners (fst (UnregisterRoute p s))) = set (px_listeners s) - {p}"
  by (auto simp: RegisterRoute_def BindPort_def UnregisterRoute_def Let_def split: sum.split)

lemma BindPort_listeners:
  "set (px_listeners px) \<subseteq> set (px_listeners (fst (BindPort listen p px)))"
  "listen p = Inr p \<Longrightarrow> p \<in> set (px_listeners (fst (BindPort listen p px)))"
  by (auto simp: BindPort_def split: sum.split)

lemma LoadExistingRoute_is_Register: "LoadExistingRoute = RegisterRoute"
  by (intro ext) (simp add: LoadExistingRoute_def RegisterRoute_def)

end
