(* ===== verification/Api.thy ===== *)
theory Api
  imports ApiUtil Scheduler Proxy
begin

text \<open>
  The HTTP handlers of the master, \<open>internal/master/api/api.go\<close>. The state is the manager (with
  its store) and the proxy; a handler returns the state and a response, a status code with a body
  whose constructors are the JSON shapes the code writes. What a handler reads from its
  surroundings (clock, random bytes, \<open>net.Listen\<close>, the request's host) is the record \<open>env\<close>.
\<close>

section \<open>State, environment, responses\<close>

record sys =
  sy_mgr :: manager
  sy_proxy :: proxy

record env =
  ev_now :: gotime
  ev_listen :: "u32 \<Rightarrow> err + u32"
  ev_host :: string
  ev_id :: "byte list"        \<comment> \<open>\<open>newContainerID\<close>\<close>
  ev_rnd1 :: "byte list"      \<comment> \<open>inside \<open>autoName\<close>'s \<open>sanitizeContainerName\<close>\<close>
  ev_rnd2 :: "byte list"      \<comment> \<open>the suffix of \<open>autoName\<close>\<close>
  ev_rnd3 :: "byte list"      \<comment> \<open>the final \<open>sanitizeContainerName\<close>\<close>

abbreviation sy_store :: "sys \<Rightarrow> store" where
  "sy_store y \<equiv> mg_store (sy_mgr y)"

definition on_sys :: "(store \<Rightarrow> store \<times> 'r) \<Rightarrow> sys \<Rightarrow> sys \<times> 'r" where
  "on_sys f y = (case on_store f (sy_mgr y) of (m, r) \<Rightarrow> (y\<lparr>sy_mgr := m\<rparr>, r))"

abbreviation do_sys :: "(store \<Rightarrow> store \<times> 'r) \<Rightarrow> sys \<Rightarrow> sys" where
  "do_sys f y \<equiv> fst (on_sys f y)"

definition sys_send :: "session \<Rightarrow> master_message \<Rightarrow> sys \<Rightarrow> sys \<times> (err + unit)" where
  "sys_send sess msg y = (case Send sess msg (sy_mgr y) of (m, r) \<Rightarrow> (y\<lparr>sy_mgr := m\<rparr>, r))"

definition register_and_bind ::
  "(u32 \<Rightarrow> err + u32) \<Rightarrow> u32 \<Rightarrow> string \<Rightarrow> string \<Rightarrow> u32 \<Rightarrow> sys \<Rightarrow> sys" where
  "register_and_bind listen port cid nid hostPort y =
     y\<lparr>sy_proxy := fst (BindPort listen port (RegisterRoute port cid nid hostPort (sy_proxy y)))\<rparr>"

record node_view =
  nv_node :: node
  nv_gpu_used :: u32
  nv_gpu_free :: u32
  nv_disks :: "json list option"
  nv_gpus :: "json list option"

record gpu_view =
  gv_index :: u32
  gv_reported :: "(string \<times> string \<times> u64) option"
  gv_held_by :: "(string \<times> string) option"

record container_view =
  cv_container :: container
  cv_node_name :: "string option"
  cv_env :: "string list option"
  cv_cmd :: "string list option"
  cv_ports :: "port_mapping list option"
  cv_gpu_indices :: "u32 list option"
  cv_external_url :: "string option"

datatype body =
    BError string
  | BErrorHint string string
  | BErrorSaved string string "u32 list"
  | BOk
  | BCreated container string string string "u32 list option"
      \<comment> \<open>container, node id, node name, external URL, GPU indices\<close>
  | BNode node
  | BNodes "node_view list"
  | BRawContainers "container list"
  | BGpus "gpu_view list"
  | BContainer container_view
  | BContainers "container_view list"

record response =
  rp_code :: nat
  rp_body :: body

definition JSON :: "nat \<Rightarrow> body \<Rightarrow> response" where
  "JSON c b = \<lparr>rp_code = c, rp_body = b\<rparr>"

section \<open>Creating a container\<close>

record create_req =
  cq_Image :: string
  cq_Name :: string
  cq_Env :: "string list option"
  cq_Cmd :: "string list option"
  cq_VolumeBinds :: "string list option"
  cq_PortMappings :: "port_json list"
  cq_CPUCores :: f64
  cq_MemoryBytes :: u64
  cq_GPUCount :: u32
  cq_GPUIndices :: "u32 list"
  cq_NodeID :: string
  cq_Pull :: bool
  cq_ExternalPort :: u32

text \<open>The loop with the map \<open>seen\<close>: the first repeated index.\<close>

fun first_dup :: "u32 list \<Rightarrow> u32 list \<Rightarrow> u32 option" where
  "first_dup seen [] = None"
| "first_dup seen (i # is) = (if i \<in> set seen then Some i else first_dup (i # seen) is)"

text \<open>The checks on explicit indices; the request comes back with its \<open>GPUCount\<close> derived.\<close>

definition check_indices :: "create_req \<Rightarrow> string + create_req" where
  "check_indices req =
     (if cq_GPUIndices req = [] then Inr req
      else if cq_NodeID req = []
      then Inl ''gpu_indices requires node_id (pin a node when picking specific GPUs)''
      else
     (case first_dup [] (cq_GPUIndices req) of
        Some idx \<Rightarrow> Inl (''gpu_indices contains duplicate index '' @ itoa (unat idx))
      | None \<Rightarrow>
          if cq_GPUCount req \<noteq> 0 \<and> cq_GPUCount req \<noteq> of_nat (length (cq_GPUIndices req))
          then Inl (''gpu_count='' @ itoa (unat (cq_GPUCount req)) @
                 '' disagrees with gpu_indices length '' @ itoa (length (cq_GPUIndices req)))
          else Inr (req\<lparr>cq_GPUCount := of_nat (length (cq_GPUIndices req))\<rparr>)))"

fun out_of_range :: "nat \<Rightarrow> u32 \<Rightarrow> u32 list \<Rightarrow> (nat \<times> u32) option" where
  "out_of_range i tot [] = None"
| "out_of_range i tot (x # xs) = (if x \<ge> tot then Some (i, x) else out_of_range (Suc i) tot xs)"

definition pinned_node :: "create_req \<Rightarrow> sys \<Rightarrow> sys \<times> (response + node)" where
  "pinned_node req y =
     (case on_sys (GetNode (cq_NodeID req)) y of
        (y1, Inl e) \<Rightarrow> (y1, Inl (JSON 400 (BError ''node_id not found'')))
      | (y1, Inr n) \<Rightarrow>
     (case out_of_range 0 (n_GpuCount n) (cq_GPUIndices req) of
        Some (i, idx) \<Rightarrow> (y1, Inl (JSON 400 (BError (''gpu_indices['' @ itoa i @ '']='' @
            itoa (unat idx) @ '' is out of range; node '' @ n_ID n @ '' has '' @
            itoa (unat (n_GpuCount n)) @ '' GPUs''))))
      | None \<Rightarrow>
          if cq_GPUCount req > 0 \<and> cq_GPUIndices req = [] then
            (case on_sys GPUUsageByNode y1 of
               (y2, Inl e) \<Rightarrow> (y2, Inl (JSON 500 (BError (err_Error e))))
             | (y2, Inr used) \<Rightarrow>
                 (let free = SchedulerFreeGPUs n used in
                  if free < cq_GPUCount req
                  then (y2, Inl (JSON 409 (BError (''node '' @ n_ID n @ '' has '' @ itoa (unat free) @
                     '' free GPUs, '' @ itoa (unat (cq_GPUCount req)) @ '' requested''))))
                  else (y2, Inr n)))
          else (y1, Inr n)))"

definition select_node :: "create_req \<Rightarrow> sys \<Rightarrow> sys \<times> (response + node)" where
  "select_node req y =
     (case on_sys (Select \<lparr>rq_CPUCores = cq_CPUCores req, rq_MemoryBytes = cq_MemoryBytes req,
                           rq_GPUCount = cq_GPUCount req\<rparr>) y of
        (y1, Inl e) \<Rightarrow> (y1, Inl (JSON 409 (BErrorHint (select_Error e)
          ''no suitable node; relax resource requirements or wait for nodes to come online'')))
      | (y1, Inr n) \<Rightarrow> (y1, Inr n))"

definition pick_node :: "create_req \<Rightarrow> sys \<Rightarrow> sys \<times> (response + node)" where
  "pick_node req y = (if cq_NodeID req \<noteq> [] then pinned_node req y else select_node req y)"

definition container_name :: "env \<Rightarrow> create_req \<Rightarrow> string" where
  "container_name ev req =
     sanitizeContainerName (ev_rnd3 ev)
       (if trimSpace (cq_Name req) = [] then autoName (ev_rnd1 ev) (ev_rnd2 ev) (cq_Image req)
        else cq_Name req)"

text \<open>The external port: the requested one, or the allocator's (\<open>None\<close>: it does not return).\<close>

definition external_port ::
  "string \<Rightarrow> create_req \<Rightarrow> port_mapping list \<Rightarrow> sys \<Rightarrow> (sys \<times> (err + u32)) option" where
  "external_port cid req ports y =
     (if cq_ExternalPort req = 0 \<and> ports \<noteq> [] then
        map_option (\<lambda>(s, r). (y\<lparr>sy_mgr := (sy_mgr y)\<lparr>mg_store := s\<rparr>\<rparr>, r))
          (AllocPort 30000 32767 cid (sy_store y))
      else Some (y, Inr (cq_ExternalPort req)))"

definition new_container ::
  "string \<Rightarrow> string \<Rightarrow> create_req \<Rightarrow> port_mapping list \<Rightarrow> string \<Rightarrow> u32 \<Rightarrow> container" where
  "new_container cid nid req ports name ext =
     \<lparr>c_ID = cid, c_NodeID = nid, c_DockerID = [], c_Name = name, c_Image = cq_Image req,
      c_State = ''starting'', c_Status = ''starting'',
      c_EnvJSON = render (json_strings (cq_Env req)), c_CmdJSON = render (json_strings (cq_Cmd req)),
      c_PortsJSON = render (JArr (map json_port ports)),
      c_VolumeBinds = render (json_strings (cq_VolumeBinds req)),
      c_CPUCores = cq_CPUCores req, c_MemoryBytes = cq_MemoryBytes req, c_GPUCount = cq_GPUCount req,
      c_GPUIndicesJSON = [], c_ExternalPort = ext, c_CreatedAt = zero_time, c_UpdatedAt = zero_time\<rparr>"

definition is_conflict :: "err \<Rightarrow> bool" where
  "is_conflict e = (case e of ErrInsufficientGPUs _ _ _ \<Rightarrow> True | ErrGPUTaken _ _ \<Rightarrow> True | _ \<Rightarrow> False)"

text \<open>The reservation step; it returns the indices and the patched column.\<close>

definition reserve_gpus ::
  "gotime \<Rightarrow> string \<Rightarrow> node \<Rightarrow> create_req \<Rightarrow> sys \<Rightarrow> sys \<times> (response + u32 list \<times> string)" where
  "reserve_gpus now cid n req y =
     (if cq_GPUCount req = 0 then (y, Inr ([], []))
      else
     (case (if cq_GPUIndices req \<noteq> [] then
              (case on_sys (AllocSpecificGPUs now (n_ID n) cid (cq_GPUIndices req)) y of
                 (y1, Inl e) \<Rightarrow> (y1, Inl e)
               | (y1, Inr _) \<Rightarrow> (y1, Inr (cq_GPUIndices req)))
            else on_sys (AllocGPUs now (n_ID n) cid (int (unat (cq_GPUCount req))) (n_GpuCount n)) y) of
        (y1, Inl e) \<Rightarrow>
          (y1, Inl (JSON (if is_conflict e then 409 else 500) (BError (err_Error e))))
      | (y1, Inr idxs) \<Rightarrow>
          if idxs = [] then (y1, Inr ([], []))
          else
            (let j = render (JArr (map json_u32 idxs)) in
             case on_sys (UpdateContainerGPUIndices now cid j) y1 of
               (y2, Inl e) \<Rightarrow> (y2, Inl (JSON 500 (BError (''persist gpu indices: '' @ err_Error e))))
             | (y2, Inr _) \<Rightarrow> (y2, Inr (idxs, j)))))"

text \<open>The deferred cleanup of a create that was not handed off.\<close>

definition create_cleanup :: "bool \<Rightarrow> string \<Rightarrow> u32 \<Rightarrow> sys \<Rightarrow> sys" where
  "create_cleanup gpuAllocated cid ext y =
     (let y1 = (if gpuAllocated then do_sys (Store.FreeGPUs cid) y else y);
          y2 = do_sys (DeleteContainer cid) y1
      in if ext \<noteq> 0 then do_sys (FreePort ext) y2 else y2)"

definition opt_list :: "string list option \<Rightarrow> string list" where
  "opt_list x = (case x of None \<Rightarrow> [] | Some xs \<Rightarrow> xs)"

definition create_message ::
  "string \<Rightarrow> create_req \<Rightarrow> port_mapping list \<Rightarrow> string \<Rightarrow> u32 list \<Rightarrow> master_message" where
  "create_message cid req ports name idxs = MasterCreateContainer
     \<lparr>cr_container_id = cid, cr_image = cq_Image req, cr_env = opt_list (cq_Env req),
      cr_cmd = opt_list (cq_Cmd req), cr_volume_binds = opt_list (cq_VolumeBinds req),
      cr_ports = ports,
      cr_resources = Some \<lparr>sp_cpu_cores = cq_CPUCores req, sp_memory_bytes = cq_MemoryBytes req,
        sp_gpu_count = cq_GPUCount req, sp_gpu_device_ids = idxs\<rparr>,
      cr_name = name, cr_pull = cq_Pull req\<rparr>"

text \<open>From the reservation on: route and listener, command, cleanup on failure.\<close>

definition hand_off ::
  "env \<Rightarrow> create_req \<Rightarrow> node \<Rightarrow> session \<Rightarrow> port_mapping list \<Rightarrow> string \<Rightarrow> container \<Rightarrow> u32 list \<Rightarrow>
     sys \<Rightarrow> sys \<times> response" where
  "hand_off ev req n sess ports name cc idxs y =
     (let cid = c_ID cc; ext = c_ExternalPort cc;
          y1 = (if ext \<noteq> 0 \<and> ports \<noteq> []
                then register_and_bind (ev_listen ev) ext cid (n_ID n) (pm_host_port (hd ports)) y else y)
      in case sys_send sess (create_message cid req ports name idxs) y1 of
           (y2, Inl e) \<Rightarrow> (create_cleanup (cq_GPUCount req > 0) cid ext y2,
              JSON 500 (BError (''send create: '' @ err_Error e)))
         | (y2, Inr _) \<Rightarrow> (y2, JSON 200 (BCreated cc (n_ID n) (n_Name n)
              (externalURL (ev_host ev) ext) (if idxs \<noteq> [] then Some idxs else None))))"

text \<open>With node and session at hand: port, row, reservation, hand-off.\<close>

definition create_on ::
  "env \<Rightarrow> create_req \<Rightarrow> node \<Rightarrow> session \<Rightarrow> sys \<Rightarrow> (sys \<times> response) option" where
  "create_on ev req n sess y =
     (let cid = newContainerID (ev_id ev);
          name = container_name ev req;
          ports = portMappingsToProto (cq_PortMappings req)
      in case external_port cid req ports y of
           None \<Rightarrow> None
         | Some (y1, Inl e) \<Rightarrow> Some (y1, JSON 500 (BError (''alloc port: '' @ err_Error e)))
         | Some (y1, Inr ext) \<Rightarrow>
        (case on_sys (InsertContainer (ev_now ev) (new_container cid (n_ID n) req ports name ext)) y1 of
           (y2, Inl e) \<Rightarrow> Some (if ext \<noteq> 0 then do_sys (FreePort ext) y2 else y2,
              JSON 500 (BError (err_Error e)))
         | (y2, Inr cc) \<Rightarrow>
        (case reserve_gpus (ev_now ev) cid n req y2 of
           (y3, Inl rsp) \<Rightarrow> Some (y3, rsp)
         | (y3, Inr (idxs, j)) \<Rightarrow>
             Some (hand_off ev req n sess ports name (cc\<lparr>c_GPUIndicesJSON := j\<rparr>) idxs y3))))"

definition createContainer :: "env \<Rightarrow> err + create_req \<Rightarrow> sys \<Rightarrow> (sys \<times> response) option" where
  "createContainer ev bound y =
     (case bound of
        Inl e \<Rightarrow> Some (y, JSON 400 (BError (err_Error e)))
      | Inr req0 \<Rightarrow>
     (if cq_Image req0 = [] then Some (y, JSON 400 (BError ''image is required''))
      else
     (case check_indices req0 of
        Inl msg \<Rightarrow> Some (y, JSON 400 (BError msg))
      | Inr req \<Rightarrow>
     (case pick_node req y of
        (y1, Inl rsp) \<Rightarrow> Some (y1, rsp)
      | (y1, Inr n) \<Rightarrow>
     (case Get (n_ID n) (sy_mgr y1) of
        None \<Rightarrow> Some (y1, JSON 400 (BError ''target node not online''))
      | Some sess \<Rightarrow> create_on ev req n sess y1)))))"

section \<open>Delete, start, stop\<close>

definition sendStopCommand :: "container \<Rightarrow> bool \<Rightarrow> sys \<Rightarrow> sys \<times> (err + unit)" where
  "sendStopCommand cc remove y =
     (case Get (c_NodeID cc) (sy_mgr y) of
        None \<Rightarrow> (y, Inl (ErrMsg ''node offline''))
      | Some sess \<Rightarrow> sys_send sess (MasterStopContainer (c_ID cc) (c_DockerID cc) remove) y)"

definition unregister :: "u32 \<Rightarrow> sys \<Rightarrow> sys" where
  "unregister port y = y\<lparr>sy_proxy := fst (UnregisterRoute port (sy_proxy y))\<rparr>"

definition deleteContainer :: "string \<Rightarrow> sys \<Rightarrow> sys \<times> response" where
  "deleteContainer cid y =
     (case on_sys (GetContainer cid) y of
        (y1, Inl e) \<Rightarrow> (y1, JSON 404 (BError (err_Error e)))
      | (y1, Inr cc) \<Rightarrow>
     (case sendStopCommand cc True y1 of
        (y2, Inl e) \<Rightarrow> (y2, JSON 500 (BError (err_Error e)))
      | (y2, Inr _) \<Rightarrow>
     (let y3 = (if c_ExternalPort cc \<noteq> 0
                then do_sys (FreePort (c_ExternalPort cc)) (unregister (c_ExternalPort cc) y2) else y2);
          y4 = do_sys (Store.FreeGPUs cid) y3;
          y5 = do_sys (DeleteContainer cid) y4
      in (y5, JSON 200 BOk))))"

text \<open>The columns read back: a text that does not decode leaves the slice nil.\<close>

definition saved_indices :: "container \<Rightarrow> u32 list" where
  "saved_indices cc =
     (if c_GPUIndicesJSON cc = [] then []
      else case unmarshal decode_u32 (c_GPUIndicesJSON cc) of None \<Rightarrow> [] | Some xs \<Rightarrow> xs)"

definition first_host_port :: "container \<Rightarrow> u32" where
  "first_host_port cc =
     (if c_PortsJSON cc = [] then 0
      else case unmarshal decode_port (c_PortsJSON cc) of
             Some (p # _) \<Rightarrow> pm_host_port p
           | _ \<Rightarrow> 0)"

definition startContainer :: "env \<Rightarrow> string \<Rightarrow> sys \<Rightarrow> sys \<times> response" where
  "startContainer ev cid y =
     (case on_sys (GetContainer cid) y of
        (y1, Inl e) \<Rightarrow> (y1, JSON 404 (BError (err_Error e)))
      | (y1, Inr cc) \<Rightarrow>
     (case Get (c_NodeID cc) (sy_mgr y1) of
        None \<Rightarrow> (y1, JSON 400 (BError ''node offline''))
      | Some sess \<Rightarrow>
     (let saved = saved_indices cc in
      case (if saved \<noteq> [] then on_sys (AllocSpecificGPUs (ev_now ev) (c_NodeID cc) (c_ID cc) saved) y1
            else (y1, Inr ())) of
        (y2, Inl e) \<Rightarrow>
          (y2, case e of
             ErrGPUTaken _ _ \<Rightarrow> JSON 409 (BErrorSaved (err_Error e)
               ''delete this container and create a new one to get fresh GPU assignment'' saved)
           | _ \<Rightarrow> JSON 500 (BError (err_Error e)))
      | (y2, Inr _) \<Rightarrow>
     (let y3 = do_sys (UpdateContainerState (ev_now ev) (c_ID cc) (c_DockerID cc)
                 ''starting'' ''starting'') y2
      in case sys_send sess (MasterStartContainer (c_ID cc) (c_DockerID cc)) y3 of
           (y4, Inl e) \<Rightarrow>
             (let y5 = do_sys (UpdateContainerState (ev_now ev) (c_ID cc) (c_DockerID cc)
                         (c_State cc) (c_Status cc)) y4;
                  y6 = (if saved \<noteq> [] then do_sys (Store.FreeGPUs (c_ID cc)) y5 else y5)
              in (y6, JSON 500 (BError (err_Error e))))
         | (y4, Inr _) \<Rightarrow>
             (if c_ExternalPort cc \<noteq> 0
              then register_and_bind (ev_listen ev) (c_ExternalPort cc) (c_ID cc) (c_NodeID cc)
                     (first_host_port cc) y4
              else y4,
              JSON 200 BOk)))))"

definition stopContainer :: "env \<Rightarrow> string \<Rightarrow> sys \<Rightarrow> sys \<times> response" where
  "stopContainer ev cid y =
     (case on_sys (GetContainer cid) y of
        (y1, Inl e) \<Rightarrow> (y1, JSON 404 (BError (err_Error e)))
      | (y1, Inr cc) \<Rightarrow>
     (let y2 = do_sys (UpdateContainerState (ev_now ev) (c_ID cc) (c_DockerID cc)
                 ''stopping'' ''stopping'') y1
      in case sendStopCommand cc False y2 of
           (y3, Inl e) \<Rightarrow>
             (do_sys (UpdateContainerState (ev_now ev) (c_ID cc) (c_DockerID cc)
                (c_State cc) (c_Status cc)) y3, JSON 500 (BError (err_Error e)))
         | (y3, Inr _) \<Rightarrow>
             (let y4 = (if c_ExternalPort cc \<noteq> 0 then unregister (c_ExternalPort cc) y3 else y3)
              in (do_sys (Store.FreeGPUs (c_ID cc)) y4, JSON 200 BOk))))"

section \<open>Reading\<close>

fun decode_obj :: "json \<Rightarrow> json option" where
  "decode_obj (JObj kvs) = Some (JObj kvs)"
| "decode_obj JNull = Some JNull"
| "decode_obj _ = None"

definition json_column :: "(json \<Rightarrow> 'a option) \<Rightarrow> string \<Rightarrow> 'a list option" where
  "json_column dec s =
     (if s = [] then None else Some (case unmarshal dec s of None \<Rightarrow> [] | Some xs \<Rightarrow> xs))"

definition node_view_of :: "string list \<Rightarrow> (string \<times> u32) list \<Rightarrow> node \<Rightarrow> node_view" where
  "node_view_of online gpuUsed n =
     \<lparr>nv_node = (if n_ID n \<in> set online then n\<lparr>n_State := ''online''\<rparr> else n),
      nv_gpu_used = map_u32 gpuUsed (n_ID n),
      nv_gpu_free = freeGPUsForRow (n_GpuCount n) (map_u32 gpuUsed (n_ID n)),
      nv_disks = json_column decode_obj (n_DiskJSON n),
      nv_gpus = json_column decode_obj (n_GPUJSON n)\<rparr>"

definition listNodes :: "sys \<Rightarrow> sys \<times> response" where
  "listNodes y =
     (case on_sys ListNodes y of
        (y1, Inl e) \<Rightarrow> (y1, JSON 500 (BError (err_Error e)))
      | (y1, Inr nodes) \<Rightarrow>
     (case on_sys GPUUsageByNode y1 of
        (y2, r) \<Rightarrow>
          (let used = (case r of Inl e \<Rightarrow> [] | Inr u \<Rightarrow> u); online = Online (sy_mgr y2)
           in (y2, JSON 200 (BNodes (map (node_view_of online used) nodes))))))"

definition getNode :: "string \<Rightarrow> sys \<Rightarrow> sys \<times> response" where
  "getNode nid y =
     (case on_sys (GetNode nid) y of
        (y1, Inl e) \<Rightarrow> (y1, JSON 404 (BError (err_Error e)))
      | (y1, Inr n) \<Rightarrow> (y1, JSON 200 (BNode n)))"

definition listNodeContainers :: "string \<Rightarrow> sys \<Rightarrow> sys \<times> response" where
  "listNodeContainers nid y =
     (case on_sys ListContainers y of
        (y1, Inl e) \<Rightarrow> (y1, JSON 500 (BError (err_Error e)))
      | (y1, Inr cs) \<Rightarrow> (y1, JSON 200 (BRawContainers [c \<leftarrow> cs. c_NodeID c = nid])))"

record reported_gpu =
  rg_Index :: u32
  rg_Name :: string
  rg_UUID :: string
  rg_MemTotalBytes :: u64

fun decode_reported :: "json \<Rightarrow> reported_gpu option" where
  "decode_reported (JObj kvs) =
     (case (opt_field decode_u32 0 ''index'' kvs, opt_field decode_str [] ''name'' kvs,
            opt_field decode_str [] ''uuid'' kvs, opt_field decode_u64 0 ''mem_total_bytes'' kvs) of
        (Some i, Some nm, Some u, Some t) \<Rightarrow>
          Some \<lparr>rg_Index = i, rg_Name = nm, rg_UUID = u, rg_MemTotalBytes = t\<rparr>
      | _ \<Rightarrow> None)"
| "decode_reported JNull = Some \<lparr>rg_Index = 0, rg_Name = [], rg_UUID = [], rg_MemTotalBytes = 0\<rparr>"
| "decode_reported _ = None"

definition gpu_view_of :: "reported_gpu list \<Rightarrow> gpu_alloc list \<Rightarrow> u32 \<Rightarrow> gpu_view" where
  "gpu_view_of reported allocs i =
     \<lparr>gv_index = i,
      gv_reported = map_option (\<lambda>r. (rg_Name r, rg_UUID r, rg_MemTotalBytes r))
        (find (\<lambda>r. rg_Index r = i) reported),
      gv_held_by = map_option (\<lambda>a. (ga_ContainerID a, ga_ContainerName a))
        (map_of (rev (map (\<lambda>a. (ga_Index a, a)) allocs)) i)\<rparr>"

definition listNodeGPUs :: "string \<Rightarrow> sys \<Rightarrow> sys \<times> response" where
  "listNodeGPUs nid y =
     (case on_sys (GetNode nid) y of
        (y1, Inl e) \<Rightarrow> (y1, JSON 404 (BError (err_Error e)))
      | (y1, Inr n) \<Rightarrow>
     (let reported = (case json_column decode_reported (n_GPUJSON n) of None \<Rightarrow> [] | Some rs \<Rightarrow> rs) in
      case on_sys (ListGPUAllocsForNode nid) y1 of
        (y2, Inl e) \<Rightarrow> (y2, JSON 500 (BError (err_Error e)))
      | (y2, Inr allocs) \<Rightarrow>
          (y2, JSON 200 (BGpus (map (gpu_view_of reported allocs)
             (map of_nat [0..<unat (n_GpuCount n)]))))))"

definition url_of :: "env \<Rightarrow> container \<Rightarrow> string option" where
  "url_of ev cc = (if c_ExternalPort cc \<noteq> 0 then Some (externalURL (ev_host ev) (c_ExternalPort cc)) else None)"

definition indices_of :: "container \<Rightarrow> u32 list option" where
  "indices_of cc = (if c_GPUIndicesJSON cc = [] then None else unmarshal decode_u32 (c_GPUIndicesJSON cc))"

definition getContainer :: "env \<Rightarrow> string \<Rightarrow> sys \<Rightarrow> sys \<times> response" where
  "getContainer ev cid y =
     (case on_sys (GetContainer cid) y of
        (y1, Inl e) \<Rightarrow> (y1, JSON 404 (BError (err_Error e)))
      | (y1, Inr cc) \<Rightarrow> (y1, JSON 200 (BContainer
          \<lparr>cv_container = cc, cv_node_name = None, cv_env = None, cv_cmd = None, cv_ports = None,
           cv_gpu_indices = indices_of cc, cv_external_url = url_of ev cc\<rparr>)))"

definition container_view_of :: "env \<Rightarrow> node list \<Rightarrow> container \<Rightarrow> container_view" where
  "container_view_of ev nodes cc =
     \<lparr>cv_container = cc,
      cv_node_name = Some (case map_of (rev (map (\<lambda>n. (n_ID n, n_Name n)) nodes)) (c_NodeID cc) of
        None \<Rightarrow> [] | Some nm \<Rightarrow> nm),
      cv_env = json_column decode_str (c_EnvJSON cc), cv_cmd = json_column decode_str (c_CmdJSON cc),
      cv_ports = json_column decode_port (c_PortsJSON cc),
      cv_gpu_indices = indices_of cc, cv_external_url = url_of ev cc\<rparr>"

definition listContainers :: "env \<Rightarrow> sys \<Rightarrow> sys \<times> response" where
  "listContainers ev y =
     (case on_sys ListContainers y of
        (y1, Inl e) \<Rightarrow> (y1, JSON 500 (BError (err_Error e)))
      | (y1, Inr cs) \<Rightarrow>
     (case on_sys ListNodes y1 of
        (y2, r) \<Rightarrow>
          (let nodes = (case r of Inl e \<Rightarrow> [] | Inr ns \<Rightarrow> ns)
           in (y2, JSON 200 (BContainers (map (container_view_of ev nodes) cs))))))"

section \<open>Web sockets\<close>

record ws_metrics =
  wm_cpu_percent :: f64
  wm_cpu_cores :: u32
  wm_mem_used_bytes :: u64
  wm_mem_total_bytes :: u64
  wm_load1 :: f64
  wm_gpu_count :: u32
  wm_gpu_mem_used_bytes :: u64
  wm_gpu_mem_total_bytes :: u64
  wm_gpu_usage_percent :: f64

record ws_message =
  ws_node_id :: string
  ws_kind :: string
  ws_at :: gotime
  ws_metrics_of :: "ws_metrics option"

definition ws_message_of :: "node_update \<Rightarrow> ws_message" where
  "ws_message_of u =
     \<lparr>ws_node_id = nu_NodeID u, ws_kind = nu_Kind u, ws_at = nu_At u,
      ws_metrics_of = map_option (\<lambda>n.
        \<lparr>wm_cpu_percent = n_CPUPercent n, wm_cpu_cores = n_CPUCores n,
         wm_mem_used_bytes = n_MemUsedBytes n, wm_mem_total_bytes = n_MemTotalBytes n,
         wm_load1 = n_Load1 n, wm_gpu_count = n_GpuCount n, wm_gpu_mem_used_bytes = n_GpuMemUsed n,
         wm_gpu_mem_total_bytes = n_GpuMemTotal n, wm_gpu_usage_percent = n_GpuUsageAvg n\<rparr>)
        (nu_Snapshot u)\<rparr>"

text \<open>One turn of a socket's loop: it takes the oldest update and writes it to its client
  (\<open>None\<close>: the channel is empty and the loop waits).\<close>

definition websocket_turn :: "sys \<Rightarrow> sys \<times> ws_message option" where
  "websocket_turn y =
     (case mg_updates (sy_mgr y) of
        [] \<Rightarrow> (y, None)
      | u # us \<Rightarrow> (y\<lparr>sy_mgr := (sy_mgr y)\<lparr>mg_updates := us\<rparr>\<rparr>, Some (ws_message_of u)))"

end
