(* ===== verification/AgentMgr_Inv.thy ===== *)
theory AgentMgr_Inv
  imports AgentMgr
begin

text \<open>
  What the agent manager keeps: the two channels are instances of one bounded buffer that keeps
  the oldest entries, and every predicate on stores that the store operations of the handlers
  keep is kept by the handlers (\<open>agent_frame\<close>, with four instances).
\<close>

section \<open>Bounded channels\<close>

locale bounded_chan =
  fixes send :: "'a \<Rightarrow> 's \<Rightarrow> 's" and buf :: "'s \<Rightarrow> 'a list" and cap :: nat
  assumes send_buf: "buf (send x s) = (if length (buf s) < cap then buf s @ [x] else buf s)"
begin

lemma send_bound: "length (buf s) \<le> cap \<Longrightarrow> length (buf (send x s)) \<le> cap"
  by (simp add: send_buf)

lemma send_prefix: "prefix (buf s) (buf (send x s))"
  by (simp add: send_buf)

lemma sends:
  assumes "length (buf s) \<le> cap"
  shows "buf (fold send xs s) = buf s @ take (cap - length (buf s)) xs"
  using assms
proof (induction xs arbitrary: s)
  case (Cons x xs)
  show ?case
  proof (cases "length (buf s) < cap")
    case True
    with Cons.IH [of "send x s"] show ?thesis
      by (simp add: send_buf Suc_diff_Suc [symmetric] del: diff_Suc_Suc)
  next
    case False
    with Cons.IH [of "send x s"] Cons.prems show ?thesis by (simp add: send_buf)
  qed
qed simp

text \<open>A full channel loses the new entry, never an old one.\<close>

lemma send_full: "cap \<le> length (buf s) \<Longrightarrow> buf (send x s) = buf s"
  by (simp add: send_buf)

end

interpretation updates: bounded_chan publish mg_updates updates_cap
  by unfold_locales (simp add: publish_def)

interpretation sinkq: bounded_chan enqueueMetric mg_sinkCh sink_cap
  by unfold_locales (simp add: enqueueMetric_def)

section \<open>Fields\<close>

lemma on_store_fields [simp]:
  "mg_store (fst (on_store f m)) = fst (f (mg_store m))"
  "snd (on_store f m) = snd (f (mg_store m))"
  "mg_sessions (fst (on_store f m)) = mg_sessions m"
  "mg_updates (fst (on_store f m)) = mg_updates m"
  "mg_sinkCh (fst (on_store f m)) = mg_sinkCh m"
  "mg_closed (fst (on_store f m)) = mg_closed m"
  "mg_sent (fst (on_store f m)) = mg_sent m"
  "mg_broken (fst (on_store f m)) = mg_broken m"
  by (simp_all add: on_store_def split: prod.split)

lemma on_store_eq: "on_store f m = (m', r) \<Longrightarrow> m' = m\<lparr>mg_store := fst (f (mg_store m))\<rparr> \<and> r = snd (f (mg_store m))"
  by (auto simp: on_store_def split: prod.splits)

lemma publish_fields [simp]:
  "mg_store (publish u m) = mg_store m" "mg_sessions (publish u m) = mg_sessions m"
  "mg_closed (publish u m) = mg_closed m" "mg_sent (publish u m) = mg_sent m"
  "mg_sinkCh (publish u m) = mg_sinkCh m" "mg_broken (publish u m) = mg_broken m"
  by (simp_all add: publish_def)

lemma enqueueMetric_fields [simp]:
  "mg_store (enqueueMetric u m) = mg_store m" "mg_sessions (enqueueMetric u m) = mg_sessions m"
  "mg_closed (enqueueMetric u m) = mg_closed m" "mg_sent (enqueueMetric u m) = mg_sent m"
  "mg_updates (enqueueMetric u m) = mg_updates m" "mg_broken (enqueueMetric u m) = mg_broken m"
  by (simp_all add: enqueueMetric_def)

lemma close_fields [simp]:
  "mg_store (close s m) = mg_store m" "mg_sessions (close s m) = mg_sessions m"
  "mg_updates (close s m) = mg_updates m" "mg_sent (close s m) = mg_sent m"
  "mg_sinkCh (close s m) = mg_sinkCh m" "mg_broken (close s m) = mg_broken m"
  "set (mg_closed (close s m)) = insert (se_stream s) (set (mg_closed m))"
  by (auto simp: close_def)

lemma stream_send_fields [simp]:
  "mg_store (fst (stream_send st x m)) = mg_store m"
  "mg_sessions (fst (stream_send st x m)) = mg_sessions m"
  "mg_closed (fst (stream_send st x m)) = mg_closed m"
  "mg_updates (fst (stream_send st x m)) = mg_updates m"
  "mg_sinkCh (fst (stream_send st x m)) = mg_sinkCh m"
  "mg_broken (fst (stream_send st x m)) = mg_broken m"
  by (simp_all add: stream_send_def split: option.split)

section \<open>What the handlers keep\<close>

locale agent_frame =
  fixes P :: "store \<Rightarrow> bool"
  assumes by_machine: "P s \<Longrightarrow> P (fst (GetNodeByMachineID mid s))"
    and list_containers: "P s \<Longrightarrow> P (fst (ListContainers s))"
    and exists: "P s \<Longrightarrow> P (fst (ContainerExists cid s))"
    and upsert: "P s \<Longrightarrow> P (fst (UpsertNode now n s))"
    and node_state: "P s \<Longrightarrow> P (fst (UpdateNodeState now nid st s))"
    and node_metrics: "P s \<Longrightarrow> P (fst (UpdateNodeMetrics now n s))"
    and container_state: "P s \<Longrightarrow> P (fst (UpdateContainerState now cid d st u s))"
    and free_gpus: "P s \<Longrightarrow> P (fst (FreeGPUs cid s))"
begin

lemmas store_ops = upsert node_state node_metrics container_state free_gpus

lemmas queries = by_machine list_containers exists

lemma on_store_keeps:
  "on_store f m = (m', r) \<Longrightarrow> P (mg_store m) \<Longrightarrow> (\<And>s. P s \<Longrightarrow> P (fst (f s))) \<Longrightarrow> P (mg_store m')"
  by (auto dest: on_store_eq)

lemma stream_send_keeps: "stream_send st x m = (m', r) \<Longrightarrow> mg_store m' = mg_store m"
  by (metis fst_conv stream_send_fields(1))

lemma resolveNodeID_keeps:
  "P (mg_store m) \<Longrightarrow> resolveNodeID now rnd reg m = (m', r) \<Longrightarrow> P (mg_store m')"
  unfolding resolveNodeID_def
  by (auto split: if_splits prod.splits sum.splits
      dest!: on_store_keeps intro: queries upsert)

lemma OnAgentConnect_keeps:
  assumes "P (mg_store m)" and "OnAgentConnect now rnd peer st first m = (m', r)"
  shows "P (mg_store m')"
proof -
  define m1 where "m1 reg = fst (resolveNodeID now rnd reg m)" for reg
  define r1 where "r1 reg = snd (resolveNodeID now rnd reg m)" for reg
  have r1: "resolveNodeID now rnd reg m = (m1 reg, r1 reg)" for reg
    by (simp add: m1_def r1_def)
  have m1: "P (mg_store (m1 reg))" for reg using resolveNodeID_keeps [OF assms(1) r1] .
  show ?thesis
    using assms m1
    by (auto simp: OnAgentConnect_def Let_def r1 split: sum.splits option.splits prod.splits
        dest!: on_store_keeps stream_send_keeps intro: node_state)
qed

lemma handleMetrics_keeps: "P (mg_store m) \<Longrightarrow> P (mg_store (handleMetrics now s r m))"
  by (auto simp: handleMetrics_def Let_def split: prod.split sum.split
      dest!: on_store_keeps intro: node_metrics)

lemma handleIncoming_keeps: "P (mg_store m) \<Longrightarrow> P (mg_store (handleIncoming now s x m))"
proof (cases x)
  case (AgentContainerStateChanged c)
  assume "P (mg_store m)"
  with AgentContainerStateChanged show ?thesis
    by (auto simp: handleContainerStateChanged_def Let_def split: prod.split sum.split bool.split
        dest!: on_store_keeps intro: queries store_ops)
qed (simp_all add: handleMetrics_keeps handleContainerCreated_def handleContainerStopped_def
    handleContainerStarted_def Let_def store_ops)

lemma revert_loop_keeps: "P (mg_store m) \<Longrightarrow> P (mg_store (revert_loop now nid status cs m))"
  by (induction cs arbitrary: m) (simp_all add: store_ops)

lemma handleDisconnect_keeps: "P (mg_store m) \<Longrightarrow> P (mg_store (handleDisconnect now nid e m))"
  by (auto simp: handleDisconnect_def revertTransientOnDisconnect_def Let_def store_ops
      split: option.split prod.split sum.split dest!: on_store_keeps intro: queries revert_loop_keeps)

lemma fold_incoming_keeps:
  "P (mg_store m) \<Longrightarrow> P (mg_store (fold (handleIncoming now s) msgs m))"
  by (induction msgs arbitrary: m) (simp_all add: handleIncoming_keeps)

lemma Connect_keeps:
  "P (mg_store m) \<Longrightarrow> P (mg_store (fst (Connect now rnd peer st first msgs e m)))"
  by (auto simp: Connect_def HandleMessages_def split: prod.split sum.split option.split
      intro: OnAgentConnect_keeps handleDisconnect_keeps fold_incoming_keeps)

end

lemmas agent_queries = GetNodeByMachineID_def ListContainers_def ContainerExists_def

interpretation agent_integrity: agent_frame integrity
  by unfold_locales (simp_all add: store_inv agent_queries)

text \<open>Agents never add a container or a port, and never take a GPU.\<close>

lemma frame_exec:
  "(\<And>t. f t = (fst (f t), snd (f t)) \<Longrightarrow> g (fst (f t)) = g t) \<Longrightarrow> (\<And>t fs. g (t\<lparr>st_faults := fs\<rparr>) = g t) \<Longrightarrow>
     g (fst (exec f s)) = g s"
proof -
  assume f: "\<And>t. f t = (fst (f t), snd (f t)) \<Longrightarrow> g (fst (f t)) = g t"
    and g: "\<And>t fs. g (t\<lparr>st_faults := fs\<rparr>) = g t"
  obtain s' r where e: "exec f s = (s', r)" by force
  then show ?thesis
  proof (cases rule: exec_cases)
    case (ok fs)
    with e f [of "s\<lparr>st_faults := fs\<rparr>"] g show ?thesis by simp
  next
    case (fault fs m)
    with e g show ?thesis by simp
  qed
qed

lemma container_ids_ops [store_frame]:
  "container_ids (fst (query f s)) = container_ids s"
  "container_ids (fst (UpsertNode now n s)) = container_ids s"
  "container_ids (fst (UpdateNodeState now nid st s)) = container_ids s"
  "container_ids (fst (UpdateNodeMetrics now n s)) = container_ids s"
  "container_ids (fst (UpdateContainerState now cid d st u s)) = container_ids s"
  "container_ids (fst (FreeGPUs cid s)) = container_ids s"
  by (auto simp: container_ids_def query_def UpsertNode_def UpdateNodeState_def UpdateNodeMetrics_def
      UpdateContainerState_def FreeGPUs_def update_container_def Let_def map_update_same
      simp del: map_map intro!: frame_exec)

lemma ports_ops [store_frame]:
  "st_ports (fst (query f s)) = st_ports s"
  "st_ports (fst (UpsertNode now n s)) = st_ports s"
  "st_ports (fst (UpdateNodeState now nid st s)) = st_ports s"
  "st_ports (fst (UpdateNodeMetrics now n s)) = st_ports s"
  "st_ports (fst (UpdateContainerState now cid d st u s)) = st_ports s"
  "st_ports (fst (FreeGPUs cid s)) = st_ports s"
  by (auto simp: query_def UpsertNode_def UpdateNodeState_def UpdateNodeMetrics_def
      UpdateContainerState_def FreeGPUs_def update_container_def Let_def intro!: frame_exec)

lemma gpus_ops [store_frame]:
  "st_gpus (fst (query f s)) = st_gpus s"
  "st_gpus (fst (UpsertNode now n s)) = st_gpus s"
  "st_gpus (fst (UpdateNodeState now nid st s)) = st_gpus s"
  "st_gpus (fst (UpdateNodeMetrics now n s)) = st_gpus s"
  "st_gpus (fst (UpdateContainerState now cid d st u s)) = st_gpus s"
  by (auto simp: query_def UpsertNode_def UpdateNodeState_def UpdateNodeMetrics_def
      UpdateContainerState_def update_container_def Let_def intro!: frame_exec)

lemma gpus_free: "set (st_gpus (fst (FreeGPUs cid s))) \<subseteq> set (st_gpus s)"
proof -
  obtain s' r where "FreeGPUs cid s = (s', r)" by force
  then show ?thesis using FreeGPUs_cases [of cid s s' r] by (auto simp: tables_eq_iff)
qed

interpretation agent_containers: agent_frame "\<lambda>s. container_ids s = C"
  by unfold_locales (simp_all add: store_frame agent_queries)

interpretation agent_ports: agent_frame "\<lambda>s. st_ports s = Q"
  by unfold_locales (simp_all add: store_frame agent_queries)

interpretation agent_gpus: agent_frame "\<lambda>s. set (st_gpus s) \<subseteq> G"
  by unfold_locales (auto simp: store_frame agent_queries dest: subsetD [OF gpus_free])

end
