(* ===== verification/Store_Healthy.thy ===== *)
theory Store_Healthy
  imports Store_Alloc
begin

text \<open>
  The operations of the store when the driver does not fail: a store is \<open>healthy\<close> when the script
  of failures is empty, the schema's constraints hold and no row holds a NaN (which could not be
  scanned). Every operation is then a plain function of the tables.
\<close>

definition scannable :: "store \<Rightarrow> bool" where
  "scannable s \<longleftrightarrow> (\<forall>n \<in> set (st_nodes s). scanNode n = Inr n) \<and>
     (\<forall>c \<in> set (st_containers s). scanContainer c = Inr c)"

definition healthy :: "store \<Rightarrow> bool" where
  "healthy s \<longleftrightarrow> st_faults s = [] \<and> integrity s \<and> scannable s"

lemma healthyD:
  "healthy s \<Longrightarrow> st_faults s = []" "healthy s \<Longrightarrow> integrity s" "healthy s \<Longrightarrow> scannable s"
  by (simp_all add: healthy_def)

lemma healthy_schema: "healthy schema"
  by (simp add: healthy_def integrity_schema scannable_def) (simp add: schema_def)

section \<open>Queries\<close>

lemma first_row_filter:
  assumes "\<And>r. r \<in> set rows \<Longrightarrow> scan r = Inr r"
  shows "first_row scan [r \<leftarrow> rows. p r] = (case find p rows of None \<Rightarrow> Inl ErrNoRows | Some r \<Rightarrow> Inr r)"
  using assms by (induction rows) (auto simp: first_row_def)

lemma scan_all_same: "(\<And>x. x \<in> set xs \<Longrightarrow> f x = Inr x) \<Longrightarrow> scan_all f xs = Inr xs"
  using scan_all_total [of xs f id] by simp

lemma healthy_queries:
  assumes "healthy s"
  shows "GetNode nid s = (s, case find (\<lambda>r. n_ID r = nid) (st_nodes s) of
            None \<Rightarrow> Inl ErrNoRows | Some r \<Rightarrow> Inr r)"
    and "GetContainer cid s = (s, case find (\<lambda>r. c_ID r = cid) (st_containers s) of
            None \<Rightarrow> Inl ErrNoRows | Some r \<Rightarrow> Inr r)"
    and "mid \<noteq> [] \<Longrightarrow> GetNodeByMachineID mid s = (s, case find (\<lambda>r. n_MachineID r = mid) (st_nodes s) of
            None \<Rightarrow> Inl ErrNoRows | Some r \<Rightarrow> Inr r)"
    and "ListNodes s = (s, Inr (sort_key (\<lambda>r. - n_RegisteredAt r) (st_nodes s)))"
    and "ListContainers s = (s, Inr (sort_key (\<lambda>r. - c_CreatedAt r) (st_containers s)))"
    and "ContainerExists cid s = (s, Inr (cid \<in> c_ID ` set (st_containers s)))"
  using assms
  by (auto simp: GetNode_def GetContainer_def GetNodeByMachineID_def ListNodes_def ListContainers_def
      ContainerExists_def query_no_faults healthy_def scannable_def first_row_filter intro!: scan_all_same)

text \<open>The row of an id.\<close>

definition row :: "store \<Rightarrow> string \<Rightarrow> container option" where
  "row s cid = find (\<lambda>r. c_ID r = cid) (st_containers s)"

definition node_row :: "store \<Rightarrow> string \<Rightarrow> node option" where
  "node_row s nid = find (\<lambda>r. n_ID r = nid) (st_nodes s)"

lemma row_Some_iff:
  assumes "integrity s"
  shows "row s cid = Some c \<longleftrightarrow> c \<in> set (st_containers s) \<and> c_ID c = cid"
proof -
  have d: "distinct (map c_ID (st_containers s))" using assms by (simp add: integrity_defs)
  show ?thesis
  proof
    assume "row s cid = Some c"
    then show "c \<in> set (st_containers s) \<and> c_ID c = cid" by (auto simp: row_def dest: find_SomeD)
  next
    assume "c \<in> set (st_containers s) \<and> c_ID c = cid"
    then show "row s cid = Some c" using find_unique [OF d, of c] by (simp add: row_def)
  qed
qed

lemma row_None_iff: "row s cid = None \<longleftrightarrow> cid \<notin> c_ID ` set (st_containers s)"
  by (auto simp: row_def find_None_iff)

lemma node_row_Some_iff:
  assumes "integrity s"
  shows "node_row s nid = Some n \<longleftrightarrow> n \<in> set (st_nodes s) \<and> n_ID n = nid"
proof -
  have d: "distinct (map n_ID (st_nodes s))" using assms by (simp add: integrity_defs)
  show ?thesis
  proof
    assume "node_row s nid = Some n"
    then show "n \<in> set (st_nodes s) \<and> n_ID n = nid" by (auto simp: node_row_def dest: find_SomeD)
  next
    assume "n \<in> set (st_nodes s) \<and> n_ID n = nid"
    then show "node_row s nid = Some n" using find_unique [OF d, of n] by (simp add: node_row_def)
  qed
qed

lemma node_row_None_iff: "node_row s nid = None \<longleftrightarrow> nid \<notin> n_ID ` set (st_nodes s)"
  by (auto simp: node_row_def find_None_iff)

section \<open>Updates\<close>

definition set_state :: "gotime \<Rightarrow> string \<Rightarrow> string \<Rightarrow> string \<Rightarrow> container \<Rightarrow> container" where
  "set_state now dockerID state status r = r\<lparr>c_DockerID := (if dockerID = [] then c_DockerID r else dockerID),
     c_State := state, c_Status := status, c_UpdatedAt := now\<rparr>"

definition free_gpus :: "string \<Rightarrow> store \<Rightarrow> store" where
  "free_gpus cid s = s\<lparr>st_gpus := [g \<leftarrow> st_gpus s. g_container g \<noteq> cid]\<rparr>"

definition set_node_state :: "gotime \<Rightarrow> string \<Rightarrow> string \<Rightarrow> store \<Rightarrow> store" where
  "set_node_state now nid state s = s\<lparr>st_nodes := map (\<lambda>r. if n_ID r = nid
     then r\<lparr>n_State := state, n_LastHeartbeat := now\<rparr> else r) (st_nodes s)\<rparr>"

lemma no_fault_updates:
  assumes "st_faults s = []"
  shows "UpdateContainerState now cid d st u s = (update_container cid (set_state now d st u) s, Inr ())"
    and "FreeGPUs cid s = (free_gpus cid s, Inr ())"
    and "FreePort p s = (s\<lparr>st_ports := [r \<leftarrow> st_ports s. p_port r \<noteq> p]\<rparr>, Inr ())"
    and "DeleteContainer cid s = (s\<lparr>st_containers := [r \<leftarrow> st_containers s. c_ID r \<noteq> cid],
           st_gpus := [g \<leftarrow> st_gpus s. g_container g \<noteq> cid]\<rparr>, Inr ())"
    and "UpdateNodeState now nid st s = (set_node_state now nid st s, Inr ())"
    and "UpdateContainerGPUIndices now cid j s =
           (update_container cid (\<lambda>r. r\<lparr>c_GPUIndicesJSON := j, c_UpdatedAt := now\<rparr>) s, Inr ())"
  using assms
  by (simp_all add: UpdateContainerState_def FreeGPUs_def FreePort_def DeleteContainer_def
      UpdateNodeState_def UpdateContainerGPUIndices_def exec_no_faults set_state_def [abs_def]
      free_gpus_def set_node_state_def)

lemma set_state_fields [simp]:
  "c_ID (set_state now d st u r) = c_ID r" "c_NodeID (set_state now d st u r) = c_NodeID r"
  "c_State (set_state now d st u r) = st" "c_Status (set_state now d st u r) = u"
  "c_CPUCores (set_state now d st u r) = c_CPUCores r"
  "c_ExternalPort (set_state now d st u r) = c_ExternalPort r"
  "c_PortsJSON (set_state now d st u r) = c_PortsJSON r"
  "c_GPUIndicesJSON (set_state now d st u r) = c_GPUIndicesJSON r"
  by (simp_all add: set_state_def)

lemma find_map_update:
  assumes "\<And>r. key (f r) = key r"
  shows "find (\<lambda>r. key r = k) (map (\<lambda>r. if key r = k' then f r else r) rows) =
    map_option (\<lambda>r. if k = k' then f r else r) (find (\<lambda>r. key r = k) rows)"
  using assms by (induction rows) auto

lemma find_filter_key:
  "find (\<lambda>r. key r = k) [r \<leftarrow> rows. key r \<noteq> k'] = (if k = k' then None else find (\<lambda>r. key r = k) rows)"
  by (induction rows) auto

lemma row_update:
  assumes "\<And>r. c_ID (f r) = c_ID r"
  shows "row (update_container cid' f s) cid = map_option (\<lambda>r. if cid = cid' then f r else r) (row s cid)"
  using assms by (simp add: row_def update_container_def find_map_update)

lemma update_container_tables [simp]:
  "st_nodes (update_container cid f s) = st_nodes s" "st_gpus (update_container cid f s) = st_gpus s"
  "st_ports (update_container cid f s) = st_ports s" "st_faults (update_container cid f s) = st_faults s"
  by (simp_all add: update_container_def)

lemma free_gpus_tables [simp]:
  "st_nodes (free_gpus cid s) = st_nodes s" "st_containers (free_gpus cid s) = st_containers s"
  "st_ports (free_gpus cid s) = st_ports s" "st_faults (free_gpus cid s) = st_faults s"
  "st_gpus (free_gpus cid s) = [g \<leftarrow> st_gpus s. g_container g \<noteq> cid]"
  by (simp_all add: free_gpus_def)

lemma set_node_state_tables [simp]:
  "st_containers (set_node_state now nid st s) = st_containers s"
  "st_gpus (set_node_state now nid st s) = st_gpus s"
  "st_ports (set_node_state now nid st s) = st_ports s"
  "st_faults (set_node_state now nid st s) = st_faults s"
  by (simp_all add: set_node_state_def)

lemma row_frames [simp]:
  "row (free_gpus cid' s) cid = row s cid"
  "row (set_node_state now nid st s) cid = row s cid"
  by (simp_all add: row_def)

lemma node_row_set_state:
  "node_row (set_node_state now nid' st s) nid =
     map_option (\<lambda>r. if nid = nid' then r\<lparr>n_State := st, n_LastHeartbeat := now\<rparr> else r) (node_row s nid)"
  by (simp add: node_row_def set_node_state_def find_map_update)

lemma holder_frames [simp]:
  "holder (update_container cid f s) = holder s" "holder (set_node_state now nid st s) = holder s"
  by (simp_all add: holder_def)

lemma holder_free_gpus:
  "integrity s \<Longrightarrow> holder (free_gpus cid s) = (\<lambda>k. if holder s k = Some cid then None else holder s k)"
  unfolding free_gpus_def by (rule holder_free)

text \<open>The plain functions keep a store healthy.\<close>

lemma healthy_update_container:
  assumes "healthy s" and "\<And>r. c_ID (f r) = c_ID r" "\<And>r. c_NodeID (f r) = c_NodeID r"
    and "\<And>r. c_CPUCores (f r) = c_CPUCores r"
  shows "healthy (update_container cid f s)"
  using assms integrity_update_container [of s f cid]
  by (auto simp: healthy_def scannable_def update_container_def scanContainer_def split: if_splits)

lemma healthy_set_state [intro]: "healthy s \<Longrightarrow> healthy (update_container cid (set_state now d st u) s)"
  by (rule healthy_update_container) simp_all

lemma healthy_free_gpus [intro]: "healthy s \<Longrightarrow> healthy (free_gpus cid s)"
  using integrity_FreeGPUs [of s cid] by (simp add: healthy_def no_fault_updates scannable_def)

lemma healthy_set_node_state [intro]: "healthy s \<Longrightarrow> healthy (set_node_state now nid st s)"
  using integrity_UpdateNodeState [of s now nid st]
  by (auto simp: healthy_def no_fault_updates scannable_def scanNode_def set_node_state_def split: if_splits)

end
