(* ===== verification/AgentMgr_Thms.thy ===== *)
theory AgentMgr_Thms
  imports AgentMgr_Inv Store_Healthy
begin

text \<open>
  What the agent manager guarantees: registration, connection and disconnection, the handlers of
  the agents' messages, the metrics path.
\<close>

section \<open>Registration\<close>

lemma UpsertNode_existing:
  assumes "st_faults s = []" and "integrity s" and "n \<in> set (st_nodes s)"
    and "n_ID n' = n_ID n" "n_MachineID n' = n_MachineID n" "\<not> is_zero (n_RegisteredAt n')"
  shows "UpsertNode now n' s = (s\<lparr>st_nodes := map (\<lambda>r. if n_ID r = n_ID n then
      r\<lparr>n_MachineID := n_MachineID n, n_Name := n_Name n', n_Hostname := n_Hostname n',
        n_OS := n_OS n', n_Arch := n_Arch n', n_AgentVersion := n_AgentVersion n',
        n_State := n_State n', n_LastHeartbeat := n_LastHeartbeat n'\<rparr> else r) (st_nodes s)\<rparr>, Inr ())"
proof -
  have "r = n" if "r \<in> set (st_nodes s)" "n_MachineID r = n_MachineID n" "n_MachineID n \<noteq> []" for r
  proof -
    have "distinct [m \<leftarrow> map n_MachineID (st_nodes s). m \<noteq> []]"
      using assms(2) by (simp add: integrity_defs)
    then have "distinct (map n_MachineID [r \<leftarrow> st_nodes s. n_MachineID r \<noteq> []])"
      by (simp add: filter_map comp_def)
    with that assms(3) show ?thesis by (auto simp: distinct_map inj_on_def)
  qed
  then have "\<not> node_taken n' (st_nodes s)" using assms(4,5) by (auto simp: node_taken_def)
  with assms show ?thesis by (simp add: UpsertNode_def exec_no_faults)
qed

lemma UpsertNode_new:
  assumes "st_faults s = []" and "\<not> node_taken n (st_nodes s)" "n_ID n \<notin> n_ID ` set (st_nodes s)"
    and "\<not> is_zero (n_RegisteredAt n)"
  shows "UpsertNode now n s = (s\<lparr>st_nodes := st_nodes s @
      [zero_node\<lparr>n_ID := n_ID n, n_MachineID := n_MachineID n, n_Name := n_Name n,
         n_Hostname := n_Hostname n, n_OS := n_OS n, n_Arch := n_Arch n,
         n_AgentVersion := n_AgentVersion n, n_State := n_State n,
         n_LastHeartbeat := n_LastHeartbeat n, n_RegisteredAt := n_RegisteredAt n\<rparr>]\<rparr>, Inr ())"
  using assms by (simp add: UpsertNode_def exec_no_faults)

definition refreshed :: "gotime \<Rightarrow> register_request \<Rightarrow> node \<Rightarrow> node" where
  "refreshed now reg r = r\<lparr>n_Name := rr_name reg, n_Hostname := rr_hostname reg, n_OS := rr_os reg,
     n_Arch := rr_arch reg, n_AgentVersion := rr_agent_version reg, n_State := ''online'',
     n_LastHeartbeat := now\<rparr>"

definition new_node :: "gotime \<Rightarrow> string \<Rightarrow> register_request \<Rightarrow> node" where
  "new_node now nid reg = zero_node\<lparr>n_ID := nid, n_MachineID := rr_machine_id reg, n_Name := rr_name reg,
     n_Hostname := rr_hostname reg, n_OS := rr_os reg, n_Arch := rr_arch reg,
     n_AgentVersion := rr_agent_version reg, n_State := ''online'', n_LastHeartbeat := now,
     n_RegisteredAt := now\<rparr>"

lemma map_cong_update:
  "(\<And>r. r \<in> set xs \<Longrightarrow> p r \<Longrightarrow> f r = g r) \<Longrightarrow>
     map (\<lambda>r. if p r then f r else r) xs = map (\<lambda>r. if p r then g r else r) xs"
  by auto

lemma resolveNodeID_known:
  assumes "healthy (mg_store m)" and "n \<in> set (st_nodes (mg_store m))"
    and "n_MachineID n = rr_machine_id reg" "rr_machine_id reg \<noteq> []" "\<not> is_zero (n_RegisteredAt n)"
  shows "resolveNodeID now rnd reg m = (m\<lparr>mg_store := (mg_store m)\<lparr>st_nodes :=
      map (\<lambda>r. if n_ID r = n_ID n then refreshed now reg r else r) (st_nodes (mg_store m))\<rparr>\<rparr>, Inr (n_ID n))"
proof -
  let ?s = "mg_store m"
  have int: "integrity ?s" and nf: "st_faults ?s = []" using assms(1) by (auto dest: healthyD)
  have "distinct (map n_MachineID [r \<leftarrow> st_nodes ?s. n_MachineID r \<noteq> []])"
    using int by (simp add: integrity_defs filter_map comp_def)
  then have one: "r = n" if "r \<in> set (st_nodes ?s)" "n_MachineID r = rr_machine_id reg" for r
    using that assms(2-4) by (auto simp: distinct_map inj_on_def)
  have "find (\<lambda>r. n_MachineID r = rr_machine_id reg) (st_nodes ?s) = Some n"
    using assms(2,3) one by (rule find_first_unique)
  then have q: "on_store (GetNodeByMachineID (rr_machine_id reg)) m = (m, Inr n)"
    using healthy_queries(3) [OF assms(1,4)] by (simp add: on_store_def)
  have id: "n_MachineID r = n_MachineID n" if "r \<in> set (st_nodes ?s)" "n_ID r = n_ID n" for r
  proof -
    have "distinct (map n_ID (st_nodes ?s))" using int by (simp add: integrity_defs)
    with that assms(2) show ?thesis by (auto simp: distinct_map dest: inj_onD)
  qed
  have "UpsertNode now (refreshed now reg n) ?s = (?s\<lparr>st_nodes :=
      map (\<lambda>r. if n_ID r = n_ID n then refreshed now reg r else r) (st_nodes ?s)\<rparr>, Inr ())"
    using assms(5)
    by (subst UpsertNode_existing [OF nf int assms(2)])
      (auto simp: refreshed_def id simp flip: id intro!: map_cong_update)
  then have "on_store (UpsertNode now (refreshed now reg n)) m = (m\<lparr>mg_store := ?s\<lparr>st_nodes :=
      map (\<lambda>r. if n_ID r = n_ID n then refreshed now reg r else r) (st_nodes ?s)\<rparr>\<rparr>, Inr ())"
    by (simp add: on_store_def)
  then show ?thesis
    using assms(4) q by (simp add: resolveNodeID_def refreshed_def)
qed

lemma resolveNodeID_new:
  assumes "healthy (mg_store m)" and "rr_machine_id reg \<notin> n_MachineID ` set (st_nodes (mg_store m))"
    and "rr_machine_id reg \<noteq> []" and "hex_encode b \<notin> set (node_ids (mg_store m))" and "\<not> is_zero now"
  shows "resolveNodeID now (Inr b) reg m = (m\<lparr>mg_store := (mg_store m)\<lparr>st_nodes :=
      st_nodes (mg_store m) @ [new_node now (hex_encode b) reg]\<rparr>\<rparr>, Inr (hex_encode b))"
proof -
  let ?s = "mg_store m"
  have nf: "st_faults ?s = []" using assms(1) by (auto dest: healthyD)
  have "find (\<lambda>r. n_MachineID r = rr_machine_id reg) (st_nodes ?s) = None"
    using assms(2) unfolding find_None_iff by (metis imageI)
  then have q: "on_store (GetNodeByMachineID (rr_machine_id reg)) m = (m, Inl ErrNoRows)"
    using healthy_queries(3) [OF assms(1,3)] by (simp add: on_store_def)
  let ?n = "new_node now (hex_encode b) reg"
  have fields: "n_ID ?n = hex_encode b" "n_MachineID ?n = rr_machine_id reg" "n_RegisteredAt ?n = now"
    by (simp_all add: new_node_def)
  have "\<not> node_taken ?n (st_nodes ?s)" "n_ID ?n \<notin> n_ID ` set (st_nodes ?s)"
    using assms(2,4) by (auto simp: node_taken_def node_ids_def fields dest: sym [of _ "rr_machine_id reg"])
  from UpsertNode_new [OF nf this, of now] assms(5)
  have "UpsertNode now ?n ?s = (?s\<lparr>st_nodes := st_nodes ?s @ [?n]\<rparr>, Inr ())"
    by (simp only: fields) (simp add: new_node_def)
  then have u: "on_store (UpsertNode now ?n) m = (m\<lparr>mg_store := ?s\<lparr>st_nodes := st_nodes ?s @ [?n]\<rparr>\<rparr>, Inr ())"
    by (simp add: on_store_def)
  show ?thesis
    using assms(3) q u [unfolded new_node_def] by (simp add: resolveNodeID_def randomID_def new_node_def)
qed

section \<open>Connection\<close>

lemma stream_send_Inr:
  "stream_send st x m = (m', Inr u) \<Longrightarrow> m' = m\<lparr>mg_sent := mg_sent m @ [(st, x)]\<rparr> \<and> map_of (mg_broken m) st = None"
  by (auto simp: stream_send_def split: option.splits)

lemma resolveNodeID_fields:
  assumes "resolveNodeID now rnd reg m = (m', r)"
  shows "mg_sessions m' = mg_sessions m" "mg_sent m' = mg_sent m" "mg_closed m' = mg_closed m"
    "mg_broken m' = mg_broken m"
  using assms unfolding resolveNodeID_def
  by (auto split: if_splits prod.splits sum.splits dest!: on_store_eq)

lemma OnAgentConnect_Inr:
  assumes "OnAgentConnect now rnd peer st first m = (m', Inr (sess, nid))"
  obtains reg where "first = Inr (AgentRegister reg)"
    "sess = newSession nid (rr_name reg) st (remoteHostFromContext peer)"
    "mg_sessions m' = AList.update nid sess (mg_sessions m)"
    "mg_sent m' = mg_sent m @ [(st, MasterRegisterResp \<lparr>rs_node_id = nid, rs_ok = True, rs_error = [],
        rs_metrics_interval_sec = 5\<rparr>)]"
    "\<And>old. map_of (mg_sessions m) nid = Some old \<Longrightarrow> se_stream old \<in> set (mg_closed m')"
proof -
  from assms obtain msg reg where f: "first = Inr msg" "GetRegister msg = Some reg"
    by (auto simp: OnAgentConnect_def split: sum.splits option.splits)
  then have reg: "first = Inr (AgentRegister reg)" by (cases msg) auto
  obtain m1 r1 where r: "resolveNodeID now rnd reg m = (m1, r1)" by force
  with assms reg obtain nid' where r1: "r1 = Inr nid'"
    by (auto simp: OnAgentConnect_def split: sum.splits)
  let ?sess = "newSession nid' (rr_name reg) st (remoteHostFromContext peer)"
  let ?m2 = "case map_of (mg_sessions m1) nid' of None \<Rightarrow> m1 | Some old \<Rightarrow> close old m1"
  let ?m3 = "?m2\<lparr>mg_sessions := AList.update nid' ?sess (mg_sessions ?m2)\<rparr>"
  let ?x = "MasterRegisterResp \<lparr>rs_node_id = nid', rs_ok = True, rs_error = [], rs_metrics_interval_sec = 5\<rparr>"
  from assms reg r r1 obtain m4 m5 where
    m4: "on_store (UpdateNodeState now nid' ''online'') ?m3 = (m4, Inr ())" and
    m5: "stream_send st ?x m4 = (m5, Inr ())" and
    m': "m' = publish (notice nid' ''state'' now) m5" and n: "sess = ?sess" "nid' = nid"
    by (auto simp: OnAgentConnect_def Let_def split: sum.splits prod.splits)
  have sess3: "mg_sessions ?m3 = AList.update nid' ?sess (mg_sessions m)"
    using resolveNodeID_fields [OF r] by (simp split: option.split)
  have sent3: "mg_sent ?m3 = mg_sent m"
    using resolveNodeID_fields [OF r] by (simp split: option.split)
  have closed3: "se_stream old \<in> set (mg_closed ?m3)" if "map_of (mg_sessions m) nid = Some old" for old
    using resolveNodeID_fields [OF r] that n(2) by simp
  note f4 = conjunct1 [OF on_store_eq [OF m4]] and f5 = conjunct1 [OF stream_send_Inr [OF m5]]
  show ?thesis
  proof (rule that [OF reg])
    show "sess = newSession nid (rr_name reg) st (remoteHostFromContext peer)" using n by simp
    show "mg_sessions m' = AList.update nid sess (mg_sessions m)" "mg_sent m' = mg_sent m @ [(st,
        MasterRegisterResp \<lparr>rs_node_id = nid, rs_ok = True, rs_error = [], rs_metrics_interval_sec = 5\<rparr>)]"
      using sess3 sent3 n by (simp_all add: m' f5 f4 del: update_conv)
    show "se_stream old \<in> set (mg_closed m')" if "map_of (mg_sessions m) nid = Some old" for old
      using closed3 [OF that] by (simp add: m' f5 f4)
  qed
qed

section \<open>Disconnection\<close>

definition transient :: "string \<Rightarrow> container \<Rightarrow> bool" where
  "transient nid c \<longleftrightarrow> c_NodeID c = nid \<and> (c_State c = ''starting'' \<or> c_State c = ''stopping'')"

definition mark_failed :: "gotime \<Rightarrow> string \<Rightarrow> container \<Rightarrow> store \<Rightarrow> store" where
  "mark_failed now status c s =
     free_gpus (c_ID c) (update_container (c_ID c) (set_state now (c_DockerID c) ''error'' status) s)"

lemma healthy_mark_failed: "healthy s \<Longrightarrow> healthy (mark_failed now status c s)"
  by (auto simp: mark_failed_def)

lemma healthy_marks: "healthy s \<Longrightarrow> healthy (fold (mark_failed now status) cs s)"
  by (induction cs arbitrary: s) (simp_all add: healthy_mark_failed)

lemma revert_loop_store:
  assumes "healthy (mg_store m)"
  shows "mg_store (revert_loop now nid status cs m) =
    fold (mark_failed now status) [c \<leftarrow> cs. transient nid c] (mg_store m)"
  using assms
proof (induction cs arbitrary: m)
  case (Cons c cs)
  show ?case
  proof (cases "transient nid c")
    case False
    with Cons show ?thesis by (auto simp: transient_def)
  next
    case True
    have "st_faults (mg_store m) = []" using Cons.prems by (rule healthyD)
    then have "mg_store (publish u (do_store (FreeGPUs (c_ID c)) (do_store (UpdateContainerState now (c_ID c)
        (c_DockerID c) ''error'' status) m))) = mark_failed now status c (mg_store m)" for u
      by (simp add: mark_failed_def no_fault_updates)
    moreover have "revert_loop now nid status (c # cs) m = revert_loop now nid status cs
        (publish (notice nid ''container'' now) (do_store (FreeGPUs (c_ID c))
        (do_store (UpdateContainerState now (c_ID c) (c_DockerID c) ''error'' status) m)))"
      using True by (auto simp: transient_def)
    ultimately show ?thesis
      using True Cons.IH Cons.prems healthy_mark_failed by simp
  qed
qed simp

lemma row_marks:
  assumes "distinct (map c_ID cs)"
  shows "row (fold (mark_failed now status) cs s) cid = map_option (\<lambda>r.
    case find (\<lambda>c. c_ID c = cid) cs of None \<Rightarrow> r | Some c \<Rightarrow> set_state now (c_DockerID c) ''error'' status r)
    (row s cid)"
  using assms
proof (induction cs arbitrary: s)
  case Nil
  show ?case by (cases "row s cid") simp_all
next
  case (Cons c cs)
  have none: "c_ID c = cid \<Longrightarrow> find (\<lambda>c. c_ID c = cid) cs = None"
    using Cons.prems by (auto simp: find_None_iff) (metis imageI)
  have "row (mark_failed now status c s) cid =
      map_option (\<lambda>r. if cid = c_ID c then set_state now (c_DockerID c) ''error'' status r else r) (row s cid)"
    by (simp add: mark_failed_def row_update)
  with Cons none show ?case by (cases "row s cid") (auto split: option.split)
qed

lemma holder_marks:
  assumes "healthy s"
  shows "holder (fold (mark_failed now status) cs s) =
    (\<lambda>k. case holder s k of None \<Rightarrow> None | Some c \<Rightarrow> if c \<in> c_ID ` set cs then None else Some c)"
  using assms
proof (induction cs arbitrary: s)
  case Nil
  show ?case by (auto split: option.split)
next
  case (Cons c cs)
  have "holder (mark_failed now status c s) = (\<lambda>k. if holder s k = Some (c_ID c) then None else holder s k)"
    unfolding mark_failed_def using Cons.prems
    by (subst holder_free_gpus) (auto intro: healthyD)
  with Cons.IH [OF healthy_mark_failed [OF Cons.prems]] show ?case
    by (auto simp: fun_eq_iff split: option.split)
qed

text \<open>Rows and devices after the agent of a node is gone.\<close>

lemma handleDisconnect_store:
  fixes m now nid e
  defines "m' \<equiv> handleDisconnect now nid e m"
  assumes "healthy (mg_store m)"
  shows "row (mg_store m') cid = map_option (\<lambda>r. if transient nid r
      then set_state now (c_DockerID r) ''error'' (''agent disconnected: '' @ err_Error e) r else r)
      (row (mg_store m) cid)"
    and "holder (mg_store m') k = (case holder (mg_store m) k of None \<Rightarrow> None
      | Some c \<Rightarrow> if \<exists>r. row (mg_store m) c = Some r \<and> transient nid r then None else Some c)"
    and "node_row (mg_store m') n = map_option (\<lambda>r. if n = nid
      then r\<lparr>n_State := ''offline'', n_LastHeartbeat := now\<rparr> else r) (node_row (mg_store m) n)"
    and "healthy (mg_store m')"
proof -
  let ?status = "''agent disconnected: '' @ err_Error e"
  define s where "s = set_node_state now nid ''offline'' (mg_store m)"
  have s: "healthy s" using assms(2) by (auto simp: s_def)
  define cs where "cs = sort_key (\<lambda>r. - c_CreatedAt r) (st_containers s)"
  have cs: "distinct (map c_ID cs)" "set cs = set (st_containers s)"
    using healthyD(2) [OF s] by (auto simp: cs_def integrity_defs distinct_map)
  have nf: "st_faults (mg_store m) = []" using assms(2) by (rule healthyD)
  let ?ts = "[c \<leftarrow> cs. transient nid c]"
  have "mg_store m' = fold (mark_failed now ?status) ?ts s"
    unfolding m'_def handleDisconnect_def revertTransientOnDisconnect_def Let_def
    by (auto split: prod.split sum.split option.split dest!: on_store_eq
        simp: no_fault_updates nf healthy_queries s revert_loop_store
        simp flip: s_def cs_def)
  note m' = this
  have row: "row s = row (mg_store m)" by (simp add: s_def fun_eq_iff)
  have int: "integrity s" using s by (rule healthyD)
  have dt: "distinct (map c_ID ?ts)" using cs(1) by (rule distinct_map_filter)
  have find: "find (\<lambda>c. c_ID c = cid) ?ts =
      (case row (mg_store m) cid of None \<Rightarrow> None | Some r \<Rightarrow> if transient nid r then Some r else None)" for cid
  proof (cases "row s cid")
    case None
    then have "\<forall>c \<in> set cs. c_ID c \<noteq> cid" using cs(2) by (auto simp: row_None_iff)
    then have "find (\<lambda>c. c_ID c = cid) ?ts = None" by (simp add: find_None_iff)
    with None row show ?thesis by simp
  next
    case (Some r)
    then have r: "r \<in> set cs" "c_ID r = cid" using row_Some_iff [OF int] cs(2) by auto
    have u: "c = r" if "c \<in> set cs" "c_ID c = cid" for c
      using that r cs(1) by (auto simp: distinct_map dest: inj_onD)
    show ?thesis
    proof (cases "transient nid r")
      case True
      with r have "find (\<lambda>c. c_ID c = c_ID r) ?ts = Some r" by (intro find_unique [OF dt]) simp
      with True Some r(2) row show ?thesis by simp
    next
      case False
      with u have "find (\<lambda>c. c_ID c = cid) ?ts = None" by (auto simp: find_None_iff)
      with False Some row show ?thesis by simp
    qed
  qed
  show "row (mg_store m') cid = map_option (\<lambda>r. if transient nid r
      then set_state now (c_DockerID r) ''error'' ?status r else r) (row (mg_store m) cid)"
    unfolding m' row_marks [OF dt] find by (cases "row (mg_store m) cid") (simp_all add: row)
  have ids: "c \<in> c_ID ` set ?ts \<longleftrightarrow> (\<exists>r. row (mg_store m) c = Some r \<and> transient nid r)" for c
    using row_Some_iff [OF int] cs(2) row by (auto simp: image_iff)
  show "holder (mg_store m') k = (case holder (mg_store m) k of None \<Rightarrow> None
      | Some c \<Rightarrow> if \<exists>r. row (mg_store m) c = Some r \<and> transient nid r then None else Some c)"
    unfolding m' holder_marks [OF s] ids by (simp add: s_def)
  have "st_nodes (fold (mark_failed now ?status) ts t) = st_nodes t" for ts t
    by (induction ts arbitrary: t) (simp_all add: mark_failed_def)
  then show "node_row (mg_store m') n = map_option (\<lambda>r. if n = nid
      then r\<lparr>n_State := ''offline'', n_LastHeartbeat := now\<rparr> else r) (node_row (mg_store m) n)"
    unfolding m' by (simp add: node_row_def [of "fold _ _ _"] s_def node_row_set_state flip: node_row_def)
  show "healthy (mg_store m')" unfolding m' using s by (rule healthy_marks)
qed

lemma revert_loop_sessions [simp]:
  "mg_sessions (revert_loop now nid status cs m) = mg_sessions m"
  "mg_closed (revert_loop now nid status cs m) = mg_closed m"
  by (induction cs arbitrary: m) simp_all

lemma handleDisconnect_sessions:
  "mg_sessions (handleDisconnect now nid e m) = AList.delete nid (mg_sessions m)"
  "set (mg_closed (handleDisconnect now nid e m)) = set (mg_closed m) \<union>
     (case map_of (mg_sessions m) nid of None \<Rightarrow> {} | Some s \<Rightarrow> {se_stream s})"
  by (auto simp: handleDisconnect_def revertTransientOnDisconnect_def Let_def
      split: prod.split sum.split option.split dest!: on_store_eq)

section \<open>Container messages\<close>

definition ack_state :: "container_ack \<Rightarrow> string \<Rightarrow> string" where
  "ack_state c good = (if ca_error c = [] then good else ''error'')"

definition ack_status :: "container_ack \<Rightarrow> string \<Rightarrow> string" where
  "ack_status c good = (if ca_error c = [] then good else ca_error c)"

definition ack_store :: "gotime \<Rightarrow> container_ack \<Rightarrow> string \<Rightarrow> store \<Rightarrow> store" where
  "ack_store now c good = update_container (ca_container_id c)
     (set_state now (ca_docker_id c) (ack_state c good) (ack_status c good))"

lemma no_fault_acks:
  assumes "st_faults (mg_store m) = []"
  shows "mg_store (handleIncoming now s (AgentContainerCreated c) m) = ack_store now c ''running''
           (if ca_error c = [] then mg_store m else free_gpus (ca_container_id c) (mg_store m))"
    and "mg_store (handleIncoming now s (AgentContainerStarted c) m) = ack_store now c ''running''
           (if ca_error c = [] then mg_store m else free_gpus (ca_container_id c) (mg_store m))"
    and "mg_store (handleIncoming now s (AgentContainerStopped c) m) = ack_store now c ''exited'' (mg_store m)"
  using assms
  by (simp_all add: handleContainerCreated_def handleContainerStarted_def handleContainerStopped_def
      Let_def no_fault_updates ack_store_def ack_state_def ack_status_def)

definition event_store :: "gotime \<Rightarrow> state_changed \<Rightarrow> store \<Rightarrow> store" where
  "event_store now c s =
     (let t = update_container (sc_container_id c)
            (set_state now (sc_docker_id c) (sc_state c) (sc_status c)) s
      in if isTerminalGPUAction (sc_action c) then free_gpus (sc_container_id c) t else t)"

lemma no_fault_event:
  assumes "st_faults (mg_store m) = []"
  shows "mg_store (handleIncoming now s (AgentContainerStateChanged c) m) =
    (if sc_container_id c \<noteq> [] \<and> sc_state c \<noteq> [] \<and>
        sc_container_id c \<in> c_ID ` set (st_containers (mg_store m))
     then event_store now c (mg_store m) else mg_store m)"
proof -
  have "on_store (ContainerExists (sc_container_id c)) m =
      (m, Inr (sc_container_id c \<in> c_ID ` set (st_containers (mg_store m))))"
    using assms by (auto simp: on_store_def ContainerExists_def query_no_faults image_iff eq_commute)
  then show ?thesis
    using assms
    by (simp add: handleContainerStateChanged_def Let_def no_fault_updates event_store_def
        split: bool.split)
qed

lemma set_state_idem: "set_state now d st u (set_state now d st u r) = set_state now d st u r"
  by (simp add: set_state_def)

lemma update_container_idem:
  "(\<And>r. c_ID (f r) = c_ID r) \<Longrightarrow> (\<And>r. f (f r) = f r) \<Longrightarrow>
     update_container cid f (update_container cid f s) = update_container cid f s"
  by (simp add: update_container_def)

lemma update_free_commute:
  "update_container cid f (free_gpus cid' s) = free_gpus cid' (update_container cid f s)"
  by (simp add: update_container_def free_gpus_def)

lemma free_gpus_idem [simp]: "free_gpus cid (free_gpus cid s) = free_gpus cid s"
  by (simp add: free_gpus_def)

lemma event_store_idem: "event_store now c (event_store now c s) = event_store now c s"
  by (simp add: event_store_def Let_def update_free_commute update_container_idem set_state_idem)

section \<open>Metrics\<close>

definition disk_sample_of :: "disk_stats \<Rightarrow> disk_sample" where
  "disk_sample_of d = \<lparr>dk_Path = ds_path d, dk_TotalBytes = ds_total_bytes d,
     dk_UsedBytes = ds_used_bytes d, dk_UsagePercent = ds_usage_percent d\<rparr>"

lemma json_disk_reads:
  "json_disk d = Some j \<Longrightarrow> wf_json j \<and> decode_disk j = Some (disk_sample_of d)"
  using ftoa_json by (fastforce simp: json_disk_def disk_sample_of_def)

lemma those_map_Some: "those (map f xs) = Some ys \<Longrightarrow> list_all2 (\<lambda>x y. f x = Some y) xs ys"
proof (induction xs arbitrary: ys)
  case (Cons x xs)
  then show ?case by (cases ys) (auto split: option.splits)
qed simp

lemma decode_list_all2:
  "list_all2 (\<lambda>x y. f y = Some x) xs ys \<Longrightarrow> decode_list f ys = Some xs"
  by (induction rule: list_all2_induct) auto

lemma those_total: "(\<And>x. x \<in> set xs \<Longrightarrow> f x \<noteq> None) \<Longrightarrow> \<exists>ys. those (map f xs) = Some ys"
proof (induction xs)
  case (Cons a xs)
  obtain y where "f a = Some y" using Cons.prems [of a] by auto
  moreover obtain ys where "those (map f xs) = Some ys" using Cons by fastforce
  ultimately show ?case by simp
qed simp

lemma render_not_Nil: "render (JArr vs) \<noteq> []"
  by simp

lemma DecodeDisks_marshal:
  assumes "\<And>d. d \<in> set ds \<Longrightarrow> ftoa (ds_usage_percent d) \<noteq> None"
  shows "DecodeDisks (jsonMarshalDisks ds) = map disk_sample_of ds"
proof -
  have "\<And>d. d \<in> set ds \<Longrightarrow> json_disk d \<noteq> None" using assms by (simp add: json_disk_def)
  then obtain js where js: "those (map json_disk ds) = Some js" using those_total by blast
  then have all: "list_all2 (\<lambda>d j. json_disk d = Some j) ds js" by (rule those_map_Some)
  then have "wf_json (JArr js)" by (auto simp: list_all2_conv_all_nth in_set_conv_nth dest!: json_disk_reads)
  moreover from all have "list_all2 (\<lambda>x y. decode_disk y = Some x) (map disk_sample_of ds) js"
    by (auto simp: list_all2_conv_all_nth dest!: json_disk_reads)
  ultimately show ?thesis
    using js render_not_Nil [of js]
    by (simp add: DecodeDisks_def jsonMarshalDisks_def encodeJSON_def unmarshal_def parse_render
        decode_list_all2 del: render.simps)
qed

lemma report_node_disks: "mr_disks r \<noteq> [] \<Longrightarrow> n_DiskJSON (report_node nid r) = jsonMarshalDisks (mr_disks r)"
  by (simp add: report_node_def Let_def)

lemma report_node_no_disks: "mr_disks r = [] \<Longrightarrow> n_DiskJSON (report_node nid r) = []"
  by (simp add: report_node_def Let_def zero_node_def split: option.split)

lemma report_node_id [simp]: "n_ID (report_node nid r) = nid"
  by (simp add: report_node_def Let_def split: option.split)

text \<open>The metric a report puts into the sink's queue.\<close>

lemma metric_disks:
  assumes "\<And>d. d \<in> set (mr_disks r) \<Longrightarrow> ftoa (ds_usage_percent d) \<noteq> None"
  shows "me_Disks (metricFromReport now nid nm (report_node nid r) rep ts) = map disk_sample_of (mr_disks r)"
  using DecodeDisks_marshal [OF assms]
  by (cases "mr_disks r = []")
    (simp_all add: metricFromReport_def report_node_disks report_node_no_disks DecodeDisks_def)

text \<open>A NaN in a report is stored as NULL, and the row cannot be read again.\<close>

lemma first_row_fails:
  assumes "\<And>r. r \<in> set rows \<Longrightarrow> p r \<Longrightarrow> scan r = Inl e" and "\<exists>r \<in> set rows. p r"
  shows "first_row scan [r \<leftarrow> rows. p r] = Inl e"
  using assms by (induction rows) (auto simp: first_row_def)

lemma scan_all_fails:
  "\<lbrakk>x \<in> set xs; f x = Inl e; \<And>y. y \<in> set xs \<Longrightarrow> f y = Inl e \<or> isl (f y) = False\<rbrakk> \<Longrightarrow> scan_all f xs = Inl e"
proof (induction xs)
  case (Cons y ys)
  show ?case
  proof (cases "f y")
    case (Inl e')
    with Cons.prems(3) [of y] show ?thesis by simp
  next
    case (Inr b)
    with Cons show ?thesis by auto
  qed
qed simp

text \<open>The error of the first column of a row that cannot be scanned.\<close>

definition null_error :: "node \<Rightarrow> err" where
  "null_error n =
     (if is_nan (n_CPUPercent n) then scan_null_msg 10 ''cpu_percent''
      else if is_nan (n_Load1 n) then scan_null_msg 16 ''load1'' else scan_null_msg 20 ''gpu_usage_avg'')"

lemma scanNode_null: "is_nan (n_CPUPercent n) \<or> is_nan (n_Load1 n) \<or> is_nan (n_GpuUsageAvg n) \<Longrightarrow> scanNode n = Inl (null_error n)"
  by (auto simp: scanNode_def null_error_def)

definition store_report :: "gotime \<Rightarrow> node \<Rightarrow> node \<Rightarrow> node" where
  "store_report now n r =
     r\<lparr>n_CPUPercent := n_CPUPercent n, n_CPUCores := n_CPUCores n, n_MemUsedBytes := n_MemUsedBytes n,
       n_MemTotalBytes := n_MemTotalBytes n, n_DiskJSON := n_DiskJSON n, n_GPUJSON := n_GPUJSON n,
       n_Load1 := n_Load1 n, n_GpuCount := n_GpuCount n, n_GpuMemUsed := n_GpuMemUsed n,
       n_GpuMemTotal := n_GpuMemTotal n, n_GpuUsageAvg := n_GpuUsageAvg n, n_MetricsAt := now,
       n_LastHeartbeat := now\<rparr>"

definition encodable :: "node \<Rightarrow> bool" where
  "encodable n \<longleftrightarrow> \<not> (high_bit (n_MemUsedBytes n) \<or> high_bit (n_MemTotalBytes n) \<or>
     high_bit (n_GpuMemUsed n) \<or> high_bit (n_GpuMemTotal n))"

lemma handleMetrics_store:
  assumes "st_faults (mg_store m) = []" and "encodable (report_node (se_NodeID s) r)"
  shows "mg_store (handleMetrics now s r m) = (mg_store m)\<lparr>st_nodes :=
    map (\<lambda>x. if n_ID x = se_NodeID s then store_report now (report_node (se_NodeID s) r) x else x)
      (st_nodes (mg_store m))\<rparr>"
  using assms
  by (simp add: handleMetrics_def Let_def on_store_def UpdateNodeMetrics_def exec_no_faults
      store_report_def encodable_def del: fun_upd_apply)

end
