(* ===== verification/Api_Inv.thy ===== *)
theory Api_Inv
  imports Api AgentMgr_Thms
begin

text \<open>
  What every HTTP handler keeps, whatever the driver's failures (\<open>request_frame\<close>, with the store's
  integrity as its first instance); the read-only handlers keep the tables. Creating a container
  always returns.
\<close>

section \<open>Fields\<close>

lemma on_sys_fields [simp]:
  "mg_store (sy_mgr (fst (on_sys f y))) = fst (f (sy_store y))"
  "snd (on_sys f y) = snd (f (sy_store y))"
  "mg_sessions (sy_mgr (fst (on_sys f y))) = mg_sessions (sy_mgr y)"
  "mg_sent (sy_mgr (fst (on_sys f y))) = mg_sent (sy_mgr y)"
  "mg_broken (sy_mgr (fst (on_sys f y))) = mg_broken (sy_mgr y)"
  "mg_updates (sy_mgr (fst (on_sys f y))) = mg_updates (sy_mgr y)"
  "sy_proxy (fst (on_sys f y)) = sy_proxy y"
  by (simp_all add: on_sys_def on_store_def split: prod.split)

definition with_store :: "store \<Rightarrow> sys \<Rightarrow> sys" where
  "with_store s y = y\<lparr>sy_mgr := (sy_mgr y)\<lparr>mg_store := s\<rparr>\<rparr>"

lemma with_store_fields [simp]:
  "mg_store (sy_mgr (with_store s y)) = s" "mg_sessions (sy_mgr (with_store s y)) = mg_sessions (sy_mgr y)"
  "mg_sent (sy_mgr (with_store s y)) = mg_sent (sy_mgr y)"
  "mg_broken (sy_mgr (with_store s y)) = mg_broken (sy_mgr y)"
  "mg_updates (sy_mgr (with_store s y)) = mg_updates (sy_mgr y)"
  "sy_proxy (with_store s y) = sy_proxy y" "with_store s (with_store t y) = with_store s y"
  by (simp_all add: with_store_def)

lemma with_store_same [simp]: "with_store (sy_store y) y = y"
  by (simp add: with_store_def)

lemma on_sys_alt: "on_sys f y = (with_store (fst (f (sy_store y))) y, snd (f (sy_store y)))"
  by (simp add: on_sys_def on_store_def with_store_def split: prod.split)

lemma on_sys_eqD: "on_sys f y = (y', r) \<Longrightarrow> y' = with_store (fst (f (sy_store y))) y \<and> r = snd (f (sy_store y))"
  by (simp add: on_sys_alt)

lemma on_sys_pair: "on_sys f y = (y', r) \<longleftrightarrow> (\<exists>s. f (sy_store y) = (s, r) \<and> y' = with_store s y)"
  by (cases "f (sy_store y)") (auto simp: on_sys_alt)

lemma sys_send_fields [simp]:
  "mg_store (sy_mgr (fst (sys_send se x y))) = sy_store y"
  "mg_sessions (sy_mgr (fst (sys_send se x y))) = mg_sessions (sy_mgr y)"
  "mg_broken (sy_mgr (fst (sys_send se x y))) = mg_broken (sy_mgr y)"
  "mg_updates (sy_mgr (fst (sys_send se x y))) = mg_updates (sy_mgr y)"
  "sy_proxy (fst (sys_send se x y)) = sy_proxy y"
  by (simp_all add: sys_send_def Send_def stream_send_def split: option.split)

lemma sys_send_eqD:
  "sys_send se x y = (y', r) \<Longrightarrow> mg_store (sy_mgr y') = sy_store y \<and> mg_sessions (sy_mgr y') = mg_sessions (sy_mgr y) \<and>
     sy_proxy y' = sy_proxy y"
  by (metis fst_conv sys_send_fields(1,2,5))

lemma sys_send_Inr:
  "sys_send se x y = (y', Inr u) \<Longrightarrow> mg_sent (sy_mgr y') = mg_sent (sy_mgr y) @ [(se_stream se, x)]"
  by (auto simp: sys_send_def Send_def stream_send_def split: option.splits)

lemma sys_send_Inl: "sys_send se x y = (y', Inl e) \<Longrightarrow> y' = y"
  by (auto simp: sys_send_def Send_def stream_send_def split: option.splits)

lemma proxy_update_fields [simp]:
  "sy_mgr (register_and_bind l p c n h y) = sy_mgr y" "sy_mgr (unregister p y) = sy_mgr y"
  by (simp_all add: register_and_bind_def unregister_def)

section \<open>What the requests keep\<close>

text \<open>
  The statements the HTTP handlers run, as an interface: a property of the tables that each of
  them keeps is kept by every handler, on every path and whatever the driver's failures.
\<close>

lemma sendStop_keeps: "sendStopCommand cc rm y = (y', r) \<Longrightarrow> sy_store y' = sy_store y"
  by (auto simp: sendStopCommand_def split: option.splits dest!: sys_send_eqD)

lemma external_port_alloc:
  assumes "external_port cid req ports y = Some (y', r)"
  shows "sy_store y' = sy_store y \<or> (\<exists>e. AllocPort 30000 32767 cid (sy_store y) = Some (sy_store y', e))"
  using assms by (auto simp: external_port_def split: if_splits)

lemma tables_reads:
  "tables (fst (GetNode nid s)) = tables s" "tables (fst (GetContainer cid s)) = tables s"
  "tables (fst (ListNodes s)) = tables s" "tables (fst (ListContainers s)) = tables s"
  "tables (fst (GPUUsageByNode s)) = tables s" "tables (fst (ListGPUAllocsForNode nid s)) = tables s"
  by (simp_all add: GetNode_def GetContainer_def ListNodes_def ListContainers_def GPUUsageByNode_def
      ListGPUAllocsForNode_def)

lemma on_sys_tables:
  "on_sys f y = (y', r) \<Longrightarrow> (\<And>s. tables (fst (f s)) = tables s) \<Longrightarrow> tables (sy_store y') = tables (sy_store y)"
  by (auto dest: on_sys_eqD)

lemma read_only:
  "tables (sy_store (fst (listNodes y))) = tables (sy_store y)"
  "tables (sy_store (fst (getNode nid y))) = tables (sy_store y)"
  "tables (sy_store (fst (listNodeContainers nid y))) = tables (sy_store y)"
  "tables (sy_store (fst (listNodeGPUs nid y))) = tables (sy_store y)"
  "tables (sy_store (fst (getContainer ev cid y))) = tables (sy_store y)"
  "tables (sy_store (fst (listContainers ev y))) = tables (sy_store y)"
  by (auto simp: listNodes_def getNode_def listNodeContainers_def listNodeGPUs_def getContainer_def
      listContainers_def Let_def tables_reads split: prod.split sum.split dest!: on_sys_eqD)

lemma websocket_store: "sy_store (fst (websocket_turn y)) = sy_store y"
  by (simp add: websocket_turn_def split: list.split)

locale request_frame = table_predicate P for P +
  assumes insert_container: "P s \<Longrightarrow> P (fst (InsertContainer now c s))"
    and gpu_indices: "P s \<Longrightarrow> P (fst (UpdateContainerGPUIndices now cid j s))"
    and set_container_state: "P s \<Longrightarrow> P (fst (UpdateContainerState now cid d st u s))"
    and delete_container: "P s \<Longrightarrow> P (fst (DeleteContainer cid s))"
    and alloc_port: "P s \<Longrightarrow> AllocPort start stop cid s = Some (s', r) \<Longrightarrow> P s'"
    and free_port: "P s \<Longrightarrow> P (fst (FreePort p s))"
    and alloc_gpus: "P s \<Longrightarrow> P (fst (AllocGPUs now nid cid count tot s))"
    and alloc_specific: "P s \<Longrightarrow> P (fst (AllocSpecificGPUs now nid cid idxs s))"
    and release_gpus: "P s \<Longrightarrow> P (fst (Store.FreeGPUs cid s))"
begin

lemmas ops = insert_container gpu_indices set_container_state delete_container free_port alloc_gpus
  alloc_specific release_gpus

lemma P_cong: "tables s = tables t \<Longrightarrow> P s = P t"
  by (metis P_faults tables_def)

lemma reads:
  assumes "P s"
  shows "P (fst (GetNode nid s))" "P (fst (GetContainer cid s))" "P (fst (ListNodes s))"
    "P (fst (ListContainers s))" "P (fst (GPUUsageByNode s))" "P (fst (ListGPUAllocsForNode nid s))"
  using assms P_cong tables_reads by metis+

lemma on_sys_keeps:
  "on_sys f y = (y', r) \<Longrightarrow> P (sy_store y) \<Longrightarrow> (\<And>s. P s \<Longrightarrow> P (fst (f s))) \<Longrightarrow> P (sy_store y')"
  by (auto dest: on_sys_eqD)

lemma Select_keeps: "P s \<Longrightarrow> P (fst (Select req s))"
proof -
  assume i: "P s"
  obtain s1 r1 where 1: "ListNodes s = (s1, r1)" by force
  obtain s2 r2 where 2: "GPUUsageByNode s1 = (s2, r2)" by force
  have "P s1" using reads(3) [OF i] 1 by simp
  moreover from this have "P s2" using reads(5) [of s1] 2 by simp
  ultimately show ?thesis by (simp add: Select_def 1 2 split: sum.split option.split prod.split)
qed

lemma pick_node_keeps:
  assumes "P (sy_store y)" and "pick_node req y = (y', r)"
  shows "P (sy_store y')"
proof -
  have sel: "P (sy_store y')" if "select_node req y = (y', r)"
    using that assms(1) unfolding select_node_def
    by (auto split: prod.splits sum.splits intro: ops reads Select_keeps dest!: on_sys_keeps)
  have pin: "P (sy_store y')" if p: "pinned_node req y = (y', r)"
  proof -
    obtain y1 r1 where 1: "on_sys (GetNode (cq_NodeID req)) y = (y1, r1)" by force
    then have i1: "P (sy_store y1)" using assms(1) by (auto intro: ops reads Select_keeps dest!: on_sys_keeps)
    obtain y2 r2 where 2: "on_sys GPUUsageByNode y1 = (y2, r2)" by force
    then have "P (sy_store y2)" using i1 by (auto intro: ops reads Select_keeps dest!: on_sys_keeps)
    with i1 p 1 2 show ?thesis
      by (auto simp: pinned_node_def Let_def split: sum.splits option.splits if_splits)
  qed
  show ?thesis using assms(2) sel pin by (auto simp: pick_node_def split: if_splits)
qed

lemma external_port_keeps:
  "external_port cid req ports y = Some (y', r) \<Longrightarrow> P (sy_store y) \<Longrightarrow> P (sy_store y')"
  using alloc_port by (metis external_port_alloc)

lemma reserve_gpus_keeps:
  assumes "reserve_gpus now cid n req y = (y', r)" and "P (sy_store y)"
  shows "P (sy_store y')"
  using assms unfolding reserve_gpus_def Let_def
  by (auto split: if_splits prod.splits sum.splits intro: ops reads Select_keeps dest!: on_sys_keeps)

lemma create_cleanup_keeps:
  "P (sy_store y) \<Longrightarrow> P (sy_store (create_cleanup g cid ext y))"
  by (simp add: create_cleanup_def Let_def ops reads)

lemma hand_off_keeps:
  "hand_off ev req n sess ports name cc idxs y = (y', rsp) \<Longrightarrow> P (sy_store y) \<Longrightarrow> P (sy_store y')"
  unfolding hand_off_def Let_def
  by (auto split: prod.splits sum.splits if_splits dest!: sys_send_eqD intro: create_cleanup_keeps)

lemma create_on_keeps:
  assumes "create_on ev req n sess y = Some (y', rsp)" and "P (sy_store y)"
  shows "P (sy_store y')"
proof -
  let ?cid = "newContainerID (ev_id ev)" and ?ports = "portMappingsToProto (cq_PortMappings req)"
  from assms(1) obtain y1 r1 where e: "external_port ?cid req ?ports y = Some (y1, r1)"
    by (auto simp: create_on_def Let_def split: option.splits)
  then have i1: "P (sy_store y1)" using assms(2) by (rule external_port_keeps)
  show ?thesis
  proof (cases r1)
    case (Inl e')
    with assms(1) e i1 show ?thesis by (simp add: create_on_def Let_def)
  next
    case (Inr ext)
    obtain y2 r2 where ins: "on_sys (InsertContainer (ev_now ev)
        (new_container ?cid (n_ID n) req ?ports (container_name ev req) ext)) y1 = (y2, r2)" by force
    then have i2: "P (sy_store y2)" using i1 by (auto intro: ops reads Select_keeps dest!: on_sys_keeps)
    obtain y3 r3 where res: "reserve_gpus (ev_now ev) ?cid n req y2 = (y3, r3)" by force
    then have i3: "P (sy_store y3)" using i2 by (rule reserve_gpus_keeps)
    show ?thesis
      using assms(1) e Inr ins res i2 i3
      by (auto simp: create_on_def Let_def ops reads split: sum.splits if_splits dest: hand_off_keeps)
  qed
qed

lemma createContainer_keeps:
  assumes "createContainer ev bound y = Some (y', rsp)" and "P (sy_store y)"
  shows "P (sy_store y')"
proof -
  have p: "P (sy_store (fst (pick_node req y)))" for req
    using pick_node_keeps [OF assms(2)] by (cases "pick_node req y") auto
  show ?thesis
    using assms
    by (auto simp: createContainer_def split: sum.splits if_splits option.splits prod.splits
        dest: pick_node_keeps create_on_keeps)
qed

lemma deleteContainer_keeps:
  "P (sy_store y) \<Longrightarrow> P (sy_store (fst (deleteContainer cid y)))"
  by (auto simp: deleteContainer_def Let_def ops reads split: prod.split sum.split
      dest!: on_sys_eqD sendStop_keeps)

lemma startContainer_keeps:
  "P (sy_store y) \<Longrightarrow> P (sy_store (fst (startContainer ev cid y)))"
  by (auto simp: startContainer_def Let_def ops reads split: prod.split sum.split option.split
      dest!: on_sys_eqD sys_send_eqD)

lemma stopContainer_keeps:
  "P (sy_store y) \<Longrightarrow> P (sy_store (fst (stopContainer ev cid y)))"
  by (auto simp: stopContainer_def Let_def ops reads split: prod.split sum.split
      dest!: on_sys_eqD sendStop_keeps)

lemma read_only_keeps:
  assumes "P (sy_store y)"
  shows "P (sy_store (fst (listNodes y)))" "P (sy_store (fst (getNode nid y)))"
    "P (sy_store (fst (listNodeContainers nid y)))" "P (sy_store (fst (listNodeGPUs nid y)))"
    "P (sy_store (fst (getContainer ev cid y)))" "P (sy_store (fst (listContainers ev y)))"
  using assms P_cong read_only by metis+

lemmas requests_keep = createContainer_keeps deleteContainer_keeps startContainer_keeps
  stopContainer_keeps read_only_keeps

end

interpretation sys_integrity: request_frame integrity
  by unfold_locales (simp_all add: store_inv)

section \<open>Returning\<close>

lemma external_port_returns: "\<exists>res. external_port cid req ports y = Some res"
proof -
  have "\<exists>res. AllocPort 30000 32767 cid (sy_store y) = Some res"
    by (rule AllocPort_returns) simp
  then show ?thesis by (auto simp: external_port_def)
qed

lemma create_on_returns: "\<exists>res. create_on ev req n sess y = Some res"
proof -
  obtain res where "external_port (newContainerID (ev_id ev)) req (portMappingsToProto (cq_PortMappings req)) y = Some res"
    using external_port_returns by blast
  then show ?thesis
    by (cases res) (auto simp: create_on_def Let_def split: sum.split prod.split)
qed

lemma createContainer_returns: "\<exists>y' rsp. createContainer ev bound y = Some (y', rsp)"
  using create_on_returns
  by (auto simp: createContainer_def split: sum.split option.split prod.split)

end
