(* ===== verification/Api_Create.thy ===== *)
theory Api_Create
  imports Api_Inv
begin

text \<open>
  \<open>createContainer\<close>: what a 200 response guarantees about the store, the proxy and the agent's
  stream, and what a refused or failed creation leaves behind.
\<close>

section \<open>Inserting and reserving\<close>

definition filled :: "gotime \<Rightarrow> container \<Rightarrow> container" where
  "filled now c = (if is_zero (c_CreatedAt c) then c\<lparr>c_CreatedAt := now\<rparr> else c)\<lparr>c_UpdatedAt := now\<rparr>"

lemma filled_fields [simp]:
  "c_ID (filled now c) = c_ID c" "c_NodeID (filled now c) = c_NodeID c"
  "c_State (filled now c) = c_State c" "c_ExternalPort (filled now c) = c_ExternalPort c"
  "c_GPUCount (filled now c) = c_GPUCount c" "c_PortsJSON (filled now c) = c_PortsJSON c"
  "c_UpdatedAt (filled now c) = now" "c_MemoryBytes (filled now c) = c_MemoryBytes c"
  "c_Name (filled now c) = c_Name c" "c_CPUCores (filled now c) = c_CPUCores c"
  by (simp_all add: filled_def)

definition add_container :: "container \<Rightarrow> store \<Rightarrow> store" where
  "add_container c s = s\<lparr>st_containers := st_containers s @ [c]\<rparr>"

lemma add_container_tables [simp]:
  "st_nodes (add_container c s) = st_nodes s" "st_gpus (add_container c s) = st_gpus s"
  "st_ports (add_container c s) = st_ports s" "st_faults (add_container c s) = st_faults s"
  "st_containers (add_container c s) = st_containers s @ [c]"
  by (simp_all add: add_container_def)

lemma InsertContainer_Inr:
  assumes "InsertContainer now c s = (s', Inr cc)"
  shows "cc = filled now c" "c_ID c \<notin> c_ID ` set (st_containers s)" "c_NodeID c \<in> n_ID ` set (st_nodes s)"
    "tables s' = tables (add_container cc s)"
proof -
  let ?f = "\<lambda>s. if c_ID c \<in> c_ID ` set (st_containers s)
      then (s, Inl (unique_msg ''containers.id (1555)''))
      else if c_NodeID c \<notin> n_ID ` set (st_nodes s) then (s, Inl fk_msg)
      else (s\<lparr>st_containers := st_containers s @ [filled now c]\<rparr>, Inr (filled now c))"
  have "exec ?f s = (s', Inr cc)"
    using assms unfolding InsertContainer_def Let_def filled_def [symmetric] filled_fields
    by (simp split: if_splits)
  then obtain fs where "?f (s\<lparr>st_faults := fs\<rparr>) = (s', Inr cc)" by (rule exec_cases) auto
  then show "cc = filled now c" "c_ID c \<notin> c_ID ` set (st_containers s)" "c_NodeID c \<in> n_ID ` set (st_nodes s)"
    "tables s' = tables (add_container cc s)"
    by (auto simp: tables_eq_iff split: if_splits)
qed

lemma InsertContainer_no_faults:
  assumes "st_faults s = []" "\<not> high_bit (c_MemoryBytes c)"
    and "c_ID c \<notin> c_ID ` set (st_containers s)" "c_NodeID c \<in> n_ID ` set (st_nodes s)"
  shows "InsertContainer now c s = (add_container (filled now c) s, Inr (filled now c))"
  using assms by (simp add: InsertContainer_def Let_def exec_no_faults filled_def add_container_def)

lemma UpdateContainerGPUIndices_Inr:
  assumes "UpdateContainerGPUIndices now cid j s = (s', Inr u)"
  shows "tables s' = tables (update_container cid (\<lambda>r. r\<lparr>c_GPUIndicesJSON := j, c_UpdatedAt := now\<rparr>) s)"
  using assms unfolding UpdateContainerGPUIndices_def
  by (elim exec_cases) (auto simp: tables_eq_iff update_container_def)

definition indices_json :: "u32 list \<Rightarrow> string" where
  "indices_json idxs = (if idxs = [] then [] else render (JArr (map json_u32 idxs)))"

definition give_gpus :: "gotime \<Rightarrow> string \<Rightarrow> string \<Rightarrow> u32 list \<Rightarrow> store \<Rightarrow> store" where
  "give_gpus now nid cid idxs s =
     (if idxs = [] then s
      else update_container cid (\<lambda>r. r\<lparr>c_GPUIndicesJSON := indices_json idxs, c_UpdatedAt := now\<rparr>)
             (add_gpus (gpu_rows now nid cid idxs) s))"

text \<open>The devices, before their indices are written to the container's row.\<close>

lemma gpus_taken:
  assumes r: "(if cq_GPUIndices req \<noteq> [] then
      (case on_sys (AllocSpecificGPUs now (n_ID n) cid (cq_GPUIndices req)) y of
         (y1, Inl e) \<Rightarrow> (y1, Inl e)
       | (y1, Inr _) \<Rightarrow> (y1, Inr (cq_GPUIndices req)))
    else on_sys (AllocGPUs now (n_ID n) cid (int (unat (cq_GPUCount req))) (n_GpuCount n)) y) = (y1, Inr idxs)"
    and pos: "0 < unat (cq_GPUCount req)"
  shows "reservable (n_ID n) cid idxs (sy_store y) \<and> idxs \<noteq> [] \<and>
    tables (sy_store y1) = tables (add_gpus (gpu_rows now (n_ID n) cid idxs) (sy_store y)) \<and>
    (\<exists>s. y1 = with_store s y) \<and> (if cq_GPUIndices req \<noteq> [] then idxs = cq_GPUIndices req
      else length idxs = unat (cq_GPUCount req))"
proof (cases "cq_GPUIndices req = []")
  case True
  with r have "AllocGPUs now (n_ID n) cid (int (unat (cq_GPUCount req))) (n_GpuCount n) (sy_store y) =
      (sy_store y1, Inr idxs)" and "\<exists>s. y1 = with_store s y" by (auto simp: on_sys_pair)
  moreover have "0 < int (unat (cq_GPUCount req))" using pos by (simp only: of_nat_0_less_iff)
  note AllocGPUs_Inr(1-3) [OF calculation(1) this]
  moreover from this(3) have "length idxs = unat (cq_GPUCount req)" by (simp only: of_nat_eq_iff)
  ultimately show ?thesis using True pos by auto
next
  case False
  with r have "AllocSpecificGPUs now (n_ID n) cid (cq_GPUIndices req) (sy_store y) = (sy_store y1, Inr ())"
    and "idxs = cq_GPUIndices req" and "\<exists>s. y1 = with_store s y"
    by (auto simp: on_sys_pair split: prod.splits sum.splits)
  with AllocSpecificGPUs_Inr [OF this(1)] False show ?thesis by auto
qed

lemma reserve_gpus_Inr:
  assumes "reserve_gpus now cid n req y = (y', Inr (idxs, j))"
  shows "reservable (n_ID n) cid idxs (sy_store y) \<or> idxs = []"
    and "tables (sy_store y') = tables (give_gpus now (n_ID n) cid idxs (sy_store y))"
    and "j = indices_json idxs" and "sy_proxy y' = sy_proxy y"
    and "mg_sessions (sy_mgr y') = mg_sessions (sy_mgr y)" "mg_sent (sy_mgr y') = mg_sent (sy_mgr y)"
    and "cq_GPUCount req = 0 \<Longrightarrow> idxs = []"
    and "cq_GPUCount req \<noteq> 0 \<Longrightarrow> cq_GPUIndices req \<noteq> [] \<Longrightarrow> idxs = cq_GPUIndices req"
    and "cq_GPUCount req \<noteq> 0 \<Longrightarrow> cq_GPUIndices req = [] \<Longrightarrow> length idxs = unat (cq_GPUCount req)"
proof -
  have "(cq_GPUCount req = 0 \<and> idxs = [] \<and> j = [] \<and> y' = y) \<or>
    (cq_GPUCount req \<noteq> 0 \<and> idxs \<noteq> [] \<and> reservable (n_ID n) cid idxs (sy_store y) \<and>
      tables (sy_store y') = tables (give_gpus now (n_ID n) cid idxs (sy_store y)) \<and> j = indices_json idxs \<and>
      (\<exists>s. y' = with_store s y) \<and> (if cq_GPUIndices req \<noteq> [] then idxs = cq_GPUIndices req
        else length idxs = unat (cq_GPUCount req)))" (is "?zero \<or> ?pos")
  proof (cases "cq_GPUCount req = 0")
    case True
    with assms show ?thesis by (simp add: reserve_gpus_def)
  next
    case False
    let ?r = "if cq_GPUIndices req \<noteq> [] then
              (case on_sys (AllocSpecificGPUs now (n_ID n) cid (cq_GPUIndices req)) y of
                 (y1, Inl e) \<Rightarrow> (y1, Inl e)
               | (y1, Inr _) \<Rightarrow> (y1, Inr (cq_GPUIndices req)))
            else on_sys (AllocGPUs now (n_ID n) cid (int (unat (cq_GPUCount req))) (n_GpuCount n)) y"
    from False assms obtain y1 where r: "?r = (y1, Inr idxs)"
      by (auto simp: reserve_gpus_def Let_def split: prod.splits sum.splits if_splits)
    have "0 < unat (cq_GPUCount req)" using False by (simp add: unat_gt_0)
    note 1 = gpus_taken [OF r this]
    then have ne: "idxs \<noteq> []" by simp
    let ?j = "render (JArr (map json_u32 idxs))"
    from assms False r ne have j: "j = ?j" and u: "on_sys (UpdateContainerGPUIndices now cid ?j) y1 = (y', Inr ())"
      by (auto simp: reserve_gpus_def Let_def split: prod.splits sum.splits if_splits simp del: render.simps)
    from u have "UpdateContainerGPUIndices now cid ?j (sy_store y1) = (sy_store y', Inr ())"
      and w: "\<exists>s. y' = with_store s y1" by (auto simp: on_sys_pair simp del: render.simps)
    from UpdateContainerGPUIndices_Inr [OF this(1)] 1
    have "tables (sy_store y') = tables (give_gpus now (n_ID n) cid idxs (sy_store y))"
      by (simp add: tables_eq_iff give_gpus_def indices_json_def update_container_def del: render.simps)
    with 1 False j w ne show ?thesis by (auto simp: indices_json_def simp del: render.simps)
  qed
  then show "reservable (n_ID n) cid idxs (sy_store y) \<or> idxs = []"
    "tables (sy_store y') = tables (give_gpus now (n_ID n) cid idxs (sy_store y))"
    "j = indices_json idxs" "sy_proxy y' = sy_proxy y"
    "mg_sessions (sy_mgr y') = mg_sessions (sy_mgr y)" "mg_sent (sy_mgr y') = mg_sent (sy_mgr y)"
    "cq_GPUCount req = 0 \<Longrightarrow> idxs = []"
    "cq_GPUCount req \<noteq> 0 \<Longrightarrow> cq_GPUIndices req \<noteq> [] \<Longrightarrow> idxs = cq_GPUIndices req"
    "cq_GPUCount req \<noteq> 0 \<Longrightarrow> cq_GPUIndices req = [] \<Longrightarrow> length idxs = unat (cq_GPUCount req)"
    by (auto simp: give_gpus_def indices_json_def simp del: render.simps)
qed

section \<open>A creation that succeeds\<close>

lemma external_port_Inr:
  assumes "external_port cid req ports y = Some (y1, Inr ext)"
  shows "(if cq_ExternalPort req = 0 \<and> ports \<noteq> []
      then 30000 \<le> ext \<and> ext \<le> 32767 \<and> ext \<notin> p_port ` set (st_ports (sy_store y)) \<and>
        tables (sy_store y1) = tables (add_port ext cid (sy_store y))
      else ext = cq_ExternalPort req \<and> sy_store y1 = sy_store y)"
    "\<exists>s. y1 = with_store s y"
proof -
  have "(cq_ExternalPort req = 0 \<and> ports \<noteq> [] \<and>
      AllocPort 30000 32767 cid (sy_store y) = Some (sy_store y1, Inr ext) \<and> (\<exists>s. y1 = with_store s y)) \<or>
    (\<not> (cq_ExternalPort req = 0 \<and> ports \<noteq> []) \<and> ext = cq_ExternalPort req \<and> y1 = y)"
    using assms by (auto simp: external_port_def with_store_def split: if_splits)
  then show "(if cq_ExternalPort req = 0 \<and> ports \<noteq> []
      then 30000 \<le> ext \<and> ext \<le> 32767 \<and> ext \<notin> p_port ` set (st_ports (sy_store y)) \<and>
        tables (sy_store y1) = tables (add_port ext cid (sy_store y))
      else ext = cq_ExternalPort req \<and> sy_store y1 = sy_store y)"
    "\<exists>s. y1 = with_store s y"
    using AllocPort_Inr [of 30000 32767 cid "sy_store y" "sy_store y1" ext]
      AllocPort_smallest [of 30000 32767 cid "sy_store y" "sy_store y1" ext]
    by (auto intro: exI [of _ "sy_store y"])
qed

lemma hand_off_created:
  assumes "hand_off ev req n sess ports name cc idxs y = (y', JSON code (BCreated cc' nid nm url g))"
  shows "code = 200" "cc' = cc" "nid = n_ID n" "g = (if idxs \<noteq> [] then Some idxs else None)"
    "sy_store y' = sy_store y"
    "mg_sent (sy_mgr y') = mg_sent (sy_mgr y) @ [(se_stream sess, create_message (c_ID cc) req ports name idxs)]"
    "c_ExternalPort cc \<noteq> 0 \<Longrightarrow> ports \<noteq> [] \<Longrightarrow> map_of (px_routes (sy_proxy y')) (c_ExternalPort cc) =
       Some \<lparr>rt_containerID = c_ID cc, rt_nodeID = n_ID n, rt_hostPort = pm_host_port (hd ports)\<rparr>"
    "url = externalURL (ev_host ev) (c_ExternalPort cc)"
    "c_ExternalPort cc \<noteq> 0 \<Longrightarrow> ports \<noteq> [] \<Longrightarrow> ev_listen ev (c_ExternalPort cc) = Inr (c_ExternalPort cc) \<Longrightarrow>
       c_ExternalPort cc \<in> set (px_listeners (sy_proxy y'))"
proof -
  let ?y1 = "if c_ExternalPort cc \<noteq> 0 \<and> ports \<noteq> []
      then register_and_bind (ev_listen ev) (c_ExternalPort cc) (c_ID cc) (n_ID n) (pm_host_port (hd ports)) y else y"
  obtain y2 r2 where s: "sys_send sess (create_message (c_ID cc) req ports name idxs) ?y1 = (y2, r2)" by force
  then obtain u where r2: "r2 = Inr u" and y': "y' = y2"
    and all: "code = 200" "cc' = cc" "nid = n_ID n" "g = (if idxs \<noteq> [] then Some idxs else None)"
      "url = externalURL (ev_host ev) (c_ExternalPort cc)"
    using assms by (auto simp: hand_off_def JSON_def Let_def split: sum.splits)
  show "code = 200" "cc' = cc" "nid = n_ID n" "g = (if idxs \<noteq> [] then Some idxs else None)"
    "url = externalURL (ev_host ev) (c_ExternalPort cc)" by fact+
  show "sy_store y' = sy_store y" using sys_send_eqD [OF s] y' by simp
  show "mg_sent (sy_mgr y') = mg_sent (sy_mgr y) @
      [(se_stream sess, create_message (c_ID cc) req ports name idxs)]"
    using sys_send_Inr [OF s [unfolded r2]] y' by simp
  show "c_ExternalPort cc \<noteq> 0 \<Longrightarrow> ports \<noteq> [] \<Longrightarrow> map_of (px_routes (sy_proxy y')) (c_ExternalPort cc) =
       Some \<lparr>rt_containerID = c_ID cc, rt_nodeID = n_ID n, rt_hostPort = pm_host_port (hd ports)\<rparr>"
    using sys_send_eqD [OF s] y' by (simp add: register_and_bind_def)
  show "c_ExternalPort cc \<noteq> 0 \<Longrightarrow> ports \<noteq> [] \<Longrightarrow> ev_listen ev (c_ExternalPort cc) = Inr (c_ExternalPort cc) \<Longrightarrow>
       c_ExternalPort cc \<in> set (px_listeners (sy_proxy y'))"
    using sys_send_eqD [OF s] y' by (simp add: register_and_bind_def BindPort_listeners)
qed

lemma reserve_gpus_Inl_not_created:
  "reserve_gpus now cid n req y = (y', Inl rsp) \<Longrightarrow> \<exists>code msg. rsp = JSON code (BError msg) \<and> code \<noteq> 200"
  by (auto simp: reserve_gpus_def Let_def split: if_splits prod.splits sum.splits)

lemma create_on_created:
  assumes "create_on ev req n sess y = Some (y', JSON code (BCreated cc nid nm url g))"
  obtains y1 ext y2 cc0 y3 idxs where
    "external_port (newContainerID (ev_id ev)) req (portMappingsToProto (cq_PortMappings req)) y = Some (y1, Inr ext)"
    "InsertContainer (ev_now ev) (new_container (newContainerID (ev_id ev)) (n_ID n) req
       (portMappingsToProto (cq_PortMappings req)) (container_name ev req) ext) (sy_store y1) = (sy_store y2, Inr cc0)"
    "y2 = with_store (sy_store y2) y1"
    "reserve_gpus (ev_now ev) (newContainerID (ev_id ev)) n req y2 = (y3, Inr (idxs, indices_json idxs))"
    "hand_off ev req n sess (portMappingsToProto (cq_PortMappings req)) (container_name ev req)
       (cc0\<lparr>c_GPUIndicesJSON := indices_json idxs\<rparr>) idxs y3 = (y', JSON code (BCreated cc nid nm url g))"
proof -
  let ?cid = "newContainerID (ev_id ev)" and ?ports = "portMappingsToProto (cq_PortMappings req)"
  let ?name = "container_name ev req"
  from assms obtain y1 r1 where e: "external_port ?cid req ?ports y = Some (y1, r1)"
    by (auto simp: create_on_def Let_def split: option.splits)
  with assms obtain ext where r1: "r1 = Inr ext"
    by (cases r1) (auto simp: create_on_def Let_def JSON_def)
  obtain y2 r2 where ins: "on_sys (InsertContainer (ev_now ev)
      (new_container ?cid (n_ID n) req ?ports ?name ext)) y1 = (y2, r2)" by force
  with assms e r1 obtain cc0 where r2: "r2 = Inr cc0"
    by (cases r2) (auto simp: create_on_def Let_def JSON_def)
  obtain y3 r3 where res: "reserve_gpus (ev_now ev) ?cid n req y2 = (y3, r3)" by force
  have "\<exists>idxs j. r3 = Inr (idxs, j)"
  proof (cases r3)
    case (Inl rsp)
    with res obtain c msg where "rsp = JSON c (BError msg)" using reserve_gpus_Inl_not_created by blast
    with assms e r1 ins r2 res Inl show ?thesis by (simp add: create_on_def Let_def JSON_def)
  qed (cases "projr r3", auto)
  then obtain idxs j where r3: "r3 = Inr (idxs, j)" by blast
  have j: "j = indices_json idxs" using reserve_gpus_Inr(3) [OF res [unfolded r3]] .
  from assms e r1 ins r2 res r3 have "hand_off ev req n sess ?ports ?name (cc0\<lparr>c_GPUIndicesJSON := j\<rparr>) idxs y3 =
      (y', JSON code (BCreated cc nid nm url g))"
    by (simp add: create_on_def Let_def)
  with e r1 ins r2 res r3 j show ?thesis
    by (intro that) (auto simp: on_sys_pair)
qed

lemma give_gpus_containers:
  assumes "c_ID cc \<notin> c_ID ` set (st_containers s)" and "c_UpdatedAt cc = now" and "c_GPUIndicesJSON cc = []"
  shows "st_containers (give_gpus now nid (c_ID cc) idxs (add_container cc s)) =
    st_containers s @ [cc\<lparr>c_GPUIndicesJSON := indices_json idxs\<rparr>]"
proof -
  have "map (\<lambda>r. if c_ID r = c_ID cc then f r else r) (st_containers s) = st_containers s" for f
    using assms(1) by (intro map_idI) (metis imageI)
  moreover have "cc = cc\<lparr>c_GPUIndicesJSON := []\<rparr>" "cc\<lparr>c_GPUIndicesJSON := j, c_UpdatedAt := now\<rparr> = cc\<lparr>c_GPUIndicesJSON := j\<rparr>" for j
    using assms(2,3) by (cases cc; simp)+
  ultimately show ?thesis
    by (simp add: give_gpus_def update_container_def add_gpus_def indices_json_def del: render.simps)
qed

lemma give_gpus_tables [simp]:
  "st_ports (give_gpus now nid cid idxs s) = st_ports s" "st_nodes (give_gpus now nid cid idxs s) = st_nodes s"
  by (simp_all add: give_gpus_def add_gpus_def)

lemma holder_give_gpus:
  assumes "reservable nid cid idxs s \<or> idxs = []"
  shows "holder (give_gpus now nid cid idxs s) =
    (\<lambda>k. if fst k = nid \<and> snd k \<in> set idxs then Some cid else holder s k)"
  using assms by (auto simp: give_gpus_def holder_add_gpus)

lemma holder_add_container [simp]: "holder (add_container c s) = holder s" "holder (add_port p cid s) = holder s"
  by (simp_all add: holder_def add_container_def add_port_def)

lemma add_port_tables [simp]:
  "st_containers (add_port p cid s) = st_containers s" "st_nodes (add_port p cid s) = st_nodes s"
  "st_gpus (add_port p cid s) = st_gpus s"
  "st_ports (add_port p cid s) = st_ports s @ [\<lparr>p_port = p, p_container = cid\<rparr>]"
  by (simp_all add: add_port_def)

definition asked_gpus :: "create_req \<Rightarrow> u32 list \<Rightarrow> bool" where
  "asked_gpus req idxs \<longleftrightarrow> distinct idxs \<and>
     (if cq_GPUCount req = 0 then idxs = []
      else if cq_GPUIndices req \<noteq> [] then idxs = cq_GPUIndices req
      else length idxs = unat (cq_GPUCount req))"

definition route_of :: "string \<Rightarrow> string \<Rightarrow> port_mapping list \<Rightarrow> route" where
  "route_of cid nid ports = \<lparr>rt_containerID = cid, rt_nodeID = nid, rt_hostPort = pm_host_port (hd ports)\<rparr>"

text \<open>The state a successful creation leads to.\<close>

lemma create_on_success:
  assumes "create_on ev req n sess y = Some (y', JSON code (BCreated cc nid nm url g))"
  obtains idxs where
    "c_ID cc = newContainerID (ev_id ev)" "c_NodeID cc = n_ID n" "c_State cc = ''starting''"
    "c_Name cc = container_name ev req" "c_GPUIndicesJSON cc = indices_json idxs" "nid = n_ID n"
    "c_ID cc \<notin> c_ID ` set (st_containers (sy_store y))"
    "st_containers (sy_store y') = st_containers (sy_store y) @ [cc]"
    "st_nodes (sy_store y') = st_nodes (sy_store y)"
    "holder (sy_store y') = (\<lambda>k. if fst k = n_ID n \<and> snd k \<in> set idxs then Some (c_ID cc) else holder (sy_store y) k)"
    "\<forall>i \<in> set idxs. holder (sy_store y) (n_ID n, i) = None"
    "asked_gpus req idxs" "g = (if idxs \<noteq> [] then Some idxs else None)" "code = 200"
    "mg_sent (sy_mgr y') = mg_sent (sy_mgr y) @ [(se_stream sess, create_message (c_ID cc) req
       (portMappingsToProto (cq_PortMappings req)) (container_name ev req) idxs)]"
    "c_ExternalPort cc \<noteq> 0 \<Longrightarrow> cq_PortMappings req \<noteq> [] \<Longrightarrow>
       map_of (px_routes (sy_proxy y')) (c_ExternalPort cc) =
         Some (route_of (c_ID cc) (n_ID n) (portMappingsToProto (cq_PortMappings req)))"
    "if cq_ExternalPort req = 0 \<and> cq_PortMappings req \<noteq> []
     then 30000 \<le> c_ExternalPort cc \<and> c_ExternalPort cc \<le> 32767 \<and>
       c_ExternalPort cc \<notin> p_port ` set (st_ports (sy_store y)) \<and>
       st_ports (sy_store y') = st_ports (sy_store y) @ [\<lparr>p_port = c_ExternalPort cc, p_container = c_ID cc\<rparr>]
     else c_ExternalPort cc = cq_ExternalPort req \<and> st_ports (sy_store y') = st_ports (sy_store y)"
    "url = externalURL (ev_host ev) (c_ExternalPort cc)"
    "c_ExternalPort cc \<noteq> 0 \<Longrightarrow> cq_PortMappings req \<noteq> [] \<Longrightarrow>
       ev_listen ev (c_ExternalPort cc) = Inr (c_ExternalPort cc) \<Longrightarrow>
       c_ExternalPort cc \<in> set (px_listeners (sy_proxy y'))"
proof -
  let ?cid = "newContainerID (ev_id ev)" and ?ports = "portMappingsToProto (cq_PortMappings req)"
  let ?name = "container_name ev req" and ?now = "ev_now ev"
  from assms obtain y1 ext y2 cc0 y3 idxs where
    e: "external_port ?cid req ?ports y = Some (y1, Inr ext)" and
    i: "InsertContainer ?now (new_container ?cid (n_ID n) req ?ports ?name ext) (sy_store y1) = (sy_store y2, Inr cc0)" and
    y2: "y2 = with_store (sy_store y2) y1" and
    r: "reserve_gpus ?now ?cid n req y2 = (y3, Inr (idxs, indices_json idxs))" and
    h: "hand_off ev req n sess ?ports ?name (cc0\<lparr>c_GPUIndicesJSON := indices_json idxs\<rparr>) idxs y3 =
       (y', JSON code (BCreated cc nid nm url g))"
    by (rule create_on_created)
  note I = InsertContainer_Inr [OF i] and R = reserve_gpus_Inr [OF r] and H = hand_off_created [OF h]
  have pn: "?ports \<noteq> [] \<longleftrightarrow> cq_PortMappings req \<noteq> []" by (simp add: portMappingsToProto_def)
  have cc0: "c_ID cc0 = ?cid" "c_NodeID cc0 = n_ID n" "c_State cc0 = ''starting''" "c_Name cc0 = ?name"
    "c_GPUIndicesJSON cc0 = []" "c_ExternalPort cc0 = ext" "c_UpdatedAt cc0 = ?now"
    using I(1) by (simp_all add: new_container_def) (simp add: filled_def)
  have cc: "cc = cc0\<lparr>c_GPUIndicesJSON := indices_json idxs\<rparr>" by (rule H(2))
  have s1: "st_containers (sy_store y1) = st_containers (sy_store y)" "st_nodes (sy_store y1) = st_nodes (sy_store y)"
    "st_gpus (sy_store y1) = st_gpus (sy_store y)"
    using external_port_Inr(1) [OF e] by (auto simp: tables_eq_iff split: if_splits)
  have s2: "tables (sy_store y2) = tables (add_container cc0 (sy_store y1))" by (rule I(4))
  have s3: "tables (sy_store y') = tables (give_gpus ?now (n_ID n) ?cid idxs (sy_store y2))"
    using R(2) H(5) by simp
  have s3': "tables (sy_store y') = tables (give_gpus ?now (n_ID n) ?cid idxs (add_container cc0 (sy_store y1)))"
    using s2 s3 by (simp add: tables_eq_iff give_gpus_def update_container_def add_gpus_def)
  have fresh: "c_ID cc0 \<notin> c_ID ` set (st_containers (sy_store y1))"
    using I(1,2) by simp
  have rows: "st_containers (sy_store y') = st_containers (sy_store y) @ [cc]"
    using s3' give_gpus_containers [OF fresh cc0(7,5)] cc0(1) s1(1) cc by (simp add: tables_eq_iff)
  have hold1: "holder (sy_store y1) = holder (sy_store y)" using s1(3) by (simp add: holder_def)
  have hold2: "holder (sy_store y2) = holder (sy_store y)"
    using holder_cong [OF s2] hold1 by simp
  have hold: "holder (sy_store y') = (\<lambda>k. if fst k = n_ID n \<and> snd k \<in> set idxs then Some ?cid else holder (sy_store y) k)"
    unfolding holder_cong [OF s3] holder_give_gpus [OF R(1)] hold2 ..
  have free: "\<forall>i \<in> set idxs. holder (sy_store y) (n_ID n, i) = None"
    using R(1) by (auto simp: reservable_def holder_None_iff simp flip: hold2)
  have asked: "asked_gpus req idxs"
    using R(1,7-9) by (auto simp: asked_gpus_def reservable_def)
  have sent: "mg_sent (sy_mgr y3) = mg_sent (sy_mgr y)"
    using R(6) external_port_Inr(2) [OF e] by (subst (asm) y2) auto
  have port: "if cq_ExternalPort req = 0 \<and> cq_PortMappings req \<noteq> []
     then 30000 \<le> ext \<and> ext \<le> 32767 \<and> ext \<notin> p_port ` set (st_ports (sy_store y)) \<and>
       st_ports (sy_store y') = st_ports (sy_store y) @ [\<lparr>p_port = ext, p_container = ?cid\<rparr>]
     else ext = cq_ExternalPort req \<and> st_ports (sy_store y') = st_ports (sy_store y)"
    using external_port_Inr(1) [OF e] s3' pn by (auto simp: tables_eq_iff split: if_splits)
  have f: "c_ID cc = ?cid" "c_NodeID cc = n_ID n" "c_State cc = ''starting''" "c_Name cc = ?name"
    "c_GPUIndicesJSON cc = indices_json idxs" "c_ExternalPort cc = ext"
    using cc0 by (simp_all add: cc)
  have s': "st_nodes (sy_store y') = st_nodes (sy_store y)"
    using s3' s1(2) by (simp add: tables_eq_iff)
  have sent': "mg_sent (sy_mgr y') = mg_sent (sy_mgr y) @
      [(se_stream sess, create_message (c_ID cc) req ?ports ?name idxs)]"
    using H(6) sent cc0(1) f(1) by simp
  have route: "c_ExternalPort cc \<noteq> 0 \<Longrightarrow> cq_PortMappings req \<noteq> [] \<Longrightarrow>
       map_of (px_routes (sy_proxy y')) (c_ExternalPort cc) = Some (route_of (c_ID cc) (n_ID n) ?ports)"
    using H(7) cc0 f pn by (simp add: route_of_def)
  have new: "c_ID cc \<notin> c_ID ` set (st_containers (sy_store y))"
    using fresh s1(1) cc0(1) f(1) by simp
  show ?thesis
    by (rule that [OF f(1-5) H(3) new rows s' hold [folded f(1)] free asked H(4,1) sent' route])
      (use port f H(8,9) pn in \<open>simp_all add: cc\<close>)
qed

section \<open>A creation with resources at hand\<close>

definition gpus_available :: "create_req \<Rightarrow> node \<Rightarrow> store \<Rightarrow> bool" where
  "gpus_available req n s \<longleftrightarrow> cq_GPUCount req = 0 \<or>
     (if cq_GPUIndices req \<noteq> []
      then distinct (cq_GPUIndices req) \<and> (\<forall>i \<in> set (cq_GPUIndices req). (n_ID n, i) \<notin> set (gpu_keys s))
      else unat (cq_GPUCount req) \<le> unat (n_GpuCount n) - node_usage (n_ID n) s)"

definition creatable :: "env \<Rightarrow> create_req \<Rightarrow> node \<Rightarrow> store \<Rightarrow> bool" where
  "creatable ev req n s \<longleftrightarrow> healthy s \<and> n \<in> set (st_nodes s) \<and>
     newContainerID (ev_id ev) \<notin> set (container_ids s) \<and> \<not> high_bit (cq_MemoryBytes req) \<and>
     cq_ExternalPort req = 0 \<and>
     (cq_PortMappings req \<noteq> [] \<longrightarrow> (\<exists>p. 30000 \<le> p \<and> p \<le> 32767 \<and> p \<notin> p_port ` set (st_ports s))) \<and>
     gpus_available req n s"

lemma gpus_available_cong: "st_gpus t = st_gpus s \<Longrightarrow> gpus_available req n t = gpus_available req n s"
  by (simp add: gpus_available_def gpu_keys_def node_usage_def)

lemma reserve_gpus_ok:
  assumes "st_faults (sy_store y) = []" and "cid \<in> c_ID ` set (st_containers (sy_store y))"
    and "n \<in> set (st_nodes (sy_store y))" and "gpus_available req n (sy_store y)"
  shows "\<exists>idxs. reserve_gpus now cid n req y =
    (with_store (give_gpus now (n_ID n) cid idxs (sy_store y)) y, Inr (idxs, indices_json idxs))"
proof (cases "cq_GPUCount req = 0")
  case True
  then show ?thesis by (intro exI [of _ "[]"]) (simp add: reserve_gpus_def give_gpus_def indices_json_def)
next
  case False
  let ?s = "sy_store y"
  have nid: "n_ID n \<in> n_ID ` set (st_nodes ?s)" using assms(3) by simp
  have patch: "on_sys (UpdateContainerGPUIndices now cid (render (JArr (map json_u32 idxs))))
      (with_store (add_gpus (gpu_rows now (n_ID n) cid idxs) ?s) y) =
      (with_store (give_gpus now (n_ID n) cid idxs ?s) y, Inr ())" if "idxs \<noteq> []" for idxs
    using that assms(1)
    by (simp add: on_sys_alt no_fault_updates give_gpus_def indices_json_def add_gpus_def del: render.simps)
  show ?thesis
  proof (cases "cq_GPUIndices req = []")
    case True
    have "0 < unat (cq_GPUCount req)" using False by (simp add: unat_gt_0)
    then have pos: "0 < int (unat (cq_GPUCount req))" by (simp only: of_nat_0_less_iff)
    moreover have "nat (int (unat (cq_GPUCount req))) \<le> unat (n_GpuCount n) - node_usage (n_ID n) ?s"
      using assms(4) False True by (simp only: gpus_available_def nat_int) simp
    ultimately obtain idxs where a: "AllocGPUs now (n_ID n) cid (int (unat (cq_GPUCount req))) (n_GpuCount n) ?s =
        (add_gpus (gpu_rows now (n_ID n) cid idxs) ?s, Inr idxs)" and l: "int (length idxs) = int (unat (cq_GPUCount req))"
      using AllocGPUs_enough [OF assms(1,2) nid] by blast
    have ne: "idxs \<noteq> []" using l pos by auto
    have "on_sys (AllocGPUs now (n_ID n) cid (int (unat (cq_GPUCount req))) (n_GpuCount n)) y =
        (with_store (add_gpus (gpu_rows now (n_ID n) cid idxs) ?s) y, Inr idxs)"
      by (simp only: on_sys_alt a fst_conv snd_conv)
    then show ?thesis
      using True False ne patch [OF ne]
      by (intro exI [of _ idxs]) (simp add: reserve_gpus_def indices_json_def Let_def del: render.simps)
  next
    case ix: False
    let ?ix = "cq_GPUIndices req"
    have "reservable (n_ID n) cid ?ix ?s"
      using assms(2-4) False ix by (auto simp: gpus_available_def reservable_def)
    then have "on_sys (AllocSpecificGPUs now (n_ID n) cid ?ix) y =
        (with_store (add_gpus (gpu_rows now (n_ID n) cid ?ix) ?s) y, Inr ())"
      using AllocSpecificGPUs_ok [OF assms(1)] by (simp add: on_sys_alt)
    then show ?thesis
      using ix False patch [OF ix]
      by (intro exI [of _ ?ix]) (simp add: reserve_gpus_def indices_json_def Let_def del: render.simps)
  qed
qed

definition with_port :: "u32 \<Rightarrow> string \<Rightarrow> store \<Rightarrow> store" where
  "with_port ext cid s = (if ext = 0 then s else add_port ext cid s)"

lemma AllocPort_free:
  assumes "st_faults s = []" and "stop < - 1" and "start \<le> q" "q \<le> stop" "q \<notin> p_port ` set (st_ports s)"
  shows "\<exists>p. AllocPort start stop cid s = Some (add_port p cid s, Inr p)"
proof (cases "find (\<lambda>q. q \<notin> set (used_ports start stop s)) (map of_nat [unat start..<Suc (unat stop)])")
  case None
  then have "port_scan (used_ports start stop s) start stop = Some None"
    using assms(2) by (simp add: port_scan_eq_find del: upt_Suc)
  then have "{start..stop} \<subseteq> set (used_ports start stop s)" using port_scan_None [OF assms(2)] by simp
  with assms(3-5) show ?thesis by (auto simp: set_used_ports)
next
  case (Some p)
  then show ?thesis using AllocPort_no_faults [OF assms(1,2), of start cid] by (simp del: upt_Suc)
qed

text \<open>Up to the reservation nothing depends on the GPUs: the port and the row are in place.\<close>

definition insertable :: "env \<Rightarrow> create_req \<Rightarrow> node \<Rightarrow> store \<Rightarrow> bool" where
  "insertable ev req n s \<longleftrightarrow> healthy s \<and> n \<in> set (st_nodes s) \<and>
     newContainerID (ev_id ev) \<notin> set (container_ids s) \<and> \<not> high_bit (cq_MemoryBytes req) \<and>
     cq_ExternalPort req = 0 \<and>
     (cq_PortMappings req \<noteq> [] \<longrightarrow> (\<exists>p. 30000 \<le> p \<and> p \<le> 32767 \<and> p \<notin> p_port ` set (st_ports s)))"

lemma creatable_iff: "creatable ev req n s \<longleftrightarrow> insertable ev req n s \<and> gpus_available req n s"
  by (auto simp: creatable_def insertable_def)

lemma external_port_ok:
  assumes "insertable ev req n (sy_store y)"
  obtains ext where
    "external_port cid req (portMappingsToProto (cq_PortMappings req)) y =
       Some (with_store (with_port ext cid (sy_store y)) y, Inr ext)"
    "ext \<notin> p_port ` set (st_ports (sy_store y)) \<or> ext = 0" "ext = 0 \<longleftrightarrow> portMappingsToProto (cq_PortMappings req) = []"
proof (cases "portMappingsToProto (cq_PortMappings req) = []")
  case True
  then show ?thesis
    using assms by (intro that [of 0]) (simp_all add: external_port_def insertable_def with_port_def)
next
  case False
  let ?s = "sy_store y"
  have nf: "st_faults ?s = []" using assms by (auto simp: insertable_def dest: healthyD)
  from False obtain q where "30000 \<le> q" "q \<le> 32767" "q \<notin> p_port ` set (st_ports ?s)"
    using assms by (auto simp: insertable_def portMappingsToProto_def)
  then have "\<exists>p. AllocPort 30000 32767 cid ?s = Some (add_port p cid ?s, Inr p)"
    by (intro AllocPort_free [OF nf]) simp_all
  then obtain p where p: "AllocPort 30000 32767 cid ?s = Some (add_port p cid ?s, Inr p)" by blast
  have "(32767 :: u32) < - 1" by simp
  from AllocPort_smallest [OF p this] have "30000 \<le> p" "p \<notin> p_port ` set (st_ports ?s)" by auto
  moreover from \<open>30000 \<le> p\<close> have "p \<noteq> 0" by auto
  ultimately show ?thesis
    using p False assms
    by (intro that [of p]) (simp_all add: external_port_def insertable_def with_port_def with_store_def)
qed

lemma create_on_inserted:
  fixes ev req n sess y
  defines "cid \<equiv> newContainerID (ev_id ev)" and "ports \<equiv> portMappingsToProto (cq_PortMappings req)"
    and "name \<equiv> container_name ev req"
  assumes "insertable ev req n (sy_store y)"
  obtains ext cc0 where
    "cc0 = filled (ev_now ev) (new_container cid (n_ID n) req ports name ext)"
    "ext \<notin> p_port ` set (st_ports (sy_store y)) \<or> ext = 0" "ext = 0 \<longleftrightarrow> ports = []"
    "create_on ev req n sess y =
       (case reserve_gpus (ev_now ev) cid n req (with_store (add_container cc0 (with_port ext cid (sy_store y))) y) of
          (y3, Inl rsp) \<Rightarrow> Some (y3, rsp)
        | (y3, Inr (idxs, j)) \<Rightarrow>
            Some (hand_off ev req n sess ports name (cc0\<lparr>c_GPUIndicesJSON := j\<rparr>) idxs y3))"
proof -
  let ?s = "sy_store y" and ?now = "ev_now ev"
  have nf: "st_faults ?s = []" using assms(4) by (auto simp: insertable_def dest: healthyD)
  obtain ext where ext: "external_port cid req ports y = Some (with_store (with_port ext cid ?s) y, Inr ext)"
    "ext \<notin> p_port ` set (st_ports ?s) \<or> ext = 0" "ext = 0 \<longleftrightarrow> ports = []"
    unfolding ports_def by (rule external_port_ok [OF assms(4)])
  let ?y1 = "with_store (with_port ext cid ?s) y"
  let ?c = "new_container cid (n_ID n) req ports name ext"
  have "\<not> high_bit (c_MemoryBytes ?c)" "c_ID ?c \<notin> c_ID ` set (st_containers (sy_store ?y1))"
    "c_NodeID ?c \<in> n_ID ` set (st_nodes (sy_store ?y1))" "st_faults (sy_store ?y1) = []"
    using assms(4) nf by (auto simp: insertable_def new_container_def with_port_def container_ids_def cid_def add_port_def)
  then have ins: "on_sys (InsertContainer ?now ?c) ?y1 =
      (with_store (add_container (filled ?now ?c) (with_port ext cid ?s)) y, Inr (filled ?now ?c))"
    by (simp add: on_sys_alt InsertContainer_no_faults)
  show ?thesis
    by (rule that [OF refl ext(2,3)])
      (use ext(1) ins in \<open>simp add: create_on_def Let_def flip: cid_def ports_def name_def\<close>)
qed

lemma create_on_hand_off:
  fixes ev req n sess y
  defines "cid \<equiv> newContainerID (ev_id ev)" and "ports \<equiv> portMappingsToProto (cq_PortMappings req)"
    and "name \<equiv> container_name ev req"
  assumes "creatable ev req n (sy_store y)"
  obtains ext idxs cc0 where
    "cc0 = filled (ev_now ev) (new_container cid (n_ID n) req ports name ext)"
    "ext \<notin> p_port ` set (st_ports (sy_store y)) \<or> ext = 0" "ext = 0 \<longleftrightarrow> ports = []"
    "create_on ev req n sess y = Some (hand_off ev req n sess ports name
       (cc0\<lparr>c_GPUIndicesJSON := indices_json idxs\<rparr>) idxs
       (with_store (give_gpus (ev_now ev) (n_ID n) cid idxs
          (add_container cc0 (with_port ext cid (sy_store y)))) y))"
proof -
  let ?s = "sy_store y" and ?now = "ev_now ev"
  have "insertable ev req n ?s" using assms(4) by (simp add: creatable_iff)
  then obtain ext cc0 where cc0: "cc0 = filled ?now (new_container cid (n_ID n) req ports name ext)"
    and ext: "ext \<notin> p_port ` set (st_ports ?s) \<or> ext = 0" "ext = 0 \<longleftrightarrow> ports = []"
    and c: "create_on ev req n sess y =
       (case reserve_gpus ?now cid n req (with_store (add_container cc0 (with_port ext cid ?s)) y) of
          (y3, Inl rsp) \<Rightarrow> Some (y3, rsp)
        | (y3, Inr (idxs, j)) \<Rightarrow>
            Some (hand_off ev req n sess ports name (cc0\<lparr>c_GPUIndicesJSON := j\<rparr>) idxs y3))"
    unfolding cid_def ports_def name_def by (rule create_on_inserted)
  let ?y2 = "with_store (add_container cc0 (with_port ext cid ?s)) y"
  have "st_gpus (sy_store ?y2) = st_gpus ?s" by (simp add: with_port_def)
  then have "gpus_available req n (sy_store ?y2)"
    using gpus_available_cong [of "sy_store ?y2" ?s] assms(4) by (simp add: creatable_def)
  moreover have "cid \<in> c_ID ` set (st_containers (sy_store ?y2))"
    by (simp add: cc0 new_container_def)
  moreover have "n \<in> set (st_nodes (sy_store ?y2))" "st_faults (sy_store ?y2) = []"
    using assms(4) by (auto simp: creatable_def with_port_def add_port_def dest: healthyD)
  ultimately obtain idxs where res: "reserve_gpus ?now cid n req ?y2 =
      (with_store (give_gpus ?now (n_ID n) cid idxs (sy_store ?y2)) ?y2, Inr (idxs, indices_json idxs))"
    using reserve_gpus_ok [of ?y2 cid n req ?now] by blast
  show ?thesis
    by (rule that [OF cc0 ext, of idxs]) (use c res in simp)
qed

text \<open>A reservation that meets a held GPU: the answer is 409, and the port and the row stay.\<close>

lemma create_on_conflict:
  fixes ev req n sess y
  defines "cid \<equiv> newContainerID (ev_id ev)" and "ports \<equiv> portMappingsToProto (cq_PortMappings req)"
  assumes i: "insertable ev req n (sy_store y)" and "cq_GPUCount req \<noteq> 0" "cq_GPUIndices req \<noteq> []"
    and taken: "k \<in> set (cq_GPUIndices req)" "holder (sy_store y) (n_ID n, k) \<noteq> None"
  shows "\<exists>y' msg ext cc. create_on ev req n sess y = Some (y', JSON 409 (BError msg)) \<and>
    (ext = 0 \<longleftrightarrow> ports = []) \<and> c_ID cc = cid \<and> c_State cc = ''starting'' \<and> c_ExternalPort cc = ext \<and>
    st_containers (sy_store y') = st_containers (sy_store y) @ [cc] \<and>
    st_ports (sy_store y') = st_ports (sy_store y) @ (if ext = 0 then [] else [\<lparr>p_port = ext, p_container = cid\<rparr>]) \<and>
    st_gpus (sy_store y') = st_gpus (sy_store y)"
proof -
  let ?s = "sy_store y" and ?now = "ev_now ev" and ?ix = "cq_GPUIndices req"
  obtain ext cc0 where cc0: "cc0 = filled ?now (new_container cid (n_ID n) req ports (container_name ev req) ext)"
    and ext: "ext = 0 \<longleftrightarrow> ports = []"
    and c: "create_on ev req n sess y =
       (case reserve_gpus ?now cid n req (with_store (add_container cc0 (with_port ext cid ?s)) y) of
          (y3, Inl rsp) \<Rightarrow> Some (y3, rsp)
        | (y3, Inr (idxs, j)) \<Rightarrow> Some (hand_off ev req n sess ports (container_name ev req)
            (cc0\<lparr>c_GPUIndicesJSON := j\<rparr>) idxs y3))"
    unfolding cid_def ports_def by (rule create_on_inserted [OF i])
  let ?t = "add_container cc0 (with_port ext cid ?s)"
  have t: "st_faults ?t = []" "cid \<in> c_ID ` set (st_containers ?t)" "n_ID n \<in> n_ID ` set (st_nodes ?t)"
    using i by (auto simp: insertable_def with_port_def add_port_def cc0 new_container_def dest: healthyD)
  have "holder ?t = holder ?s" by (simp add: with_port_def)
  then have "\<not> reservable (n_ID n) cid ?ix ?t" using taken by (auto simp: reservable_def holder_None_iff [symmetric])
  from AllocSpecificGPUs_taken [OF t this, of ?now] obtain j t' where
    a: "AllocSpecificGPUs ?now (n_ID n) cid ?ix ?t = (t', Inl (ErrGPUTaken j (n_ID n)))" by blast
  from AllocSpecificGPUs_Inl [OF a] have "tables t' = tables ?t" .
  moreover have "create_on ev req n sess y =
      Some (with_store t' y, JSON 409 (BError (err_Error (ErrGPUTaken j (n_ID n)))))"
    unfolding c using assms(4,5) a by (simp add: reserve_gpus_def on_sys_alt is_conflict_def)
  ultimately show ?thesis
    using ext by (intro exI [of _ "with_store t' y"] exI [of _ ext] exI [of _ cc0] exI conjI)
      (auto simp: cc0 new_container_def tables_eq_iff with_port_def add_port_def)
qed

text \<open>The last step, on a stream that works and on one that does not.\<close>

lemma hand_off_ok:
  assumes "map_of (mg_broken (sy_mgr y)) (se_stream sess) = None"
  shows "\<exists>y'. hand_off ev req n sess ports name cc idxs y = (y', JSON 200 (BCreated cc (n_ID n) (n_Name n)
    (externalURL (ev_host ev) (c_ExternalPort cc)) (if idxs \<noteq> [] then Some idxs else None)))"
proof -
  let ?y1 = "if c_ExternalPort cc \<noteq> 0 \<and> ports \<noteq> []
      then register_and_bind (ev_listen ev) (c_ExternalPort cc) (c_ID cc) (n_ID n) (pm_host_port (hd ports)) y else y"
  let ?msg = "create_message (c_ID cc) req ports name idxs"
  have "sy_mgr ?y1 = sy_mgr y" by simp
  then have "\<exists>y2. sys_send sess ?msg ?y1 = (y2, Inr ())"
    using assms by (simp add: sys_send_def Send_def stream_send_def)
  then obtain y2 where "sys_send sess ?msg ?y1 = (y2, Inr ())" by blast
  then show ?thesis by (simp add: hand_off_def Let_def)
qed

lemma hand_off_broken:
  assumes "map_of (mg_broken (sy_mgr y)) (se_stream sess) = Some m"
  shows "hand_off ev req n sess ports name cc idxs y =
    (create_cleanup (cq_GPUCount req > 0) (c_ID cc) (c_ExternalPort cc)
       (if c_ExternalPort cc \<noteq> 0 \<and> ports \<noteq> []
        then register_and_bind (ev_listen ev) (c_ExternalPort cc) (c_ID cc) (n_ID n) (pm_host_port (hd ports)) y
        else y),
     JSON 500 (BError (''send create: '' @ m)))"
proof -
  have "sys_send sess msg y1 = (y1, Inl (ErrMsg m))" if "sy_mgr y1 = sy_mgr y" for msg y1
    using assms that by (simp add: sys_send_def Send_def stream_send_def)
  then show ?thesis by (simp add: hand_off_def Let_def)
qed

lemma create_cleanup_proxy [simp]: "sy_proxy (create_cleanup g cid ext y) = sy_proxy y"
  by (simp add: create_cleanup_def Let_def)

lemma cleanup_store:
  assumes "st_faults (sy_store y) = []"
  shows "sy_store (create_cleanup g cid ext y) = (sy_store y)\<lparr>
    st_containers := [r \<leftarrow> st_containers (sy_store y). c_ID r \<noteq> cid],
    st_gpus := [g \<leftarrow> st_gpus (sy_store y). g_container g \<noteq> cid],
    st_ports := (if ext = 0 then st_ports (sy_store y) else [r \<leftarrow> st_ports (sy_store y). p_port r \<noteq> ext])\<rparr>"
  using assms by (cases g; cases "ext = 0") (simp_all add: create_cleanup_def no_fault_updates free_gpus_def)

text \<open>The cleanup gives back row, devices and port: the store is the one before the creation.\<close>

lemma cleanup_restores:
  assumes "healthy s" and "cid \<notin> set (container_ids s)" and "ext \<notin> p_port ` set (st_ports s) \<or> ext = 0"
    and "c_ID cc = cid" and "sy_store y = give_gpus now nid cid idxs (add_container cc (with_port ext cid s))"
  shows "sy_store (create_cleanup g cid ext y) = s"
proof -
  let ?t = "give_gpus now nid cid idxs (add_container cc (with_port ext cid s))"
  have nf: "st_faults s = []" and int: "integrity s" using assms(1) by (auto dest: healthyD)
  have tf: "st_faults ?t = []"
    using nf by (simp add: give_gpus_def add_gpus_def with_port_def add_port_def)
  have fresh: "c_ID r \<noteq> cid" if "r \<in> set (st_containers s)" for r
    using assms(2) that by (auto simp: container_ids_def)
  have "map (\<lambda>r. if c_ID r = cid then f r else r) (st_containers s) = st_containers s" for f
    using fresh by (intro map_idI) auto
  then have cs: "[r \<leftarrow> st_containers ?t. c_ID r \<noteq> cid] = st_containers s"
    using fresh assms(4) by (auto simp: give_gpus_def update_container_def add_gpus_def with_port_def filter_eq_self)
  have "g_container g \<noteq> cid" if "g \<in> set (st_gpus s)" for g
    using int that assms(2) by (auto simp: integrity_def image_subset_iff)
  then have gs: "[g \<leftarrow> st_gpus ?t. g_container g \<noteq> cid] = st_gpus s"
    by (auto simp: give_gpus_def add_gpus_def with_port_def gpu_rows_def filter_eq_self filter_empty_conv)
  have ps: "(if ext = 0 then st_ports ?t else [r \<leftarrow> st_ports ?t. p_port r \<noteq> ext]) = st_ports s"
    using assms(3) by (auto simp: with_port_def intro!: filter_eq_self)
  have "sy_store (create_cleanup g cid ext y) =
      ?t\<lparr>st_containers := [r \<leftarrow> st_containers ?t. c_ID r \<noteq> cid], st_gpus := [g \<leftarrow> st_gpus ?t. g_container g \<noteq> cid],
         st_ports := (if ext = 0 then st_ports ?t else [r \<leftarrow> st_ports ?t. p_port r \<noteq> ext])\<rparr>"
    using cleanup_store [of y g cid ext] tf by (simp only: assms(5))
  also have "\<dots> = s"
    unfolding cs gs ps using nf by (cases s) (simp add: give_gpus_def add_gpus_def update_container_def add_container_def with_port_def add_port_def)
  finally show ?thesis .
qed

lemma create_on_send_fails:
  assumes "creatable ev req n (sy_store y)" and "map_of (mg_broken (sy_mgr y)) (se_stream sess) = Some m"
  shows "\<exists>y'. create_on ev req n sess y = Some (y', JSON 500 (BError (''send create: '' @ m))) \<and>
    sy_store y' = sy_store y \<and>
    (cq_PortMappings req \<noteq> [] \<longrightarrow> (\<exists>ext. ext \<noteq> 0 \<and> map_of (px_routes (sy_proxy y')) ext =
       Some (route_of (newContainerID (ev_id ev)) (n_ID n) (portMappingsToProto (cq_PortMappings req)))))"
proof -
  let ?cid = "newContainerID (ev_id ev)" and ?ports = "portMappingsToProto (cq_PortMappings req)"
  obtain ext idxs cc0 where c: "cc0 = filled (ev_now ev) (new_container ?cid (n_ID n) req ?ports (container_name ev req) ext)"
    "ext \<notin> p_port ` set (st_ports (sy_store y)) \<or> ext = 0" "ext = 0 \<longleftrightarrow> ?ports = []"
    "create_on ev req n sess y = Some (hand_off ev req n sess ?ports (container_name ev req)
       (cc0\<lparr>c_GPUIndicesJSON := indices_json idxs\<rparr>) idxs
       (with_store (give_gpus (ev_now ev) (n_ID n) ?cid idxs
          (add_container cc0 (with_port ext ?cid (sy_store y)))) y))"
    by (rule create_on_hand_off [OF assms(1)])
  have cc0: "c_ID cc0 = ?cid" "c_ExternalPort cc0 = ext" using c(1) by (simp_all add: new_container_def)
  let ?y3 = "with_store (give_gpus (ev_now ev) (n_ID n) ?cid idxs
      (add_container cc0 (with_port ext ?cid (sy_store y)))) y"
  let ?y4 = "if ext \<noteq> 0 \<and> ?ports \<noteq> []
      then register_and_bind (ev_listen ev) ext ?cid (n_ID n) (pm_host_port (hd ?ports)) ?y3 else ?y3"
  have "map_of (mg_broken (sy_mgr ?y3)) (se_stream sess) = Some m" using assms(2) by simp
  from hand_off_broken [OF this, of ev req n ?ports "container_name ev req" "cc0\<lparr>c_GPUIndicesJSON := indices_json idxs\<rparr>" idxs]
  have 1: "create_on ev req n sess y = Some (create_cleanup (cq_GPUCount req > 0) ?cid ext ?y4,
      JSON 500 (BError (''send create: '' @ m)))"
    by (simp add: c(4) cc0)
  have "sy_store ?y4 = sy_store ?y3" by simp
  then have 2: "sy_store (create_cleanup (cq_GPUCount req > 0) ?cid ext ?y4) = sy_store y"
    using assms(1) c(2) cc0(1)
    by (intro cleanup_restores [where nid = "n_ID n" and idxs = idxs and cc = cc0 and now = "ev_now ev"])
      (simp_all add: creatable_def)
  have 3: "map_of (px_routes (sy_proxy (create_cleanup (cq_GPUCount req > 0) ?cid ext ?y4))) ext =
      Some (route_of ?cid (n_ID n) ?ports)" if "?ports \<noteq> []"
    using that c(3) by (simp add: register_and_bind_def route_of_def)
  have "?ports \<noteq> [] \<longleftrightarrow> cq_PortMappings req \<noteq> []" by (simp add: portMappingsToProto_def)
  with 1 2 3 c(3) show ?thesis by blast
qed

lemma create_on_ok:
  assumes "creatable ev req n (sy_store y)" and "map_of (mg_broken (sy_mgr y)) (se_stream sess) = None"
  shows "\<exists>y' cc url g. create_on ev req n sess y = Some (y', JSON 200 (BCreated cc (n_ID n) (n_Name n) url g))"
proof -
  let ?cid = "newContainerID (ev_id ev)" and ?ports = "portMappingsToProto (cq_PortMappings req)"
  obtain ext idxs cc0 where c: "create_on ev req n sess y = Some (hand_off ev req n sess ?ports (container_name ev req)
       (cc0\<lparr>c_GPUIndicesJSON := indices_json idxs\<rparr>) idxs
       (with_store (give_gpus (ev_now ev) (n_ID n) ?cid idxs
          (add_container cc0 (with_port ext ?cid (sy_store y)))) y))"
    by (rule create_on_hand_off [OF assms(1)])
  let ?y3 = "with_store (give_gpus (ev_now ev) (n_ID n) ?cid idxs
      (add_container cc0 (with_port ext ?cid (sy_store y)))) y"
  let ?cc = "cc0\<lparr>c_GPUIndicesJSON := indices_json idxs\<rparr>"
  have "map_of (mg_broken (sy_mgr ?y3)) (se_stream sess) = None" using assms(2) by simp
  from hand_off_ok [OF this] obtain y' where "hand_off ev req n sess ?ports (container_name ev req) ?cc idxs ?y3 =
      (y', JSON 200 (BCreated ?cc (n_ID n) (n_Name n) (externalURL (ev_host ev) (c_ExternalPort ?cc))
        (if idxs \<noteq> [] then Some idxs else None)))" by blast
  then show ?thesis unfolding c by blast
qed

text \<open>A port that the user chose is taken as it is: no lookup, no row of the port table.\<close>

definition user_creatable :: "env \<Rightarrow> create_req \<Rightarrow> node \<Rightarrow> store \<Rightarrow> bool" where
  "user_creatable ev req n s \<longleftrightarrow> healthy s \<and> n \<in> set (st_nodes s) \<and>
     newContainerID (ev_id ev) \<notin> set (container_ids s) \<and> \<not> high_bit (cq_MemoryBytes req) \<and>
     cq_ExternalPort req \<noteq> 0 \<and> gpus_available req n s"

lemma create_on_user_hand_off:
  fixes ev req n sess y
  defines "cid \<equiv> newContainerID (ev_id ev)" and "ports \<equiv> portMappingsToProto (cq_PortMappings req)"
    and "name \<equiv> container_name ev req"
  assumes u: "user_creatable ev req n (sy_store y)"
  obtains idxs cc0 where
    "cc0 = filled (ev_now ev) (new_container cid (n_ID n) req ports name (cq_ExternalPort req))"
    "create_on ev req n sess y = Some (hand_off ev req n sess ports name
       (cc0\<lparr>c_GPUIndicesJSON := indices_json idxs\<rparr>) idxs
       (with_store (give_gpus (ev_now ev) (n_ID n) cid idxs (add_container cc0 (sy_store y))) y))"
proof -
  let ?s = "sy_store y" and ?now = "ev_now ev"
  let ?c = "new_container cid (n_ID n) req ports name (cq_ExternalPort req)"
  define cc0 where "cc0 = filled ?now ?c"
  let ?y2 = "with_store (add_container cc0 ?s) y"
  have nf: "st_faults ?s = []" using u by (auto simp: user_creatable_def dest: healthyD)
  have "InsertContainer ?now ?c ?s = (add_container cc0 ?s, Inr cc0)"
    unfolding cc0_def by (rule InsertContainer_no_faults)
      (use u nf in \<open>auto simp: user_creatable_def new_container_def container_ids_def cid_def\<close>)
  then have ins: "on_sys (InsertContainer ?now ?c) y = (?y2, Inr cc0)" by (simp add: on_sys_alt)
  have "gpus_available req n (sy_store ?y2)"
    using gpus_available_cong [of "sy_store ?y2" ?s] u by (simp add: user_creatable_def)
  moreover have "cid \<in> c_ID ` set (st_containers (sy_store ?y2))"
    by (simp add: cc0_def new_container_def)
  moreover have "n \<in> set (st_nodes (sy_store ?y2))" "st_faults (sy_store ?y2) = []"
    using u nf by (simp_all add: user_creatable_def)
  ultimately obtain idxs where res: "reserve_gpus ?now cid n req ?y2 =
      (with_store (give_gpus ?now (n_ID n) cid idxs (sy_store ?y2)) ?y2, Inr (idxs, indices_json idxs))"
    using reserve_gpus_ok [of ?y2 cid n req ?now] by blast
  show ?thesis
    by (rule that [OF cc0_def, of idxs])
      (use u ins res in \<open>simp add: create_on_def external_port_def user_creatable_def Let_def flip: cid_def ports_def name_def\<close>)
qed

lemma create_on_user_ok:
  assumes "user_creatable ev req n (sy_store y)" and "map_of (mg_broken (sy_mgr y)) (se_stream sess) = None"
  shows "\<exists>y' cc url g. create_on ev req n sess y = Some (y', JSON 200 (BCreated cc (n_ID n) (n_Name n) url g))"
proof (rule create_on_user_hand_off [OF assms(1), of sess])
  fix idxs and cc0 :: container
  let ?ports = "portMappingsToProto (cq_PortMappings req)" and ?cc = "cc0\<lparr>c_GPUIndicesJSON := indices_json idxs\<rparr>"
  let ?y3 = "with_store (give_gpus (ev_now ev) (n_ID n) (newContainerID (ev_id ev)) idxs (add_container cc0 (sy_store y))) y"
  assume c: "create_on ev req n sess y = Some (hand_off ev req n sess ?ports (container_name ev req) ?cc idxs ?y3)"
  have "map_of (mg_broken (sy_mgr ?y3)) (se_stream sess) = None" using assms(2) by simp
  from hand_off_ok [OF this] obtain y' where "hand_off ev req n sess ?ports (container_name ev req) ?cc idxs ?y3 =
      (y', JSON 200 (BCreated ?cc (n_ID n) (n_Name n) (externalURL (ev_host ev) (c_ExternalPort ?cc))
        (if idxs \<noteq> [] then Some idxs else None)))" by blast
  then show ?thesis unfolding c by blast
qed

text \<open>Its cleanup deletes the row of the port table under that number, whoever the port belongs to.\<close>

lemma create_on_user_send_fails:
  assumes "user_creatable ev req n (sy_store y)" and "map_of (mg_broken (sy_mgr y)) (se_stream sess) = Some m"
  shows "\<exists>y'. create_on ev req n sess y = Some (y', JSON 500 (BError (''send create: '' @ m))) \<and>
    sy_store y' = (sy_store y)\<lparr>st_ports := [r \<leftarrow> st_ports (sy_store y). p_port r \<noteq> cq_ExternalPort req]\<rparr> \<and>
    (cq_PortMappings req \<noteq> [] \<longrightarrow> map_of (px_routes (sy_proxy y')) (cq_ExternalPort req) =
       Some (route_of (newContainerID (ev_id ev)) (n_ID n) (portMappingsToProto (cq_PortMappings req))))"
proof (rule create_on_user_hand_off [OF assms(1), of sess])
  fix idxs and cc0 :: container
  let ?cid = "newContainerID (ev_id ev)" and ?ports = "portMappingsToProto (cq_PortMappings req)"
    and ?ext = "cq_ExternalPort req" and ?s = "sy_store y"
  let ?y3 = "with_store (give_gpus (ev_now ev) (n_ID n) ?cid idxs (add_container cc0 ?s)) y"
  let ?y4 = "if ?ports \<noteq> []
      then register_and_bind (ev_listen ev) ?ext ?cid (n_ID n) (pm_host_port (hd ?ports)) ?y3 else ?y3"
  assume cc0: "cc0 = filled (ev_now ev) (new_container ?cid (n_ID n) req ?ports (container_name ev req) ?ext)"
    and c: "create_on ev req n sess y = Some (hand_off ev req n sess ?ports (container_name ev req)
      (cc0\<lparr>c_GPUIndicesJSON := indices_json idxs\<rparr>) idxs ?y3)"
  have f: "c_ID cc0 = ?cid" "c_ExternalPort cc0 = ?ext" "?ext \<noteq> 0"
    using cc0 assms(1) by (simp_all add: new_container_def user_creatable_def)
  have "map_of (mg_broken (sy_mgr ?y3)) (se_stream sess) = Some m" using assms(2) by simp
  from hand_off_broken [OF this, of ev req n ?ports "container_name ev req" "cc0\<lparr>c_GPUIndicesJSON := indices_json idxs\<rparr>" idxs]
  have 1: "create_on ev req n sess y = Some (create_cleanup (cq_GPUCount req > 0) ?cid ?ext ?y4,
      JSON 500 (BError (''send create: '' @ m)))"
    using f by (simp add: c)
  let ?t = "\<lambda>s. sy_store (create_cleanup (cq_GPUCount req > 0) ?cid 0 (with_store s y))"
  have h: "healthy ?s" "?cid \<notin> set (container_ids ?s)" using assms(1) by (simp_all add: user_creatable_def)
  have nf: "st_faults ?s = []" using h(1) by (rule healthyD)
  have "?t (give_gpus (ev_now ev) (n_ID n) ?cid idxs (add_container cc0 ?s)) = ?s"
    by (rule cleanup_restores [OF h, where nid = "n_ID n" and idxs = idxs and cc = cc0 and now = "ev_now ev"])
      (simp_all add: f with_port_def)
  let ?u = "give_gpus (ev_now ev) (n_ID n) ?cid idxs (add_container cc0 ?s)"
  let ?v = "\<lambda>ps. ?u\<lparr>st_containers := [r \<leftarrow> st_containers ?u. c_ID r \<noteq> ?cid],
      st_gpus := [g \<leftarrow> st_gpus ?u. g_container g \<noteq> ?cid], st_ports := ps\<rparr>"
  have u: "st_faults ?u = []" "sy_store ?y4 = ?u" "st_ports ?u = st_ports ?s"
    using nf by (simp_all add: give_gpus_def add_gpus_def)
  have v: "?v (st_ports ?u) = ?s"
    using \<open>?t ?u = ?s\<close> cleanup_store [of "with_store ?u y" "cq_GPUCount req > 0" ?cid 0, unfolded with_store_fields, OF u(1)]
    by (simp only: if_True refl)
  have "?v ps = (?v (st_ports ?u))\<lparr>st_ports := ps\<rparr>" for ps by simp
  from this [of "[r \<leftarrow> st_ports ?s. p_port r \<noteq> ?ext]"] have "sy_store (create_cleanup (cq_GPUCount req > 0) ?cid ?ext ?y4) =
      ?s\<lparr>st_ports := [r \<leftarrow> st_ports ?s. p_port r \<noteq> ?ext]\<rparr>"
    using cleanup_store [of ?y4 "cq_GPUCount req > 0" ?cid ?ext, unfolded u(2), OF u(1)]
    unfolding if_not_P [OF f(3)] u(3) v [unfolded u(3)] by (rule trans [rotated])
  moreover have "map_of (px_routes (sy_proxy (create_cleanup (cq_GPUCount req > 0) ?cid ?ext ?y4))) ?ext =
      Some (route_of ?cid (n_ID n) ?ports)" if "cq_PortMappings req \<noteq> []"
    using that by (simp add: register_and_bind_def route_of_def portMappingsToProto_def)
  ultimately show ?thesis using 1 by blast
qed

section \<open>The whole request\<close>

lemma check_indices_Inr:
  assumes "check_indices req0 = Inr req"
  shows "\<exists>k. req = req0\<lparr>cq_GPUCount := k\<rparr>" "cq_GPUIndices req0 = [] \<Longrightarrow> req = req0"
    "cq_GPUIndices req0 \<noteq> [] \<Longrightarrow> cq_GPUCount req = of_nat (length (cq_GPUIndices req0)) \<and> cq_NodeID req0 \<noteq> []"
  using assms by (auto simp: check_indices_def split: if_splits option.splits intro: exI [of _ "cq_GPUCount req0"])

lemma first_dup_None: "first_dup seen xs = None \<longleftrightarrow> distinct xs \<and> set xs \<inter> set seen = {}"
  by (induction seen xs rule: first_dup.induct) auto

lemma out_of_range_None: "out_of_range i tot xs = None \<longleftrightarrow> (\<forall>x \<in> set xs. x < tot)"
  by (induction i tot xs rule: out_of_range.induct) (auto simp: not_le)

lemma first_row_Inr:
  assumes "first_row scan rows = Inr x" and "\<And>r. scan r = Inr x \<Longrightarrow> r = x"
  shows "x \<in> set rows"
  using assms by (cases rows) (auto simp: first_row_def)

lemma GetNode_Inr:
  assumes "GetNode nid s = (s', Inr n)"
  shows "n \<in> set (st_nodes s) \<and> n_ID n = nid \<and> tables s' = tables s"
proof -
  from assms obtain fs where s': "s' = s\<lparr>st_faults := fs\<rparr>"
    and r: "first_row scanNode [r \<leftarrow> st_nodes s'. n_ID r = nid] = Inr n"
    unfolding GetNode_def by (blast dest: query_Inr)
  from r have "n \<in> set [r \<leftarrow> st_nodes s'. n_ID r = nid]"
    by (rule first_row_Inr) (simp add: scanNode_def split: if_splits)
  with s' show ?thesis by simp
qed

text \<open>The node a request gets: a row of the store with GPUs to give, and the tables are as before.\<close>

lemma counts_available:
  assumes "cq_GPUIndices req = []" "node_usage (n_ID n) s < 2 ^ 32"
    "cq_GPUCount req > 0 \<Longrightarrow> \<not> freeGPUsOn n used < cq_GPUCount req"
    "map_u32 used (n_ID n) = of_nat (node_usage (n_ID n) s)"
  shows "gpus_available req n s"
proof -
  have "unat (map_u32 used (n_ID n)) = node_usage (n_ID n) s"
    using assms(2,4) by (simp add: unat_of_nat)
  then have "unat (freeGPUsOn n used) = unat (n_GpuCount n) - node_usage (n_ID n) s"
    by (simp add: free_gpus_unat)
  with assms(1,3) show ?thesis
    by (cases "cq_GPUCount req = 0") (auto simp: gpus_available_def word_less_nat_alt unat_gt_0)
qed

lemma select_node_Inr:
  assumes "select_node req y = (y', Inr n)"
  shows "n \<in> set (st_nodes (sy_store y)) \<and> tables (sy_store y') = tables (sy_store y) \<and>
    (\<exists>s. y' = with_store s y) \<and> n_State n = ''online'' \<and>
    (cq_GPUIndices req = [] \<longrightarrow> node_usage (n_ID n) (sy_store y) < 2 ^ 32 \<longrightarrow> gpus_available req n (sy_store y))"
proof -
  let ?rq = "\<lparr>rq_CPUCores = cq_CPUCores req, rq_MemoryBytes = cq_MemoryBytes req, rq_GPUCount = cq_GPUCount req\<rparr>"
  from assms have s: "on_sys (Select ?rq) y = (y', Inr n)"
    by (auto simp: select_node_def split: prod.splits sum.splits)
  then have w: "\<exists>s. y' = with_store s y" and sel: "Select ?rq (sy_store y) = (sy_store y', Inr n)"
    by (auto simp: on_sys_pair)
  from sel obtain nodes used where n: "set nodes = set (st_nodes (sy_store y))"
    "tables (sy_store y') = tables (sy_store y)" "\<And>nid. map_u32 used nid = of_nat (node_usage nid (sy_store y))"
    "best_of [m \<leftarrow> nodes. eligible ?rq used m] n" by (rule Select_Inr) blast
  then have "n \<in> set [m \<leftarrow> nodes. eligible ?rq used m]" by (metis best_of_def in_set_conv_decomp)
  then have "n \<in> set nodes" "eligible ?rq used n" by simp_all
  with n w counts_available [of req n "sy_store y" used] show ?thesis
    by (auto simp: eligible_def gpu_rejects_def)
qed

lemma pinned_node_Inr:
  assumes "pinned_node req y = (y', Inr n)"
  shows "n \<in> set (st_nodes (sy_store y)) \<and> n_ID n = cq_NodeID req \<and> tables (sy_store y') = tables (sy_store y) \<and>
    (\<exists>s. y' = with_store s y) \<and> (\<forall>i \<in> set (cq_GPUIndices req). i < n_GpuCount n) \<and>
    (cq_GPUIndices req = [] \<longrightarrow> node_usage (n_ID n) (sy_store y) < 2 ^ 32 \<longrightarrow> gpus_available req n (sy_store y))"
proof -
  from assms obtain y1 n1 where 1: "on_sys (GetNode (cq_NodeID req)) y = (y1, Inr n1)"
    "out_of_range 0 (n_GpuCount n1) (cq_GPUIndices req) = None"
    by (auto simp: pinned_node_def split: prod.splits sum.splits option.splits)
  then have g: "GetNode (cq_NodeID req) (sy_store y) = (sy_store y1, Inr n1)" and w: "\<exists>s. y1 = with_store s y"
    by (auto simp: on_sys_pair)
  note G = GetNode_Inr [OF g]
  show ?thesis
  proof (cases "cq_GPUCount req > 0 \<and> cq_GPUIndices req = []")
    case False
    with assms 1 have "n = n1" "y' = y1" by (auto simp: pinned_node_def)
    moreover have "gpus_available req n1 s" if "cq_GPUIndices req = []" for s
      using False that by (auto simp: gpus_available_def word_gt_0)
    ultimately show ?thesis using G w 1(2) by (auto simp: out_of_range_None)
  next
    case True
    with assms 1 obtain used where u: "on_sys GPUUsageByNode y1 = (y', Inr used)" and n: "n = n1"
      and f: "\<not> freeGPUsOn n1 used < cq_GPUCount req"
      by (auto simp: pinned_node_def Let_def SchedulerFreeGPUs_def split: prod.splits sum.splits if_splits)
    from u have g2: "GPUUsageByNode (sy_store y1) = (sy_store y', Inr used)" and w2: "\<exists>s. y' = with_store s y1"
      by (auto simp: on_sys_pair)
    have t: "tables (sy_store y') = tables (sy_store y1)"
      using g2 unfolding GPUUsageByNode_def by (rule query_tables)
    have "node_usage nid (sy_store y1) = node_usage nid (sy_store y)" for nid
      using G by (simp add: node_usage_def tables_eq_iff)
    then have "map_u32 used (n_ID n1) = of_nat (node_usage (n_ID n1) (sy_store y))"
      using GPUUsageByNode_Inr [OF g2, of "n_ID n1"] by simp
    with f G w w2 t n 1(2) counts_available [of req n1 "sy_store y" used] show ?thesis
      by (auto simp: out_of_range_None)
  qed
qed

lemma pick_node_Inr:
  assumes "pick_node req y = (y', Inr n)"
  shows "n \<in> set (st_nodes (sy_store y))" "tables (sy_store y') = tables (sy_store y)"
    "\<exists>s. y' = with_store s y"
    "cq_GPUIndices req = [] \<Longrightarrow> node_usage (n_ID n) (sy_store y) < 2 ^ 32 \<Longrightarrow> gpus_available req n (sy_store y)"
    "cq_NodeID req \<noteq> [] \<Longrightarrow> n_ID n = cq_NodeID req"
    "cq_NodeID req \<noteq> [] \<Longrightarrow> i \<in> set (cq_GPUIndices req) \<Longrightarrow> i < n_GpuCount n"
  using assms select_node_Inr [of req y y' n] pinned_node_Inr [of req y y' n]
  by (auto simp: pick_node_def split: if_splits)

end
