(* ===== verification/Examples.thy ===== *)
theory Examples
  imports Api_Create
begin

text \<open>
  A small running master: one node with two GPUs, one container that holds the first of them and
  port 30000, the node's agent connected. The witnesses of the properties evaluate on it.
\<close>

definition ex_node :: node where
  "ex_node = zero_node\<lparr>n_ID := ''n1'', n_MachineID := ''m1'', n_Name := ''alpha'',
     n_State := ''online'', n_RegisteredAt := 5, n_GpuCount := 2\<rparr>"

definition ex_container :: container where
  "ex_container =
     \<lparr>c_ID = ''c1'', c_NodeID = ''n1'', c_DockerID = ''d1'', c_Name = ''web'', c_Image = ''nginx'',
      c_State = ''running'', c_Status = ''running'', c_EnvJSON = ''null'', c_CmdJSON = ''null'',
      c_PortsJSON = render (JArr (map json_port [\<lparr>pm_container_port = 80, pm_protocol = ''tcp'',
        pm_host_port = 8080\<rparr>])),
      c_VolumeBinds = ''null'', c_CPUCores = Fin 0, c_MemoryBytes = 0, c_GPUCount = 1,
      c_GPUIndicesJSON = indices_json [0], c_ExternalPort = 30000, c_CreatedAt = 6, c_UpdatedAt = 6\<rparr>"

definition ex_store :: store where
  "ex_store =
     \<lparr>st_nodes = [ex_node], st_containers = [ex_container],
      st_gpus = [\<lparr>g_node = ''n1'', g_index = 0, g_container = ''c1'', g_at = 6\<rparr>],
      st_ports = [\<lparr>p_port = 30000, p_container = ''c1''\<rparr>], st_faults = []\<rparr>"

definition ex_session :: session where
  "ex_session = newSession ''n1'' ''alpha'' 7 ''10.0.0.5''"

definition ex_mgr :: manager where
  "ex_mgr = (NewManager ex_store)\<lparr>mg_sessions := [(''n1'', ex_session)]\<rparr>"

definition ex_proxy :: proxy where
  "ex_proxy = \<lparr>px_listeners = [30000],
     px_routes = [(30000, \<lparr>rt_containerID = ''c1'', rt_nodeID = ''n1'', rt_hostPort = 8080\<rparr>)]\<rparr>"

definition ex_sys :: sys where
  "ex_sys = \<lparr>sy_mgr = ex_mgr, sy_proxy = ex_proxy\<rparr>"

definition ex_broken :: sys where
  "ex_broken = ex_sys\<lparr>sy_mgr := ex_mgr\<lparr>mg_broken := [(7, ''EOF'')]\<rparr>\<rparr>"

definition ex_env :: env where
  "ex_env = \<lparr>ev_now = 10, ev_listen = Inr, ev_host = ''master:8080'', ev_id = [1, 2, 3, 4, 5, 6],
     ev_rnd1 = [1, 2, 3], ev_rnd2 = [4, 5, 6], ev_rnd3 = [7, 8, 9]\<rparr>"

definition ex_req :: create_req where
  "ex_req = \<lparr>cq_Image = ''nginx:alpine'', cq_Name = ''web2'', cq_Env = None, cq_Cmd = None,
     cq_VolumeBinds = None,
     cq_PortMappings = [\<lparr>pj_ContainerPort = 80, pj_Protocol = [], pj_HostPort = 0\<rparr>],
     cq_CPUCores = Fin 0, cq_MemoryBytes = 0, cq_GPUCount = 1, cq_GPUIndices = [], cq_NodeID = ''n1'',
     cq_Pull = True, cq_ExternalPort = 0\<rparr>"

lemmas ex_defs = ex_node_def ex_container_def ex_store_def zero_node_def

lemma ex_integrity: "integrity ex_store"
  by (simp add: integrity_defs ex_defs)

lemma ex_healthy: "healthy ex_store"
  by (simp add: healthy_def ex_integrity) (simp add: scannable_def scanNode_def scanContainer_def ex_defs)

lemma ex_mgr_store [simp]: "mg_store ex_mgr = ex_store" "sy_mgr ex_sys = ex_mgr" "sy_proxy ex_sys = ex_proxy"
  by (simp_all add: ex_mgr_def NewManager_def ex_sys_def)

lemma ex_mgr_fields [simp]:
  "mg_sessions ex_mgr = [(''n1'', ex_session)]" "mg_broken ex_mgr = []" "mg_closed ex_mgr = []"
  "mg_updates ex_mgr = []" "mg_sinkCh ex_mgr = []" "mg_sent ex_mgr = []"
  by (simp_all add: ex_mgr_def NewManager_def)

lemma ex_session_of [simp]: "Get ''n1'' ex_mgr = Some ex_session"
  by (simp add: Get_def ex_mgr_def)

end
