(* ===== verification/Store_Props.thy ===== *)
theory Store_Props
  imports Examples
begin

text \<open>
  The properties of the store's two allocators, ports and GPUs. Each is stated over the code's
  operations and rests on the lemmas of \<open>Store_Alloc\<close>; the GPU ones use the interpretation \<open>pool\<close> of
  the contract \<open>gpu_pool\<close>.
\<close>

section \<open>Ports\<close>

text \<open>C20. \<open>AllocPort\<close> hands out the smallest port of the range that no row holds, records it for
  the container and leaves every other row of every table alone.\<close>

theorem alloc_port_smallest:
  assumes "AllocPort start stop cid s = Some (s', Inr p)" and "stop < - 1"
  shows "start \<le> p \<and> p \<le> stop \<and> p \<notin> p_port ` set (st_ports s) \<and>
    (\<forall>q. start \<le> q \<and> q < p \<longrightarrow> q \<in> p_port ` set (st_ports s)) \<and>
    st_ports s' = st_ports s @ [\<lparr>p_port = p, p_container = cid\<rparr>] \<and> st_gpus s' = st_gpus s \<and>
    st_containers s' = st_containers s \<and> st_nodes s' = st_nodes s"
  using AllocPort_smallest [OF assms] AllocPort_Inr(3) [OF assms(1)] by (simp add: tables_eq_iff)

lemma alloc_port_smallest_witness:
  "(30000 :: u32) \<le> 30001 \<and> AllocPort 30000 30002 ''c9'' ex_store =
     Some (add_port 30001 ''c9'' ex_store, Inr 30001)"
proof -
  have "AllocPort 30000 30002 ''c9'' ex_store = Some (add_port 30001 ''c9'' ex_store, Inr 30001)"
    by (simp add: AllocPort_def exec_no_faults query_no_faults used_ports_def ex_defs port_scan.simps
        insert_port_def add_port_def)
  with alloc_port_smallest [OF this] show ?thesis by simp
qed

text \<open>On a working database \<open>AllocPort\<close> returns for every range that does not end at the last
  32-bit value; it fails exactly when every port of the range is taken, and then changes nothing.\<close>

lemma alloc_port_exhausted:
  assumes "st_faults s = []" and "stop < - 1"
  shows "if {start..stop} \<subseteq> p_port ` set (st_ports s)
    then AllocPort start stop cid s = Some (s, Inl (ErrNoFreePort start stop))
    else (\<exists>p. AllocPort start stop cid s = Some (add_port p cid s, Inr p))"
proof (cases "find (\<lambda>q. q \<notin> set (used_ports start stop s)) (map of_nat [unat start..<Suc (unat stop)])")
  case None
  then have "{start..stop} \<subseteq> set (used_ports start stop s)"
    by (simp only: find_None_iff word_interval not_not) blast
  then have "{start..stop} \<subseteq> p_port ` set (st_ports s)" by (auto simp: set_used_ports)
  then show ?thesis using AllocPort_no_faults [OF assms] None by simp
next
  case (Some p)
  then have "p \<in> set (map of_nat [unat start..<Suc (unat stop)])" and "p \<notin> set (used_ports start stop s)"
    by (metis find_Some_iff nth_mem)+
  then have "p \<in> {start..stop}" "p \<notin> set (used_ports start stop s)" unfolding word_interval .
  then have "\<not> {start..stop} \<subseteq> p_port ` set (st_ports s)" by (auto simp: set_used_ports)
  then show ?thesis using AllocPort_no_faults [OF assms] Some by (simp only: if_False option.case) blast
qed

lemma alloc_port_exhausted_witness:
  "AllocPort 30000 30000 ''c9'' ex_store = Some (ex_store, Inl (ErrNoFreePort 30000 30000))"
  using alloc_port_exhausted [of ex_store 30000 30000 "''c9''"] by (simp add: ex_defs)

section \<open>GPU reservations\<close>

text \<open>A successful reservation of explicit indices takes GPUs nobody held and gives exactly
  those to the container; a failed one leaves every table as it was.\<close>

lemma reserve_specific_exclusive:
  assumes "AllocSpecificGPUs now nid cid idxs s = (s', r)"
  shows "case r of
      Inr _ \<Rightarrow> distinct idxs \<and> (\<forall>i \<in> set idxs. holder s (nid, i) = None) \<and>
        holder s' = (\<lambda>k. if fst k = nid \<and> snd k \<in> set idxs then Some cid else holder s k) \<and>
        st_containers s' = st_containers s \<and> st_nodes s' = st_nodes s \<and> st_ports s' = st_ports s
    | Inl _ \<Rightarrow> tables s' = tables s"
proof (cases r)
  case (Inl e)
  then show ?thesis using AllocSpecificGPUs_Inl assms by simp
next
  case (Inr v)
  then have r: "reservable nid cid idxs s" "tables s' = tables (add_gpus (gpu_rows now nid cid idxs) s)"
    using AllocSpecificGPUs_Inr assms by simp_all
  show ?thesis using r(1) holder_cong [OF r(2)] holder_add_gpus [OF r(1), of now] r(2)
    by (simp add: Inr reservable_def holder_None_iff tables_eq_iff add_gpus_def)
qed

lemma reserve_specific_exclusive_witness:
  "holder ex_store (''n1'', 1) = None \<and>
   holder (add_gpus (gpu_rows 9 ''n1'' ''c1'' [1]) ex_store) (''n1'', 1) = Some ''c1''"
proof -
  have "AllocSpecificGPUs 9 ''n1'' ''c1'' [1] ex_store =
      (add_gpus (gpu_rows 9 ''n1'' ''c1'' [1]) ex_store, Inr ())"
    by (rule AllocSpecificGPUs_ok) (simp_all add: reservable_def gpu_keys_def ex_defs)
  from reserve_specific_exclusive [OF this] show ?thesis by simp
qed

text \<open>On a working database, a reservation that asks for a held index (or the same index twice)
  for an existing container and node is answered with \<open>ErrGPUTaken\<close>, names one of the asked indices
  and rolls back.\<close>

lemma reserve_conflict_detected:
  assumes "st_faults s = []" and "cid \<in> c_ID ` set (st_containers s)" and "nid \<in> n_ID ` set (st_nodes s)"
    and "i \<in> set idxs" and "holder s (nid, i) \<noteq> None \<or> \<not> distinct idxs"
  shows "\<exists>j s'. j \<in> set idxs \<and> AllocSpecificGPUs now nid cid idxs s = (s', Inl (ErrGPUTaken j nid)) \<and>
    tables s' = tables s"
proof -
  have "\<not> reservable nid cid idxs s" using assms(4,5) by (auto simp: reservable_def holder_None_iff)
  from AllocSpecificGPUs_taken [OF assms(1-3) this, of now] show ?thesis
    by (metis tables_rollback)
qed

lemma reserve_conflict_detected_witness:
  "\<exists>j s'. j \<in> {0} \<and> AllocSpecificGPUs 9 ''n1'' ''c1'' [0] ex_store = (s', Inl (ErrGPUTaken j ''n1'')) \<and>
    tables s' = tables ex_store"
  using reserve_conflict_detected [of ex_store "''c1''" "''n1''" 0 "[0]" 9]
  by (simp add: holder_def ex_defs)

text \<open>C21. The search for a port ends. On a working database a call does not return in one case only, when
  the range is that of all 32-bit numbers and every one of them is taken, where the counter of the loop
  wraps and goes round for ever; in the range the master uses it returns in every state, whatever
  statement of the database fails. When the whole range is taken, the answer is the error that names the
  range, and no row is added.\<close>

theorem alloc_port_returns:
  assumes "st_faults s = []"
  shows "(AllocPort start stop cid s = None \<longleftrightarrow> start = 0 \<and> stop = - 1 \<and> p_port ` set (st_ports s) = UNIV) \<and>
    (\<forall>t. \<exists>res. AllocPort 30000 32767 cid t = Some res) \<and>
    (stop \<noteq> - 1 \<and> {start..stop} \<subseteq> p_port ` set (st_ports s) \<longrightarrow>
      AllocPort start stop cid s = Some (s, Inl (ErrNoFreePort start stop)))"
proof (intro conjI impI allI)
  show "AllocPort start stop cid s = None \<longleftrightarrow> start = 0 \<and> stop = - 1 \<and> p_port ` set (st_ports s) = UNIV"
  proof
    assume "start = 0 \<and> stop = - 1 \<and> p_port ` set (st_ports s) = UNIV"
    moreover from this have "port_scan (used_ports start stop s) start stop = None"
      by (auto simp: port_scan_None_iff used_ports_def)
    ultimately show "AllocPort start stop cid s = None"
      using assms by (simp add: AllocPort_def exec_no_faults query_no_faults)
  qed (rule AllocPort_None)
  show "\<exists>res. AllocPort 30000 32767 cid t = Some res" for t by (rule AllocPort_returns) simp
  assume r: "stop \<noteq> - 1 \<and> {start..stop} \<subseteq> p_port ` set (st_ports s)"
  then have "stop < - 1" by (simp add: word_order.not_eq_extremum)
  moreover from this r have "port_scan (used_ports start stop s) start stop = Some None"
    by (auto simp: port_scan_None set_used_ports)
  ultimately show "AllocPort start stop cid s = Some (s, Inl (ErrNoFreePort start stop))"
    using assms by (simp add: AllocPort_def exec_no_faults query_no_faults rollback_def)
qed

lemma alloc_port_returns_witness:
  "AllocPort 30000 30000 ''c1'' ex_store = Some (ex_store, Inl (ErrNoFreePort 30000 30000))"
proof -
  have "st_faults ex_store = []" "{30000..30000} \<subseteq> p_port ` set (st_ports ex_store)" "(30000 :: u32) \<noteq> - 1"
    by (simp_all add: ex_store_def)
  with alloc_port_returns [of ex_store 30000 30000 "''c1''"] show ?thesis by blast
qed

text \<open>C19. A reservation by count returns exactly that many indices, ascending, below the node's
  total, none of them held before, all held by the container afterwards, and they are the lowest
  free ones.\<close>

theorem alloc_gpus_lowest:
  assumes "AllocGPUs now nid cid count tot s = (s', Inr idxs)" and "0 < count"
  shows "int (length idxs) = count \<and> sorted idxs \<and> distinct idxs \<and>
    (\<forall>i \<in> set idxs. i < tot \<and> holder s (nid, i) = None) \<and>
    (\<forall>j < tot. holder s (nid, j) = None \<and> j \<notin> set idxs \<longrightarrow> (\<forall>i \<in> set idxs. i < j)) \<and>
    holder s' = (\<lambda>k. if fst k = nid \<and> snd k \<in> set idxs then Some cid else holder s k)"
proof -
  note a = AllocGPUs_Inr [OF assms]
  obtain used where u: "set used = {i. (nid, i) \<in> set (gpu_keys s)}"
    and t: "idxs = take (nat count) (free_indices used tot)" using a(5) by blast
  note f = free_indices_facts [of used tot]
  have sub: "set idxs \<subseteq> set (free_indices used tot)" unfolding t by (rule set_take_subset)
  have low: "i < j" if "j \<in> set (free_indices used tot)" "j \<notin> set idxs" "i \<in> set idxs" for i j
  proof -
    have "j \<in> set (drop (nat count) (free_indices used tot))"
      using that(1,2) append_take_drop_id [of "nat count" "free_indices used tot"] t
      by (metis Un_iff set_append)
    moreover have "sorted (idxs @ drop (nat count) (free_indices used tot))" using f(1) t by simp
    ultimately have "i \<le> j" using that(3) unfolding sorted_append by blast
    then show ?thesis using that by (metis order_le_less)
  qed
  have free: "holder s (nid, j) = None \<longleftrightarrow> j \<notin> set used" for j
    using u by (simp add: holder_None_iff)
  have held: "holder s' = (\<lambda>k. if fst k = nid \<and> snd k \<in> set idxs then Some cid else holder s k)"
    using holder_cong [OF a(2)] holder_add_gpus [OF a(1), of now] by simp
  show ?thesis using a(1,3,4) sub f(3) low held unfolding reservable_def free by auto
qed

lemma alloc_gpus_lowest_witness:
  "\<exists>s'. AllocGPUs 9 ''n1'' ''c1'' 1 2 ex_store = (s', Inr [1]) \<and> holder s' (''n1'', 1) = Some ''c1''"
proof -
  have "\<exists>s'. AllocGPUs 9 ''n1'' ''c1'' 1 2 ex_store = (s', Inr [1])"
    by (simp add: AllocGPUs_def readUsedIndices_def commit_gpus_def exec_no_faults query_no_faults
        ex_defs gpu_scan.simps insert_gpu_def)
  then obtain s' where s': "AllocGPUs 9 ''n1'' ''c1'' 1 2 ex_store = (s', Inr [1])" by blast
  from alloc_gpus_lowest [OF this] s' show ?thesis by simp
qed

text \<open>Reservations and releases of other containers never take a GPU away from its holder, and
  releasing right after reserving gives back the holders there were before.\<close>

lemma reservation_isolation:
  assumes "integrity s" and "\<forall>k. holder s k \<noteq> Some c"
    and "AllocSpecificGPUs now n c is s = (s1, Inr u)" and "FreeGPUs c s1 = (s2, Inr v)"
  shows "holder s2 = holder s \<and> integrity s2 \<and>
    (\<forall>k d. holder s k = Some d \<longrightarrow> holder s1 k = Some d)"
  using pool.reserve_release_roundtrip [OF assms] pool.reserve_keeps [OF assms(1) _ assms(3)]
    pool.reserve_ok [OF assms(1), of now n c "is"] pool.release_ok [of s1 c] assms(3,4) by auto

lemma reservation_isolation_witness:
  "holder (free_gpus ''c2'' (add_gpus (gpu_rows 9 ''n1'' ''c2'' [1])
     (ex_store\<lparr>st_containers := [ex_container, ex_container\<lparr>c_ID := ''c2''\<rparr>]\<rparr>))) (''n1'', 0) = Some ''c1''"
proof -
  let ?s = "ex_store\<lparr>st_containers := [ex_container, ex_container\<lparr>c_ID := ''c2''\<rparr>]\<rparr>"
  have i: "integrity ?s" by (simp add: integrity_defs ex_defs)
  have h: "holder ?s = [(''n1'', 0) \<mapsto> ''c1'']" by (auto simp: holder_def ex_defs)
  have r: "AllocSpecificGPUs 9 ''n1'' ''c2'' [1] ?s = (add_gpus (gpu_rows 9 ''n1'' ''c2'' [1]) ?s, Inr ())"
    by (rule AllocSpecificGPUs_ok) (simp_all add: reservable_def gpu_keys_def ex_defs)
  have f: "FreeGPUs ''c2'' (add_gpus (gpu_rows 9 ''n1'' ''c2'' [1]) ?s) =
      (free_gpus ''c2'' (add_gpus (gpu_rows 9 ''n1'' ''c2'' [1]) ?s), Inr ())"
    by (rule no_fault_updates(2)) (simp add: add_gpus_def ex_store_def)
  have "\<forall>k. holder ?s k \<noteq> Some ''c2''" by (simp add: h)
  from reservation_isolation [OF i this r f] show ?thesis by (simp add: h)
qed

end
