(* ===== verification/Api_Life.thy ===== *)
theory Api_Life
  imports Api_Create
begin

text \<open>
  \<open>deleteContainer\<close>, \<open>stopContainer\<close> and \<open>startContainer\<close> on a healthy store: the state each leads to
  when the command reaches the agent, and what it leaves behind when it does not.
\<close>

section \<open>Helpers\<close>

definition sent :: "nat \<Rightarrow> master_message \<Rightarrow> sys \<Rightarrow> sys" where
  "sent st x y = y\<lparr>sy_mgr := (sy_mgr y)\<lparr>mg_sent := mg_sent (sy_mgr y) @ [(st, x)]\<rparr>\<rparr>"

lemma sent_fields [simp]:
  "mg_store (sy_mgr (sent st x y)) = sy_store y" "mg_sessions (sy_mgr (sent st x y)) = mg_sessions (sy_mgr y)"
  "mg_sent (sy_mgr (sent st x y)) = mg_sent (sy_mgr y) @ [(st, x)]"
  "mg_broken (sy_mgr (sent st x y)) = mg_broken (sy_mgr y)" "sy_proxy (sent st x y) = sy_proxy y"
  by (simp_all add: sent_def)

lemma sys_send_ok:
  "map_of (mg_broken (sy_mgr y)) (se_stream se) = None \<Longrightarrow> sys_send se x y = (sent (se_stream se) x y, Inr ())"
  by (simp add: sys_send_def Send_def stream_send_def sent_def)

lemma sys_send_broken:
  "map_of (mg_broken (sy_mgr y)) (se_stream se) = Some m \<Longrightarrow> sys_send se x y = (y, Inl (ErrMsg m))"
  by (simp add: sys_send_def Send_def stream_send_def)

lemma Get_with_store [simp]: "Get n (sy_mgr (with_store s y)) = Get n (sy_mgr y)"
  by (simp add: Get_def with_store_def)

lemma with_store_sent: "with_store s (sent st x y) = sent st x (with_store s y)"
  by (simp add: with_store_def sent_def)

lemma with_store_proxy:
  "with_store s (unregister p y) = unregister p (with_store s y)"
  "with_store s (register_and_bind l p c n h y) = register_and_bind l p c n h (with_store s y)"
  by (simp_all add: with_store_def unregister_def register_and_bind_def)

lemma GetContainer_healthy:
  "healthy s \<Longrightarrow> GetContainer cid s = (s, case row s cid of None \<Rightarrow> Inl ErrNoRows | Some r \<Rightarrow> Inr r)"
  by (simp add: healthy_queries(2) row_def)

definition reachable_agent :: "string \<Rightarrow> sys \<Rightarrow> session \<Rightarrow> bool" where
  "reachable_agent nid y sess \<longleftrightarrow> Get nid (sy_mgr y) = Some sess \<and>
     map_of (mg_broken (sy_mgr y)) (se_stream sess) = None"

lemma some_error [simp]: "\<exists>e. JSON c (BError x) = JSON c (BError e)"
  by blast

section \<open>Delete\<close>

definition forget :: "string \<Rightarrow> u32 \<Rightarrow> store \<Rightarrow> store" where
  "forget cid ext s = s\<lparr>st_containers := [r \<leftarrow> st_containers s. c_ID r \<noteq> cid],
     st_gpus := [g \<leftarrow> st_gpus s. g_container g \<noteq> cid],
     st_ports := (if ext = 0 then st_ports s else [r \<leftarrow> st_ports s. p_port r \<noteq> ext])\<rparr>"

lemma deleteContainer_ok:
  assumes h: "healthy (sy_store y)" and r: "row (sy_store y) cid = Some cc"
    and a: "reachable_agent (c_NodeID cc) y sess"
  shows "deleteContainer cid y =
    (let y1 = with_store (forget cid (c_ExternalPort cc) (sy_store y))
           (sent (se_stream sess) (MasterStopContainer cid (c_DockerID cc) True) y)
     in (if c_ExternalPort cc \<noteq> 0 then unregister (c_ExternalPort cc) y1 else y1), JSON 200 BOk)"
proof -
  have id: "c_ID cc = cid" using r row_Some_iff healthyD(2) [OF h] by blast
  have f: "st_faults (sy_store y) = []" using h healthyD(1) by blast
  have comm: "t\<lparr>st_ports := p, st_containers := c, st_gpus := g\<rparr> =
      t\<lparr>st_containers := c, st_gpus := g, st_ports := p\<rparr>" for t :: store and p c g
    by (cases t) simp
  show ?thesis
    using a by (simp add: deleteContainer_def on_sys_alt GetContainer_healthy [OF h] r id sendStopCommand_def
        reachable_agent_def sys_send_ok Let_def no_fault_updates f with_store_sent with_store_proxy
        free_gpus_def forget_def comm)
qed

lemma deleteContainer_refused:
  assumes h: "healthy (sy_store y)"
  shows "row (sy_store y) cid = None \<Longrightarrow> deleteContainer cid y = (y, JSON 404 (BError (err_Error ErrNoRows)))"
    and "row (sy_store y) cid = Some cc \<Longrightarrow> \<forall>sess. \<not> reachable_agent (c_NodeID cc) y sess \<Longrightarrow>
      \<exists>e. deleteContainer cid y = (y, JSON 500 (BError e))"
  by (simp_all add: deleteContainer_def on_sys_alt GetContainer_healthy [OF h] sendStopCommand_def)
    (auto simp: reachable_agent_def sys_send_broken split: option.split)

section \<open>Stop\<close>

definition stopping :: "gotime \<Rightarrow> container \<Rightarrow> store \<Rightarrow> store" where
  "stopping now cc s = free_gpus (c_ID cc)
     (update_container (c_ID cc) (set_state now (c_DockerID cc) ''stopping'' ''stopping'') s)"

definition touched :: "gotime \<Rightarrow> container \<Rightarrow> store \<Rightarrow> store" where
  "touched now cc s = update_container (c_ID cc) (set_state now (c_DockerID cc) (c_State cc) (c_Status cc)) s"

lemma set_state_twice:
  "update_container cid (set_state now d st' u') (update_container cid (set_state now d st u) s) =
     update_container cid (set_state now d st' u') s"
  by (simp add: update_container_def set_state_def cong: map_cong)

lemma stopContainer_ok:
  assumes h: "healthy (sy_store y)" and r: "row (sy_store y) cid = Some cc"
    and a: "reachable_agent (c_NodeID cc) y sess"
  shows "stopContainer ev cid y =
    (let y1 = with_store (stopping (ev_now ev) cc (sy_store y))
           (sent (se_stream sess) (MasterStopContainer cid (c_DockerID cc) False) y)
     in (if c_ExternalPort cc \<noteq> 0 then unregister (c_ExternalPort cc) y1 else y1), JSON 200 BOk)"
proof -
  have id: "c_ID cc = cid" using r row_Some_iff healthyD(2) [OF h] by blast
  have f: "st_faults (sy_store y) = []" using h healthyD(1) by blast
  show ?thesis
    using a by (simp add: stopContainer_def on_sys_alt GetContainer_healthy [OF h] r id sendStopCommand_def
        reachable_agent_def sys_send_ok Let_def no_fault_updates f with_store_sent with_store_proxy stopping_def)
qed

lemma stopContainer_refused:
  assumes h: "healthy (sy_store y)" and r: "row (sy_store y) cid = Some cc"
    and a: "\<forall>sess. \<not> reachable_agent (c_NodeID cc) y sess"
  shows "\<exists>e. stopContainer ev cid y = (with_store (touched (ev_now ev) cc (sy_store y)) y, JSON 500 (BError e))"
proof -
  have id: "c_ID cc = cid" using r row_Some_iff healthyD(2) [OF h] by blast
  have f: "st_faults (sy_store y) = []" using h healthyD(1) by blast
  show ?thesis
    using a by (simp add: stopContainer_def on_sys_alt GetContainer_healthy [OF h] r id sendStopCommand_def
        no_fault_updates f Let_def set_state_twice touched_def)
      (auto simp: reachable_agent_def sys_send_broken no_fault_updates f set_state_twice id split: option.split)
qed

section \<open>Start\<close>

definition starting :: "gotime \<Rightarrow> container \<Rightarrow> store \<Rightarrow> store" where
  "starting now cc s = update_container (c_ID cc) (set_state now (c_DockerID cc) ''starting'' ''starting'')
     (add_gpus (gpu_rows now (c_NodeID cc) (c_ID cc) (saved_indices cc)) s)"

lemma add_gpus_Nil [simp]: "add_gpus (gpu_rows now nid cid []) s = s"
  by (simp add: add_gpus_def gpu_rows_def)

lemma add_gpus_tables [simp]:
  "st_containers (add_gpus g s) = st_containers s" "st_nodes (add_gpus g s) = st_nodes s"
  "st_ports (add_gpus g s) = st_ports s" "st_faults (add_gpus g s) = st_faults s"
  by (simp_all add: add_gpus_def)

lemma reserve_saved_ok:
  assumes "st_faults (sy_store y) = []" and "reservable (c_NodeID cc) (c_ID cc) (saved_indices cc) (sy_store y)"
  shows "(if saved_indices cc \<noteq> []
      then on_sys (AllocSpecificGPUs now (c_NodeID cc) (c_ID cc) (saved_indices cc)) y else (y, Inr ())) =
    (with_store (add_gpus (gpu_rows now (c_NodeID cc) (c_ID cc) (saved_indices cc)) (sy_store y)) y, Inr ())"
  using AllocSpecificGPUs_ok [OF assms] by (simp add: on_sys_alt)

lemma startContainer_ok:
  assumes h: "healthy (sy_store y)" and r: "row (sy_store y) cid = Some cc"
    and a: "reachable_agent (c_NodeID cc) y sess"
    and g: "reservable (c_NodeID cc) (c_ID cc) (saved_indices cc) (sy_store y)"
  shows "startContainer ev cid y =
    (let y1 = with_store (starting (ev_now ev) cc (sy_store y))
           (sent (se_stream sess) (MasterStartContainer cid (c_DockerID cc)) y)
     in (if c_ExternalPort cc \<noteq> 0
         then register_and_bind (ev_listen ev) (c_ExternalPort cc) cid (c_NodeID cc) (first_host_port cc) y1
         else y1), JSON 200 BOk)"
proof -
  have id: "c_ID cc = cid" using r row_Some_iff healthyD(2) [OF h] by blast
  have f: "st_faults (sy_store y) = []" using h healthyD(1) by blast
  note res = reserve_saved_ok [OF f g]
  show ?thesis
    using a unfolding startContainer_def Let_def on_sys_alt [of "GetContainer cid"] GetContainer_healthy [OF h] r
    by (simp add: reachable_agent_def res del: if_split)
      (simp add: on_sys_alt sys_send_ok no_fault_updates f with_store_sent starting_def id)
qed

lemma startContainer_conflict:
  assumes h: "healthy (sy_store y)" and r: "row (sy_store y) cid = Some cc"
    and a: "Get (c_NodeID cc) (sy_mgr y) = Some sess"
    and g: "\<not> reservable (c_NodeID cc) (c_ID cc) (saved_indices cc) (sy_store y)"
  shows "\<exists>i \<in> set (saved_indices cc). \<exists>s'. startContainer ev cid y = (with_store s' y,
      JSON 409 (BErrorSaved (err_Error (ErrGPUTaken i (c_NodeID cc)))
        ''delete this container and create a new one to get fresh GPU assignment'' (saved_indices cc))) \<and>
    tables s' = tables (sy_store y)"
proof -
  let ?s = "sy_store y"
  have f: "st_faults ?s = []" and i: "integrity ?s" using h healthyD by blast+
  have m: "cc \<in> set (st_containers ?s)" "c_ID cc = cid" using r row_Some_iff [OF i] by auto
  have c: "c_ID cc \<in> c_ID ` set (st_containers ?s)" using m(1) by blast
  have n: "c_NodeID cc \<in> n_ID ` set (st_nodes ?s)"
    using i m(1) by (auto simp: integrity_def node_ids_def)
  have ne: "saved_indices cc \<noteq> []" using g by (auto simp: reservable_def)
  from AllocSpecificGPUs_taken [OF f c n g, of "ev_now ev"] obtain j s' where j: "j \<in> set (saved_indices cc)"
    and al: "AllocSpecificGPUs (ev_now ev) (c_NodeID cc) (c_ID cc) (saved_indices cc) ?s =
      (s', Inl (ErrGPUTaken j (c_NodeID cc)))" and t: "tables s' = tables ?s"
    by (metis tables_rollback)
  have "startContainer ev cid y = (with_store s' y,
      JSON 409 (BErrorSaved (err_Error (ErrGPUTaken j (c_NodeID cc)))
        ''delete this container and create a new one to get fresh GPU assignment'' (saved_indices cc)))"
    unfolding startContainer_def Let_def on_sys_alt [of "GetContainer cid"] GetContainer_healthy [OF h] r
    using a ne by (simp add: on_sys_alt al del: err_Error.simps)
  with j t show ?thesis by blast
qed

lemma startContainer_send_fails:
  assumes h: "healthy (sy_store y)" and r: "row (sy_store y) cid = Some cc"
    and a: "Get (c_NodeID cc) (sy_mgr y) = Some sess" and b: "map_of (mg_broken (sy_mgr y)) (se_stream sess) = Some m"
    and g: "reservable (c_NodeID cc) (c_ID cc) (saved_indices cc) (sy_store y)"
  shows "startContainer ev cid y =
    (with_store (let s1 = touched (ev_now ev) cc (add_gpus (gpu_rows (ev_now ev) (c_NodeID cc) cid (saved_indices cc)) (sy_store y))
       in if saved_indices cc \<noteq> [] then free_gpus cid s1 else s1) y, JSON 500 (BError m))"
proof -
  have id: "c_ID cc = cid" using r row_Some_iff healthyD(2) [OF h] by blast
  have f: "st_faults (sy_store y) = []" using h healthyD(1) by blast
  note res = reserve_saved_ok [OF f g]
  show ?thesis
    using a b unfolding startContainer_def Let_def on_sys_alt [of "GetContainer cid"] GetContainer_healthy [OF h] r
    by (simp add: res del: if_split)
      (simp add: on_sys_alt sys_send_broken no_fault_updates f touched_def set_state_twice id)
qed

section \<open>The GPUs of a node\<close>

definition held_by :: "store \<Rightarrow> string \<times> u32 \<Rightarrow> (string \<times> string) option" where
  "held_by s k = map_option (\<lambda>c. (c, case row s c of None \<Rightarrow> [] | Some r \<Rightarrow> c_Name r)) (holder s k)"

lemma map_of_rev_distinct: "distinct (map fst xs) \<Longrightarrow> map_of (rev xs) = map_of xs"
  by (rule ext) (metis distinct_rev map_of_eq_Some_iff not_None_eq rev_map set_rev)

lemma held_by_listed:
  assumes "integrity s" and "ListGPUAllocsForNode nid s = (s', Inr allocs)" and "st_faults s = []"
  shows "map_option (\<lambda>a. (ga_ContainerID a, ga_ContainerName a)) (map_of (rev (map (\<lambda>a. (ga_Index a, a)) allocs)) i)
    = held_by s (nid, i)"
proof -
  let ?F = "\<lambda>g. \<lparr>ga_Index = g_index g, ga_ContainerID = g_container g,
        ga_ContainerName = (case row s (g_container g) of None \<Rightarrow> [] | Some c \<Rightarrow> c_Name c)\<rparr>"
  let ?gs = "sort_key g_index [g \<leftarrow> st_gpus s. g_node g = nid]"
  let ?xs = "map (\<lambda>a. (ga_Index a, a)) allocs"
  have al: "allocs = map ?F ?gs"
    using assms(2,3) by (auto simp: ListGPUAllocsForNode_def query_no_faults row_def)
  have keys: "map fst ?xs = map g_index ?gs" by (simp add: al comp_def)
  have d: "distinct (map fst ?xs)"
    unfolding keys using gpu_rows_of_node_distinct [OF assms(1), of nid]
    by (simp add: distinct_map)
  show ?thesis
  proof (cases "holder s (nid, i)")
    case None
    then have "i \<notin> fst ` set ?xs" by (auto simp: al holder_None_iff gpu_keys_def)
    then have "map_of ?xs i = None" by (simp only: map_of_eq_None_iff not_False_eq_True)
    then show ?thesis unfolding map_of_rev_distinct [OF d] by (simp add: held_by_def None)
  next
    case (Some c)
    then obtain g where g: "g \<in> set (st_gpus s)" "g_node g = nid" "g_index g = i" "g_container g = c"
      using holder_Some_iff [OF assms(1)] by blast
    then have "(i, ?F g) \<in> set ?xs" by (auto simp: al)
    then have "map_of ?xs i = Some (?F g)" using d by simp
    then show ?thesis unfolding map_of_rev_distinct [OF d] by (simp add: held_by_def Some g(4))
  qed
qed

lemma listNodeGPUs_spec:
  assumes h: "healthy (sy_store y)" and n: "node_row (sy_store y) nid = Some n"
  shows "\<exists>vs. listNodeGPUs nid y = (y, JSON 200 (BGpus vs)) \<and> length vs = unat (n_GpuCount n) \<and>
    (\<forall>i < n_GpuCount n. gv_index (vs ! unat i) = i \<and> gv_held_by (vs ! unat i) = held_by (sy_store y) (nid, i))"
proof -
  let ?s = "sy_store y"
  have f: "st_faults ?s = []" and i: "integrity ?s" using h healthyD by blast+
  obtain allocs where al: "ListGPUAllocsForNode nid ?s = (?s, Inr allocs)"
    by (simp add: ListGPUAllocsForNode_def query_no_faults f)
  note hb = held_by_listed [OF i al f]
  let ?rep = "case json_column decode_reported (n_GPUJSON n) of None \<Rightarrow> [] | Some rs \<Rightarrow> rs"
  let ?vs = "map (gpu_view_of ?rep allocs) (map of_nat [0..<unat (n_GpuCount n)])"
  have "listNodeGPUs nid y = (y, JSON 200 (BGpus ?vs))"
    using n by (simp add: listNodeGPUs_def on_sys_alt healthy_queries(1) [OF h] node_row_def al Let_def)
  moreover have "gv_index (?vs ! unat i) = i \<and> gv_held_by (?vs ! unat i) = held_by ?s (nid, i)"
    if "i < n_GpuCount n" for i
  proof -
    have "unat i < unat (n_GpuCount n)" using that by (simp add: word_less_nat_alt)
    then have v: "?vs ! unat i = gpu_view_of ?rep allocs i" by simp
    show ?thesis unfolding v by (simp add: gpu_view_of_def hb)
  qed
  ultimately show ?thesis by (intro exI [of _ ?vs]) simp
qed

end
