(* ===== verification/Create_Props.thy ===== *)
theory Create_Props
  imports Examples Api_Life "HOL-Library.Multiset"
begin

text \<open>
  The properties of placing and creating a container: the choice of the node, the free GPU counts,
  the name, and \<open>createContainer\<close> as a whole with its ways to fail.
\<close>

section \<open>Choice of the node\<close>

text \<open>The scheduler answers with an online node that has the free GPUs asked for and is not too
  small in cores or memory, none of the nodes that qualify has a smaller score, and selecting
  changes no table.\<close>

lemma select_best:
  assumes "Select req s = (s', Inr n)" and "node_usage (n_ID n) s < 2 ^ 32"
  shows "n \<in> set (st_nodes s) \<and> n_State n = ''online'' \<and> tables s' = tables s \<and>
    (rq_GPUCount req > 0 \<longrightarrow> unat (rq_GPUCount req) \<le> unat (n_GpuCount n) - node_usage (n_ID n) s) \<and>
    \<not> cpu_rejects req n \<and> \<not> mem_rejects req n \<and>
    (\<exists>used. (\<forall>nid. map_u32 used nid = of_nat (node_usage nid s)) \<and> eligible req used n \<and>
      (\<forall>m \<in> set (st_nodes s). eligible req used m \<longrightarrow> \<not> f64_lt (score m) (score n)))"
proof (rule Select_Inr [OF assms(1)])
  fix nodes used
  assume n: "set nodes = set (st_nodes s)" "tables s' = tables s"
    and u: "\<And>nid. map_u32 used nid = of_nat (node_usage nid s)"
    and b: "best_of [m \<leftarrow> nodes. eligible req used m] n"
  have "n \<in> set [m \<leftarrow> nodes. eligible req used m]" using b unfolding best_of_def by (metis in_set_conv_decomp)
  then have e: "n \<in> set (st_nodes s)" "eligible req used n" using n by auto
  have least: "\<not> f64_lt (score m) (score n)" if "m \<in> set (st_nodes s)" "eligible req used m" for m
    using best_of_least [OF b, of m] that n by simp
  have "unat (map_u32 used (n_ID n)) = node_usage (n_ID n) s"
    using assms(2) u by (simp add: unat_of_nat take_bit_eq_mod)
  then have "unat (freeGPUsOn n used) = unat (n_GpuCount n) - node_usage (n_ID n) s"
    by (simp add: free_gpus_unat)
  with e have "unat (rq_GPUCount req) \<le> unat (n_GpuCount n) - node_usage (n_ID n) s" if "rq_GPUCount req > 0"
    using that by (auto simp: eligible_def gpu_rejects_def word_less_nat_alt)
  with e n u least show ?thesis by (auto simp: eligible_def)
qed

definition ex_ask :: resource_request where
  "ex_ask = \<lparr>rq_CPUCores = Fin 0, rq_MemoryBytes = 0, rq_GPUCount = 1\<rparr>"

lemma ex_used: "GPUUsageByNode ex_store = (ex_store, Inr [(''n1'', 1)])"
  by (simp add: GPUUsageByNode_def query_no_faults ex_defs)

lemma ex_select: "Select ex_ask ex_store = (ex_store, Inr ex_node)"
proof -
  have l: "ListNodes ex_store = (ex_store, Inr [ex_node])"
    using healthy_queries(4) [OF ex_healthy] by (simp add: ex_store_def)
  have "f64_lt (score ex_node) (Inf True)" "n_State ex_node = ''online''" "\<not> cpu_rejects ex_ask ex_node"
    "\<not> mem_rejects ex_ask ex_node" "\<not> gpu_rejects ex_ask [(''n1'', 1)] ex_node" by code_simp+
  then show ?thesis by (simp add: Select_def ex_used l Let_def)
qed

lemma select_best_witness: "n_State ex_node = ''online'' \<and> unat (rq_GPUCount ex_ask) \<le> 2 - 1"
proof -
  have "node_usage (n_ID ex_node) ex_store = 1" by (simp add: node_usage_def ex_defs)
  with select_best [OF ex_select] show ?thesis by (simp add: ex_ask_def ex_node_def)
qed

text \<open>C23. On a working database the scheduler refuses exactly when no online node with a readable
  score qualifies, and its message carries the true counts: how many nodes are online, and how many
  are left after the GPU, the core and the memory filter.\<close>

theorem select_refuses:
  assumes "healthy s" and "GPUUsageByNode s = (s, Inr used)"
  shows "if \<exists>n \<in> set (st_nodes s). eligible req used n \<and> f64_lt (score n) (Inf True)
    then \<exists>n. Select req s = (s, Inr n) \<and> eligible req used n
    else Select req s = (s, Inl (rejectionError req
      \<lparr>ss_online = length [n \<leftarrow> st_nodes s. n_State n = ''online''],
       ss_gpuOK = length [n \<leftarrow> st_nodes s. n_State n = ''online'' \<and> \<not> gpu_rejects req used n],
       ss_cpuOK = length [n \<leftarrow> st_nodes s. n_State n = ''online'' \<and> \<not> gpu_rejects req used n \<and> \<not> cpu_rejects req n],
       ss_memOK = length [n \<leftarrow> st_nodes s. eligible req used n]\<rparr>))"
proof -
  define ns where "ns = sort_key (\<lambda>r. - n_RegisteredAt r) (st_nodes s)"
  have l: "ListNodes s = (s, Inr ns)" using healthy_queries(4) [OF assms(1)] by (simp add: ns_def)
  have ms: "mset ns = mset (st_nodes s)" by (simp add: ns_def)
  then have set: "set ns = set (st_nodes s)" by (rule mset_eq_setD)
  have len: "length [n \<leftarrow> ns. P n] = length [n \<leftarrow> st_nodes s. P n]" for P
    using ms by (metis mset_filter size_mset)
  let ?b = "leftmost_min None (Inf True) [n \<leftarrow> ns. eligible req used n]"
  have loop: "select_loop req used ns None (Inf True) no_stats = (?b,
      \<lparr>ss_online = length [n \<leftarrow> st_nodes s. n_State n = ''online''],
       ss_gpuOK = length [n \<leftarrow> st_nodes s. n_State n = ''online'' \<and> \<not> gpu_rejects req used n],
       ss_cpuOK = length [n \<leftarrow> st_nodes s. n_State n = ''online'' \<and> \<not> gpu_rejects req used n \<and> \<not> cpu_rejects req n],
       ss_memOK = length [n \<leftarrow> st_nodes s. eligible req used n]\<rparr>)"
    using select_loop_spec [of req used ns None "Inf True" no_stats]
      select_loop_stats [of req used ns None "Inf True" no_stats]
    by (intro prod_eqI) (simp_all add: len no_stats_def)
  show ?thesis
  proof (cases ?b)
    case None
    then have "\<not> (\<exists>n \<in> set (st_nodes s). eligible req used n \<and> f64_lt (score n) (Inf True))"
      unfolding leftmost_min_None using set by auto
    then show ?thesis using None by (simp only: if_False) (simp add: Select_def l assms(2) loop)
  next
    case (Some n)
    then have "best_of [n \<leftarrow> ns. eligible req used n] n" by (rule leftmost_min_Some)
    then have "n \<in> set [n \<leftarrow> ns. eligible req used n]" "f64_lt (score n) (Inf True)"
      unfolding best_of_def by (metis in_set_conv_decomp)+
    then have "n \<in> set (st_nodes s)" "eligible req used n" "f64_lt (score n) (Inf True)" using set by auto
    then have "\<exists>n \<in> set (st_nodes s). eligible req used n \<and> f64_lt (score n) (Inf True)" by blast
    moreover have "Select req s = (s, Inr n)" using Some by (simp add: Select_def l assms(2) loop)
    ultimately show ?thesis using \<open>eligible req used n\<close> by (simp only: if_True) blast
  qed
qed

lemma select_refuses_witness:
  "Select (ex_ask\<lparr>rq_GPUCount := 2\<rparr>) ex_store = (ex_store, Inl (rejectionError (ex_ask\<lparr>rq_GPUCount := 2\<rparr>)
     \<lparr>ss_online = 1, ss_gpuOK = 0, ss_cpuOK = 0, ss_memOK = 0\<rparr>))"
proof -
  have n: "st_nodes ex_store = [ex_node]" by (simp add: ex_store_def)
  have "n_State ex_node = ''online''" "gpu_rejects (ex_ask\<lparr>rq_GPUCount := 2\<rparr>) [(''n1'', 1)] ex_node"
    by code_simp+
  then show ?thesis
    using select_refuses [OF ex_healthy ex_used, of "ex_ask\<lparr>rq_GPUCount := 2\<rparr>"] by (simp add: n eligible_def)
qed

text \<open>The number of free GPUs the scheduler decides by and the one the node list shows come from
  two functions that always agree, and on the counts of the store both are the node's devices less its
  reservations, never below zero.\<close>

lemma free_gpu_counts_agree:
  assumes "GPUUsageByNode s = (s', Inr used)" and "node_usage (n_ID n) s < 2 ^ 32"
  shows "freeGPUsForRow (n_GpuCount n) (map_u32 used (n_ID n)) = SchedulerFreeGPUs n used \<and>
    unat (SchedulerFreeGPUs n used) = unat (n_GpuCount n) - node_usage (n_ID n) s"
proof -
  have "unat (map_u32 used (n_ID n)) = node_usage (n_ID n) s"
    using assms(2) GPUUsageByNode_Inr [OF assms(1)] by (simp add: unat_of_nat take_bit_eq_mod)
  then show ?thesis
    by (simp add: SchedulerFreeGPUs_def free_gpus_unat) (simp add: freeGPUsForRow_def freeGPUsOn_def Let_def)
qed

lemma free_gpu_counts_agree_witness: "unat (SchedulerFreeGPUs ex_node [(''n1'', 1)]) = 2 - 1"
proof -
  have "node_usage (n_ID ex_node) ex_store = 1" "n_GpuCount ex_node = 2"
    by (simp_all add: node_usage_def ex_defs)
  with free_gpu_counts_agree [OF ex_used, of ex_node] show ?thesis by simp
qed

section \<open>Names\<close>

text \<open>Whatever the request says, the container's name is one Docker accepts: not empty, lower-case
  letters, digits, dots, underscores and dashes only, starting with a letter or digit, at most 65
  characters long; and a name of this form of up to 64 characters without double or final dashes is
  used as it is.\<close>

lemma container_name_legal:
  assumes "length (ev_rnd3 ev) = 3"
  shows "legal_name (container_name ev req) \<and> length (container_name ev req) \<le> 65 \<and>
    (legal_name (cq_Name req) \<and> single_dashes (cq_Name req) \<and> last (cq_Name req) \<noteq> CHR ''-'' \<and>
      length (cq_Name req) \<le> 64 \<longrightarrow> container_name ev req = cq_Name req)"
proof -
  have "trimSpace (cq_Name req) = cq_Name req" "cq_Name req \<noteq> []" if "legal_name (cq_Name req)"
    using that trimSpace_name by (auto simp: legal_name_def)
  then show ?thesis
    using sanitize_legal sanitize_length [OF assms] sanitize_idle by (auto simp: container_name_def)
qed

lemma container_name_legal_witness:
  "legal_name (container_name ex_env ex_req) \<and> container_name ex_env ex_req = ''web2''"
proof -
  have "legal_name ''web2''" "single_dashes ''web2''"
    by (simp_all add: legal_name_def name_chars_def kept_chars_def alnum_chars_def lower_letters_def digits_def)
  then show ?thesis using container_name_legal [of ex_env ex_req] by (simp add: ex_env_def ex_req_def)
qed

section \<open>Creating a container\<close>

lemma createContainer_created:
  assumes "createContainer ev (Inr req0) y = Some (y', JSON code (BCreated cc nid nm url g))"
  obtains req y1 n sess where "cq_Image req0 \<noteq> []" "check_indices req0 = Inr req"
    "pick_node req y = (y1, Inr n)" "Get (n_ID n) (sy_mgr y1) = Some sess"
    "create_on ev req n sess y1 = Some (y', JSON code (BCreated cc nid nm url g))"
proof -
  have no_error: "JSON c (BError m) \<noteq> JSON c' (BCreated cc' n' m' u' g')" for c m c' cc' n' m' u' g'
    by (simp add: JSON_def)
  have picked: "r = rsp \<Longrightarrow> rsp \<noteq> JSON code (BCreated cc nid nm url g)" if "pick_node req y = (y1, Inl r)" for req y1 r rsp
    using that by (auto simp: pick_node_def pinned_node_def select_node_def JSON_def Let_def
        split: if_splits prod.splits sum.splits option.splits)
  from assms show ?thesis
    using that picked no_error unfolding createContainer_def
    by (auto split: if_splits sum.splits prod.splits option.splits)
qed

lemma externalURL_spelled:
  "externalURL h p = ''http://'' @ (case splitHostPort h of
      Some (h', _) \<Rightarrow> if h' = [] then ''localhost'' else h'
    | None \<Rightarrow> if h = [] then ''localhost'' else h) @ '':'' @ itoa (unat p) @ ''/''"
proof -
  have "splitHostPort [] = None" by (simp add: splitHostPort_def)
  then show ?thesis by (auto simp: externalURL_def Let_def split: option.split)
qed

lemma createContainer_facts:
  assumes "createContainer ev (Inr req0) y = Some (y', JSON code (BCreated cc nid nm url g))"
  shows "\<exists>req n idxs sess. check_indices req0 = Inr req \<and> code = 200 \<and> g = (if idxs \<noteq> [] then Some idxs else None) \<and>
    n \<in> set (st_nodes (sy_store y)) \<and> n_ID n = nid \<and> (cq_NodeID req0 \<noteq> [] \<longrightarrow> nid = cq_NodeID req0) \<and>
    st_containers (sy_store y') = st_containers (sy_store y) @ [cc] \<and>
    c_ID cc = newContainerID (ev_id ev) \<and> c_ID cc \<notin> c_ID ` set (st_containers (sy_store y)) \<and>
    c_NodeID cc = nid \<and> c_State cc = ''starting'' \<and>
    asked_gpus req idxs \<and> (\<forall>i \<in> set idxs. holder (sy_store y) (nid, i) = None) \<and>
    holder (sy_store y') = (\<lambda>k. if fst k = nid \<and> snd k \<in> set idxs then Some (c_ID cc) else holder (sy_store y) k) \<and>
    Get nid (sy_mgr y) = Some sess \<and>
    mg_sent (sy_mgr y') = mg_sent (sy_mgr y) @ [(se_stream sess, create_message (c_ID cc) req
      (portMappingsToProto (cq_PortMappings req)) (container_name ev req) idxs)] \<and>
    (c_ExternalPort cc \<noteq> 0 \<and> cq_PortMappings req \<noteq> [] \<longrightarrow>
      map_of (px_routes (sy_proxy y')) (c_ExternalPort cc) =
        Some (route_of (c_ID cc) nid (portMappingsToProto (cq_PortMappings req)))) \<and>
    (cq_ExternalPort req = 0 \<and> cq_PortMappings req \<noteq> [] \<longrightarrow>
      30000 \<le> c_ExternalPort cc \<and> c_ExternalPort cc \<le> 32767 \<and>
      c_ExternalPort cc \<notin> p_port ` set (st_ports (sy_store y)) \<and>
      st_ports (sy_store y') = st_ports (sy_store y) @ [\<lparr>p_port = c_ExternalPort cc, p_container = c_ID cc\<rparr>]) \<and>
    (cq_ExternalPort req \<noteq> 0 \<longrightarrow> c_ExternalPort cc = cq_ExternalPort req \<and> st_ports (sy_store y') = st_ports (sy_store y)) \<and>
    url = ''http://'' @ (case splitHostPort (ev_host ev) of
        Some (h, _) \<Rightarrow> if h = [] then ''localhost'' else h
      | None \<Rightarrow> if ev_host ev = [] then ''localhost'' else ev_host ev) @ '':'' @ itoa (unat (c_ExternalPort cc)) @ ''/'' \<and>
    (c_ExternalPort cc \<noteq> 0 \<and> cq_PortMappings req \<noteq> [] \<and> ev_listen ev (c_ExternalPort cc) = Inr (c_ExternalPort cc) \<longrightarrow>
      c_ExternalPort cc \<in> set (px_listeners (sy_proxy y')))"
proof -
  obtain req y1 n sess where c: "check_indices req0 = Inr req" "pick_node req y = (y1, Inr n)"
      "Get (n_ID n) (sy_mgr y1) = Some sess"
    and on: "create_on ev req n sess y1 = Some (y', JSON code (BCreated cc nid nm url g))"
    using createContainer_created [OF assms] by metis
  note p = pick_node_Inr [OF c(2)]
  then obtain s where y1: "y1 = with_store s y" and t: "tables s = tables (sy_store y)" by auto
  have nid: "cq_NodeID req0 \<noteq> [] \<longrightarrow> n_ID n = cq_NodeID req0"
    using p(5) check_indices_Inr(1) [OF c(1)] by auto
  have h: "holder s = holder (sy_store y)" using t by (rule holder_cong)
  have tt: "st_nodes s = st_nodes (sy_store y)" "st_containers s = st_containers (sy_store y)"
    "st_ports s = st_ports (sy_store y)" using t by (simp_all add: tables_eq_iff)
  show ?thesis
  proof (rule create_on_success [OF on], goal_cases)
    case (1 idxs)
    note f = 1 [unfolded y1 with_store_fields h tt]
    with c [unfolded y1 Get_with_store] p(1) nid show ?case
      by (intro exI [of _ req] exI [of _ n] exI [of _ idxs] exI [of _ sess]) (simp add: externalURL_spelled)
  qed
qed

text \<open>C9. A create that is answered with 200 has done all of it: one new row, on a node of the store,
  in the state starting under a fresh id; exactly the GPUs asked for, none of which anyone held, now
  belong to it and nobody else's changed; the node's own session got the command with the same
  indices. The answer's URL is that of the host the request was sent to, without its port, with the
  container's external port; if the container has one and a port mapping, the proxy's route of that
  port leads to the container's first port on that node, and it is listened on if the system lets it. A
  port that the request leaves open is a free one of the range 30000 to 32767, recorded for the
  container.\<close>

theorem create_success:
  assumes "createContainer ev (Inr req0) y = Some (y', JSON code (BCreated cc nid nm url g))"
  shows "\<exists>req n idxs sess. check_indices req0 = Inr req \<and> code = 200 \<and> g = (if idxs \<noteq> [] then Some idxs else None) \<and>
    n \<in> set (st_nodes (sy_store y)) \<and> n_ID n = nid \<and> (cq_NodeID req0 \<noteq> [] \<longrightarrow> nid = cq_NodeID req0) \<and>
    st_containers (sy_store y') = st_containers (sy_store y) @ [cc] \<and>
    c_ID cc = newContainerID (ev_id ev) \<and> c_ID cc \<notin> c_ID ` set (st_containers (sy_store y)) \<and>
    c_NodeID cc = nid \<and> c_State cc = ''starting'' \<and>
    asked_gpus req idxs \<and> (\<forall>i \<in> set idxs. holder (sy_store y) (nid, i) = None) \<and>
    holder (sy_store y') = (\<lambda>k. if fst k = nid \<and> snd k \<in> set idxs then Some (c_ID cc) else holder (sy_store y) k) \<and>
    Get nid (sy_mgr y) = Some sess \<and>
    mg_sent (sy_mgr y') = mg_sent (sy_mgr y) @ [(se_stream sess, create_message (c_ID cc) req
      (portMappingsToProto (cq_PortMappings req)) (container_name ev req) idxs)] \<and>
    (c_ExternalPort cc \<noteq> 0 \<and> cq_PortMappings req \<noteq> [] \<longrightarrow>
      map_of (px_routes (sy_proxy y')) (c_ExternalPort cc) =
        Some (route_of (c_ID cc) nid (portMappingsToProto (cq_PortMappings req)))) \<and>
    (cq_ExternalPort req = 0 \<and> cq_PortMappings req \<noteq> [] \<longrightarrow>
      30000 \<le> c_ExternalPort cc \<and> c_ExternalPort cc \<le> 32767 \<and>
      c_ExternalPort cc \<notin> p_port ` set (st_ports (sy_store y)) \<and>
      st_ports (sy_store y') = st_ports (sy_store y) @ [\<lparr>p_port = c_ExternalPort cc, p_container = c_ID cc\<rparr>]) \<and>
    url = ''http://'' @ (case splitHostPort (ev_host ev) of
        Some (h, _) \<Rightarrow> if h = [] then ''localhost'' else h
      | None \<Rightarrow> if ev_host ev = [] then ''localhost'' else ev_host ev) @ '':'' @ itoa (unat (c_ExternalPort cc)) @ ''/'' \<and>
    (c_ExternalPort cc \<noteq> 0 \<and> cq_PortMappings req \<noteq> [] \<and> ev_listen ev (c_ExternalPort cc) = Inr (c_ExternalPort cc) \<longrightarrow>
      c_ExternalPort cc \<in> set (px_listeners (sy_proxy y')))"
  using createContainer_facts [OF assms]
  by (elim exE conjE) (intro exI conjI, assumption+)

section \<open>When a create succeeds\<close>

text \<open>Creating always returns an answer: neither the search for a port nor anything else in the
  handler can loop, whatever the state, the request and the database's failures.\<close>

lemma create_returns: "\<exists>y' rsp. createContainer ev bound y = Some (y', rsp)"
  by (rule createContainer_returns)

lemma GetNode_healthy:
  assumes "healthy s" and "n \<in> set (st_nodes s)"
  shows "GetNode (n_ID n) s = (s, Inr n)"
proof -
  have "node_row s (n_ID n) = Some n" using assms by (simp add: node_row_Some_iff healthyD)
  then show ?thesis by (simp add: healthy_queries(1) [OF assms(1)] node_row_def)
qed

lemma check_indices_ok:
  assumes "cq_GPUIndices req \<noteq> [] \<longrightarrow> distinct (cq_GPUIndices req) \<and> cq_NodeID req \<noteq> [] \<and>
    cq_GPUCount req = of_nat (length (cq_GPUIndices req))"
  shows "check_indices req = Inr req"
proof (cases "cq_GPUIndices req = []")
  case False
  with assms have "first_dup [] (cq_GPUIndices req) = None" by (simp add: first_dup_None)
  with False assms show ?thesis by (simp add: check_indices_def)
qed (simp add: check_indices_def)

lemma pinned_node_ok:
  assumes h: "healthy (sy_store y)" and n: "n \<in> set (st_nodes (sy_store y))" "cq_NodeID req = n_ID n"
    and g: "gpus_available req n (sy_store y)" and u: "node_usage (n_ID n) (sy_store y) < 2 ^ 32"
    and r: "\<forall>i \<in> set (cq_GPUIndices req). i < n_GpuCount n"
  shows "pinned_node req y = (y, Inr n)"
proof -
  have 1: "on_sys (GetNode (cq_NodeID req)) y = (y, Inr n)"
    using GetNode_healthy [OF h n(1)] n(2) by (simp add: on_sys_alt)
  obtain used where q: "GPUUsageByNode (sy_store y) = (sy_store y, Inr used)"
    using healthyD(1) [OF h] by (simp add: GPUUsageByNode_def query_no_faults)
  have "unat (map_u32 used (n_ID n)) = node_usage (n_ID n) (sy_store y)"
    using u GPUUsageByNode_Inr [OF q] by (simp add: unat_of_nat take_bit_eq_mod)
  then have "\<not> SchedulerFreeGPUs n used < cq_GPUCount req" if "cq_GPUCount req > 0" "cq_GPUIndices req = []"
    using g that by (auto simp: SchedulerFreeGPUs_def word_less_nat_alt free_gpus_unat gpus_available_def)
  moreover have "out_of_range 0 (n_GpuCount n) (cq_GPUIndices req) = None" using r by (simp add: out_of_range_None)
  moreover have "on_sys GPUUsageByNode y = (y, Inr used)" by (simp add: on_sys_alt q)
  ultimately show ?thesis unfolding pinned_node_def 1 by (simp add: Let_def)
qed

text \<open>C10. A create that can be served is served: with a working database, a connected agent whose
  stream works, an image, a pinned node with the GPUs asked for (a free count, or distinct free indices
  below the node's device count) and a free port, the answer is 200.\<close>

theorem create_served:
  assumes c: "creatable ev req n (sy_store y)" and "cq_Image req \<noteq> []"
    and n: "cq_NodeID req = n_ID n" "n_ID n \<noteq> []"
    and g: "cq_GPUIndices req \<noteq> [] \<longrightarrow> distinct (cq_GPUIndices req) \<and>
      cq_GPUCount req = of_nat (length (cq_GPUIndices req)) \<and> (\<forall>i \<in> set (cq_GPUIndices req). i < n_GpuCount n)"
    and u: "node_usage (n_ID n) (sy_store y) < 2 ^ 32"
    and a: "reachable_agent (n_ID n) y sess"
  shows "\<exists>y' cc url g. createContainer ev (Inr req) y = Some (y', JSON 200 (BCreated cc (n_ID n) (n_Name n) url g))"
proof -
  have "check_indices req = Inr req" by (rule check_indices_ok) (use g n in simp)
  moreover have "pick_node req y = (y, Inr n)"
    using pinned_node_ok [of y n req] c n g u by (auto simp: pick_node_def creatable_def)
  moreover have "\<exists>y' cc url g. create_on ev req n sess y = Some (y', JSON 200 (BCreated cc (n_ID n) (n_Name n) url g))"
    by (rule create_on_ok [OF c]) (use a in \<open>simp add: reachable_agent_def\<close>)
  ultimately show ?thesis
    using assms(2) a by (simp add: createContainer_def reachable_agent_def)
qed

lemma ex_creatable: "creatable ex_env ex_req ex_node ex_store"
proof -
  have "newContainerID [1, 2, 3, 4, 5, 6] \<noteq> ''c1''"
    by (simp add: newContainerID_def)
  moreover have "(30001 :: u32) \<notin> p_port ` set (st_ports ex_store)" by (simp add: ex_defs)
  then have "\<exists>p. 30000 \<le> p \<and> p \<le> 32767 \<and> p \<notin> p_port ` set (st_ports ex_store)"
    by (intro exI [of _ 30001]) simp
  moreover have "unat (n_GpuCount ex_node) = 2" "node_usage (n_ID ex_node) ex_store = 1"
    by (simp_all add: node_usage_def ex_defs)
  moreover have "container_ids ex_store = [''c1'']" by (simp add: container_ids_def ex_defs)
  moreover have "st_nodes ex_store = [ex_node]" by (simp add: ex_store_def)
  ultimately show ?thesis
    by (simp add: creatable_def ex_healthy gpus_available_def) (simp add: ex_req_def ex_env_def high_bit_def)
qed

lemma ex_user_creatable: "user_creatable ex_env (ex_req\<lparr>cq_ExternalPort := 30000\<rparr>) ex_node ex_store"
proof -
  have "gpus_available (ex_req\<lparr>cq_ExternalPort := 30000\<rparr>) ex_node ex_store = gpus_available ex_req ex_node ex_store"
    by (simp add: gpus_available_def)
  then show ?thesis using ex_creatable by (simp add: creatable_def user_creatable_def)
qed

lemma ex_reachable: "reachable_agent ''n1'' ex_sys ex_session"
  by (simp add: reachable_agent_def)

lemma create_served_witness:
  "\<exists>y' cc url g. createContainer ex_env (Inr ex_req) ex_sys = Some (y', JSON 200 (BCreated cc ''n1'' ''alpha'' url g))"
proof -
  have n: "n_ID ex_node = ''n1''" "n_Name ex_node = ''alpha''" by (simp_all add: ex_node_def)
  have "node_usage (n_ID ex_node) (sy_store ex_sys) < 2 ^ 32" by (simp add: node_usage_def ex_defs)
  moreover have "cq_Image ex_req \<noteq> []" "cq_NodeID ex_req = n_ID ex_node" "cq_GPUIndices ex_req = []"
    by (simp_all add: ex_req_def n)
  moreover have "creatable ex_env ex_req ex_node (sy_store ex_sys)" by (simp add: ex_creatable)
  ultimately show ?thesis
    using create_served [of ex_env ex_req ex_node ex_sys ex_session] by (simp add: n ex_reachable)
qed

lemma ex_create_on:
  "createContainer ex_env (Inr ex_req) ex_sys = create_on ex_env ex_req ex_node ex_session ex_sys"
proof -
  have n: "n_ID ex_node = ''n1''" by (simp add: ex_node_def)
  have "creatable ex_env ex_req ex_node (sy_store ex_sys)" "node_usage ''n1'' (sy_store ex_sys) < 2 ^ 32"
    by (simp_all add: ex_creatable) (simp add: node_usage_def ex_defs)
  then have "pinned_node ex_req ex_sys = (ex_sys, Inr ex_node)"
    by (intro pinned_node_ok) (simp_all add: creatable_def n, simp_all add: ex_req_def)
  moreover have "check_indices ex_req = Inr ex_req" by (simp add: check_indices_def ex_req_def)
  moreover have "cq_Image ex_req \<noteq> []" "cq_NodeID ex_req \<noteq> []" by (simp_all add: ex_req_def)
  ultimately show ?thesis by (simp add: createContainer_def pick_node_def n)
qed

lemma ex_created:
  "\<exists>y' cc url g. createContainer ex_env (Inr ex_req) ex_sys = Some (y', JSON 200 (BCreated cc ''n1'' ''alpha'' url g))"
proof -
  have "\<exists>y' cc url g. create_on ex_env ex_req ex_node ex_session ex_sys =
      Some (y', JSON 200 (BCreated cc (n_ID ex_node) (n_Name ex_node) url g))"
    by (rule create_on_ok) (simp_all add: ex_creatable)
  then show ?thesis by (simp add: ex_create_on) (simp add: ex_node_def)
qed

lemma create_success_witness:
  "\<exists>y' cc url g. createContainer ex_env (Inr ex_req) ex_sys = Some (y', JSON 200 (BCreated cc ''n1'' ''alpha'' url g)) \<and>
     st_containers (sy_store y') = [ex_container, cc] \<and> c_State cc = ''starting''"
proof -
  obtain y' cc url g where c: "createContainer ex_env (Inr ex_req) ex_sys =
    Some (y', JSON 200 (BCreated cc ''n1'' ''alpha'' url g))" using ex_created by blast
  have "st_containers (sy_store ex_sys) = [ex_container]" by (simp add: ex_store_def)
  moreover from create_success [OF c] have "st_containers (sy_store y') = st_containers (sy_store ex_sys) @ [cc]"
    "c_State cc = ''starting''" by blast+
  ultimately show ?thesis using c by auto
qed

section \<open>When it does not\<close>

text \<open>C25. When the command cannot be sent, the deferred cleanup leaves no row, no reservation and no port
  of the container. If the master chose the port, every table is restored. If the user chose it, every
  table but the port table is restored: the row of that port is deleted there, also when the port
  belongs to another container. The proxy is never restored: the route of the container that does not
  exist stays.\<close>

theorem failed_send_restores_store:
  assumes "creatable ev req n (sy_store y) \<or> user_creatable ev req n (sy_store y)"
    and "map_of (mg_broken (sy_mgr y)) (se_stream sess) = Some m"
  shows "\<exists>y'. create_on ev req n sess y = Some (y', JSON 500 (BError (''send create: '' @ m))) \<and>
    sy_store y' = (if cq_ExternalPort req = 0 then sy_store y
      else (sy_store y)\<lparr>st_ports := [r \<leftarrow> st_ports (sy_store y). p_port r \<noteq> cq_ExternalPort req]\<rparr>) \<and>
    (cq_PortMappings req \<noteq> [] \<longrightarrow> (\<exists>ext. ext \<noteq> 0 \<and> (cq_ExternalPort req \<noteq> 0 \<longrightarrow> ext = cq_ExternalPort req) \<and>
       map_of (px_routes (sy_proxy y')) ext =
       Some (route_of (newContainerID (ev_id ev)) (n_ID n) (portMappingsToProto (cq_PortMappings req)))))"
  using assms(1)
proof
  assume c: "creatable ev req n (sy_store y)"
  then have "cq_ExternalPort req = 0" by (simp add: creatable_def)
  then show ?thesis using create_on_send_fails [OF c assms(2)] by simp
next
  assume c: "user_creatable ev req n (sy_store y)"
  then have "cq_ExternalPort req \<noteq> 0" by (simp add: user_creatable_def)
  then show ?thesis using create_on_user_send_fails [OF c assms(2)] by auto
qed

text \<open>Port 30000 belongs to the container \<open>c1\<close>.\<close>

lemma failed_send_restores_store_witness:
  "(\<exists>y'. create_on ex_env ex_req ex_node ex_session ex_broken = Some (y', JSON 500 (BError ''send create: EOF'')) \<and>
     sy_store y' = ex_store) \<and>
   (\<exists>y'. create_on ex_env (ex_req\<lparr>cq_ExternalPort := 30000\<rparr>) ex_node ex_session ex_broken =
     Some (y', JSON 500 (BError ''send create: EOF'')) \<and> sy_store y' = ex_store\<lparr>st_ports := []\<rparr>)"
proof -
  have b: "sy_store ex_broken = ex_store" "map_of (mg_broken (sy_mgr ex_broken)) (se_stream ex_session) = Some ''EOF''"
    by (simp_all add: ex_broken_def ex_session_def newSession_def)
  have "cq_ExternalPort ex_req = 0" "[r \<leftarrow> st_ports ex_store. p_port r \<noteq> 30000] = []" by (simp_all add: ex_req_def ex_store_def)
  moreover note ex_user_creatable
  ultimately show ?thesis
    using failed_send_restores_store [of ex_env ex_req ex_node ex_broken ex_session "''EOF''"] ex_creatable b
      failed_send_restores_store [of ex_env "ex_req\<lparr>cq_ExternalPort := 30000\<rparr>" ex_node ex_broken ex_session "''EOF''"]
    by auto
qed

text \<open>C24. A create that loses the race for a GPU answers 409, but by then the cleanup is not yet
  installed: the row of the container, in the state starting, and its port stay behind, although no
  GPU was taken.\<close>

theorem conflict_leaks_row_and_port:
  assumes "insertable ev req n (sy_store y)" and "cq_GPUCount req \<noteq> 0" "cq_GPUIndices req \<noteq> []"
    and "k \<in> set (cq_GPUIndices req)" "holder (sy_store y) (n_ID n, k) \<noteq> None"
  shows "\<exists>y' msg cc ext. create_on ev req n sess y = Some (y', JSON 409 (BError msg)) \<and>
    c_ID cc = newContainerID (ev_id ev) \<and> c_State cc = ''starting'' \<and> c_ExternalPort cc = ext \<and>
    st_containers (sy_store y') = st_containers (sy_store y) @ [cc] \<and>
    (cq_PortMappings req \<noteq> [] \<longrightarrow> ext \<noteq> 0 \<and>
      st_ports (sy_store y') = st_ports (sy_store y) @ [\<lparr>p_port = ext, p_container = c_ID cc\<rparr>]) \<and>
    st_gpus (sy_store y') = st_gpus (sy_store y)"
proof -
  obtain y' msg ext cc where "create_on ev req n sess y = Some (y', JSON 409 (BError msg))"
    and ext: "ext = 0 \<longleftrightarrow> portMappingsToProto (cq_PortMappings req) = []"
    and "c_ID cc = newContainerID (ev_id ev)" "c_State cc = ''starting''" "c_ExternalPort cc = ext"
    "st_containers (sy_store y') = st_containers (sy_store y) @ [cc]"
    "st_ports (sy_store y') = st_ports (sy_store y) @
       (if ext = 0 then [] else [\<lparr>p_port = ext, p_container = newContainerID (ev_id ev)\<rparr>])"
    "st_gpus (sy_store y') = st_gpus (sy_store y)"
    using create_on_conflict [OF assms] by blast
  moreover from ext have "cq_PortMappings req \<noteq> [] \<Longrightarrow> ext \<noteq> 0" by (simp add: portMappingsToProto_def)
  ultimately show ?thesis by (intro exI [of _ y'] exI [of _ msg] exI [of _ cc] exI [of _ ext]) simp
qed

lemma conflict_leaks_row_and_port_witness:
  "\<exists>y' msg cc. create_on ex_env (ex_req\<lparr>cq_GPUIndices := [0]\<rparr>) ex_node ex_session ex_sys =
     Some (y', JSON 409 (BError msg)) \<and> st_containers (sy_store y') = [ex_container, cc]"
proof -
  have "insertable ex_env (ex_req\<lparr>cq_GPUIndices := [0]\<rparr>) ex_node (sy_store ex_sys)"
    using ex_creatable by (simp add: creatable_iff insertable_def)
  moreover have "holder (sy_store ex_sys) (n_ID ex_node, 0) \<noteq> None" by (simp add: holder_def ex_defs)
  moreover have "st_containers (sy_store ex_sys) = [ex_container]" by (simp add: ex_store_def)
  moreover have "cq_GPUCount (ex_req\<lparr>cq_GPUIndices := [0]\<rparr>) \<noteq> 0" by (simp add: ex_req_def)
  ultimately show ?thesis
    using conflict_leaks_row_and_port [of ex_env "ex_req\<lparr>cq_GPUIndices := [0]\<rparr>" ex_node ex_sys 0 ex_session] by auto
qed

text \<open>C26. An external port given by the user is not looked up in the port table: when the port belongs
  to another container, a create that can be served otherwise is still answered with 200, the proxy's
  route for the port now leads to the new container, and the table still says that the port is the
  other one's.\<close>

theorem user_port_takes_over_route:
  assumes c: "user_creatable ev req n (sy_store y)" and "cq_Image req \<noteq> []"
    and n: "cq_NodeID req = n_ID n" "n_ID n \<noteq> []"
    and g: "cq_GPUIndices req \<noteq> [] \<longrightarrow> distinct (cq_GPUIndices req) \<and>
      cq_GPUCount req = of_nat (length (cq_GPUIndices req)) \<and> (\<forall>i \<in> set (cq_GPUIndices req). i < n_GpuCount n)"
    and u: "node_usage (n_ID n) (sy_store y) < 2 ^ 32"
    and a: "reachable_agent (n_ID n) y sess" and m: "cq_PortMappings req \<noteq> []"
    and p: "\<lparr>p_port = cq_ExternalPort req, p_container = other\<rparr> \<in> set (st_ports (sy_store y))"
  shows "\<exists>y' cc url g. createContainer ev (Inr req) y = Some (y', JSON 200 (BCreated cc (n_ID n) (n_Name n) url g)) \<and>
    c_ID cc = newContainerID (ev_id ev) \<and> c_ExternalPort cc = cq_ExternalPort req \<and>
    map_of (px_routes (sy_proxy y')) (cq_ExternalPort req) =
      Some (route_of (c_ID cc) (n_ID n) (portMappingsToProto (cq_PortMappings req))) \<and>
    st_ports (sy_store y') = st_ports (sy_store y) \<and>
    \<lparr>p_port = cq_ExternalPort req, p_container = other\<rparr> \<in> set (st_ports (sy_store y'))"
proof -
  have ck: "check_indices req = Inr req" by (rule check_indices_ok) (use g n in simp)
  moreover have "pick_node req y = (y, Inr n)"
    using pinned_node_ok [of y n req] c n g u by (auto simp: pick_node_def user_creatable_def)
  moreover obtain y' cc url gs where
    "create_on ev req n sess y = Some (y', JSON 200 (BCreated cc (n_ID n) (n_Name n) url gs))"
    using create_on_user_ok [OF c, of sess] a by (auto simp: reachable_agent_def)
  ultimately have e: "createContainer ev (Inr req) y = Some (y', JSON 200 (BCreated cc (n_ID n) (n_Name n) url gs))"
    using assms(2) a by (simp add: createContainer_def reachable_agent_def)
  have "cq_ExternalPort req \<noteq> 0" using c by (simp add: user_creatable_def)
  with createContainer_facts [OF e] ck m
  have "c_ID cc = newContainerID (ev_id ev)" "c_ExternalPort cc = cq_ExternalPort req"
    "st_ports (sy_store y') = st_ports (sy_store y)" "map_of (px_routes (sy_proxy y')) (cq_ExternalPort req) =
      Some (route_of (c_ID cc) (n_ID n) (portMappingsToProto (cq_PortMappings req)))" by auto
  with e p show ?thesis by (intro exI conjI) (assumption | simp)+
qed

lemma user_port_takes_over_route_witness:
  "\<exists>y' cc url g. createContainer ex_env (Inr (ex_req\<lparr>cq_ExternalPort := 30000\<rparr>)) ex_sys =
     Some (y', JSON 200 (BCreated cc ''n1'' ''alpha'' url g)) \<and>
     map_of (px_routes (sy_proxy y')) 30000 = Some (route_of (c_ID cc) ''n1'' [\<lparr>pm_container_port = 80,
       pm_protocol = ''tcp'', pm_host_port = 80\<rparr>]) \<and>
     \<lparr>p_port = 30000, p_container = ''c1''\<rparr> \<in> set (st_ports (sy_store y'))"
proof -
  let ?r = "ex_req\<lparr>cq_ExternalPort := 30000\<rparr>"
  have n: "n_ID ex_node = ''n1''" "n_Name ex_node = ''alpha''" by (simp_all add: ex_node_def)
  have "user_creatable ex_env ?r ex_node (sy_store ex_sys)" by (simp add: ex_user_creatable)
  moreover have "node_usage (n_ID ex_node) (sy_store ex_sys) < 2 ^ 32" by (simp add: node_usage_def ex_defs)
  moreover have "cq_Image ?r \<noteq> []" "cq_NodeID ?r = n_ID ex_node" "cq_GPUIndices ?r = []" "cq_PortMappings ?r \<noteq> []"
    "portMappingsToProto (cq_PortMappings ?r) = [\<lparr>pm_container_port = 80, pm_protocol = ''tcp'', pm_host_port = 80\<rparr>]"
    by (simp_all add: ex_req_def n portMappingsToProto_def)
  moreover have "\<lparr>p_port = 30000, p_container = ''c1''\<rparr> \<in> set (st_ports (sy_store ex_sys))" by (simp add: ex_store_def)
  ultimately show ?thesis
    using user_port_takes_over_route [of ex_env ?r ex_node ex_sys ex_session "''c1''"] by (simp add: n ex_reachable) blast
qed

end
