(* ===== verification/Score_Order.thy ===== *)
theory Score_Order
  imports Create_Props
begin

text \<open>
  The scores of the nodes as a linear order, NaN above everything, so that the library's sorting
  applies to them; and the scheduler's loop against the reference "sort and take the head".
\<close>

section \<open>The order\<close>

instantiation f64 :: linorder
begin

definition less_eq_f64 :: "f64 \<Rightarrow> f64 \<Rightarrow> bool" where
  "less_eq_f64 a b \<longleftrightarrow> b = NaN \<or> a \<noteq> NaN \<and> \<not> f64_lt b a"

definition less_f64 :: "f64 \<Rightarrow> f64 \<Rightarrow> bool" where
  "less_f64 a b \<longleftrightarrow> a \<noteq> NaN \<and> (b = NaN \<or> f64_lt a b)"

instance
proof
  fix a b c :: f64
  show "(a < b) = (a \<le> b \<and> \<not> b \<le> a)" by (cases a; cases b) (auto simp: less_eq_f64_def less_f64_def)
  show "a \<le> a" by (simp add: less_eq_f64_def)
  show "a \<le> b \<Longrightarrow> b \<le> c \<Longrightarrow> a \<le> c"
    by (cases a; cases b; cases c) (auto simp: less_eq_f64_def)
  show "a \<le> b \<Longrightarrow> b \<le> a \<Longrightarrow> a = b" by (cases a; cases b) (auto simp: less_eq_f64_def)
  show "a \<le> b \<or> b \<le> a" by (cases a; cases b) (auto simp: less_eq_f64_def)
qed

end

lemma f64_lt_less: "f64_lt a b \<longleftrightarrow> a < b \<and> b \<noteq> NaN"
  by (cases a; cases b) (auto simp: less_f64_def)

section \<open>The head of a stable sort\<close>

lemma sort_key_least_first: "\<forall>y \<in> set ys. f n \<le> f y \<Longrightarrow> sort_key f (n # ys) = n # sort_key f ys"
  by (simp add: insort_is_Cons)

lemma sort_key_leftmost:
  fixes f :: "'a \<Rightarrow> 'b::linorder"
  assumes "\<forall>x \<in> set xs. f n < f x" and "\<forall>y \<in> set ys. f n \<le> f y"
  shows "\<exists>zs. sort_key f (xs @ n # ys) = n # zs"
  using assms
proof (induction xs)
  case Nil
  then have "sort_key f (n # ys) = n # sort_key f ys" by (intro sort_key_least_first) simp
  then show ?case by auto
next
  case (Cons x xs)
  then obtain zs where "sort_key f (xs @ n # ys) = n # zs" by auto
  moreover have "\<not> f x \<le> f n" using Cons.prems(1) by (simp add: not_le)
  ultimately show ?case by simp
qed

lemma ListNodes_sorted:
  assumes "ListNodes s = (s', Inr ns)"
  shows "sorted (map (\<lambda>n. - n_RegisteredAt n) ns)"
proof -
  have "scan_all scanNode (sort_key (\<lambda>r. - n_RegisteredAt r) (st_nodes s')) = Inr ns"
    using query_Inr [OF assms [unfolded ListNodes_def]] by blast
  then have "ns = sort_key (\<lambda>r. - n_RegisteredAt r) (st_nodes s')"
    by (auto simp: scan_all_Inr_iff scanNode_def list_all2_conv_all_nth intro!: nth_equalityI split: if_splits)
  then show ?thesis by simp
qed

definition least_scored :: "node list \<Rightarrow> node option" where
  "least_scored ns = (case sort_key score ns of [] \<Rightarrow> None
     | n # _ \<Rightarrow> if score n < Inf True then Some n else None)"

lemma leftmost_min_sorted: "leftmost_min None (Inf True) ns = least_scored ns"
proof (cases "leftmost_min None (Inf True) ns")
  case (Some n)
  then obtain xs ys where d: "f64_lt (score n) (Inf True)" "ns = xs @ n # ys"
    "\<forall>m \<in> set xs. score m = NaN \<or> f64_lt (score n) (score m)" "\<forall>m \<in> set ys. \<not> f64_lt (score m) (score n)"
    using leftmost_min_Some [OF Some] unfolding best_of_def by blast
  then have "score n \<noteq> NaN" by (metis f64_lt_nan(2))
  with d(3,4) have "\<forall>x \<in> set xs. score n < score x" "\<forall>y \<in> set ys. score n \<le> score y"
    unfolding less_f64_def less_eq_f64_def by (metis, metis)
  then have "\<exists>zs. sort_key score ns = n # zs" unfolding d(2) by (rule sort_key_leftmost)
  then obtain zs where "sort_key score ns = n # zs" ..
  moreover have "score n < Inf True" using d(1) by (simp only: f64_lt_less)
  ultimately show ?thesis using Some by (simp add: least_scored_def)
next
  case None
  then have "\<forall>m \<in> set (sort_key score ns). \<not> score m < Inf True" by (simp add: leftmost_min_None f64_lt_less)
  with None show ?thesis
    by (cases "sort_key score ns") (simp_all add: least_scored_def del: set_sort)
qed

text \<open>C22. The scheduler's single pass is equivalent to a reference: sort the nodes that pass the filters by
  score, stably and with unreadable scores last, and take the first. Among equally good nodes that is
  the one registered last.\<close>

theorem select_sorts:
  assumes "ListNodes s = (s1, Inr nodes)" and "GPUUsageByNode s1 = (s2, Inr used)"
  shows "(case snd (Select req s) of Inl e \<Rightarrow> None | Inr n \<Rightarrow> Some n) =
      (case sort_key score [n \<leftarrow> nodes. eligible req used n] of [] \<Rightarrow> None
       | n # _ \<Rightarrow> if score n < Inf True then Some n else None) \<and>
    sorted (map (\<lambda>n. - n_RegisteredAt n) nodes)"
proof
  let ?ns = "[n \<leftarrow> nodes. eligible req used n]"
  have "fst (select_loop req used nodes None (Inf True) no_stats) = least_scored ?ns"
    by (simp add: select_loop_spec leftmost_min_sorted)
  then obtain st where "select_loop req used nodes None (Inf True) no_stats = (least_scored ?ns, st)"
    by (metis prod.collapse)
  then show "(case snd (Select req s) of Inl e \<Rightarrow> None | Inr n \<Rightarrow> Some n) =
      (case sort_key score ?ns of [] \<Rightarrow> None | n # _ \<Rightarrow> if score n < Inf True then Some n else None)"
    unfolding least_scored_def [symmetric]
    by (cases "least_scored ?ns") (simp_all add: Select_def assms rejectionError_def)
  show "sorted (map (\<lambda>n. - n_RegisteredAt n) nodes)"
    using ListNodes_sorted [OF assms(1)] by simp
qed

lemma select_sorts_witness: "snd (Select ex_ask ex_store) = Inr ex_node \<and> score ex_node < Inf True"
proof -
  have l: "ListNodes ex_store = (ex_store, Inr [ex_node])"
    using healthy_queries(4) [OF ex_healthy] by (simp add: ex_store_def)
  have e: "eligible ex_ask [(''n1'', 1)] ex_node" "f64_lt (score ex_node) (Inf True)" by code_simp+
  then have "sort_key score [n \<leftarrow> [ex_node]. eligible ex_ask [(''n1'', 1)] n] = [ex_node]" "score ex_node < Inf True"
    by (simp_all add: f64_lt_less)
  with select_sorts [OF l ex_used, of ex_ask] show ?thesis by (simp split: sum.splits)
qed

end
