(* ===== verification/Docker.thy ===== *)
theory Docker
  imports Proto "HOL-Library.List_Lexorder" "HOL-Library.Char_ord"
begin

text \<open>
  The agent's client of the Docker Engine, \<open>internal/agent/docker/client.go\<close>. The daemon is an
  argument: a function from a request and a state \<open>'d\<close> to the next state and an answer, or the text
  of an error when the request could not be made. The answer carries its text and what
  \<open>encoding/json\<close> reads from it (\<open>Inl\<close> the error of a text that is not JSON); the text of a type
  error is abbreviated.
\<close>

section \<open>Requests\<close>

record http_request =
  hq_method :: string
  hq_path :: string
  hq_body :: "string option"

record http_answer =
  ha_status :: nat
  ha_text :: string
  ha_json :: "string + json"

type_synonym 'd daemon = "http_request \<Rightarrow> 'd \<Rightarrow> 'd \<times> (string + http_answer)"

definition doJSON ::
  "'d daemon \<Rightarrow> string \<Rightarrow> string \<Rightarrow> string option \<Rightarrow> 'd \<Rightarrow> 'd \<times> (string + http_answer)" where
  "doJSON http method path body d =
     (case http \<lparr>hq_method = method, hq_path = path, hq_body = body\<rparr> d of
        (d', Inl e) \<Rightarrow> (d', Inl e)
      | (d', Inr a) \<Rightarrow>
          if ha_status a \<ge> 400
          then (d', Inl (''docker '' @ method @ '' '' @ path @ '' -> '' @ itoa (ha_status a) @ '': '' @ ha_text a))
          else (d', Inr a))"

definition docker_do :: "'d daemon \<Rightarrow> string \<Rightarrow> string \<Rightarrow> 'd \<Rightarrow> 'd \<times> (string + http_answer)" where
  "docker_do http method path d = doJSON http method path None d"

section \<open>Escaping\<close>

definition replace_chars :: "(char \<times> string) list \<Rightarrow> string \<Rightarrow> string" where
  "replace_chars m s = concat (map (\<lambda>c. case map_of m c of None \<Rightarrow> [c] | Some r \<Rightarrow> r) s)"

definition query_escapes :: "(char \<times> string) list" where
  "query_escapes =
     [(CHR '' '', ''%20''), (CHR 0x22, ''%22''), (CHR 0x7B, ''%7B''), (CHR 0x7D, ''%7D''),
      (CHR ''['', ''%5B''), (CHR '']'', ''%5D''), (CHR '','', ''%2C'')]"

definition queryEscape :: "string \<Rightarrow> string" where
  "queryEscape s = replace_chars query_escapes s"

definition path_escapes :: "(char \<times> string) list" where
  "path_escapes =
     [(CHR '' '', ''%20''), (CHR 0x22, ''%22''), (CHR ''#'', ''%23''), (CHR ''?'', ''%3F''),
      (CHR ''@'', ''%40''), (CHR '':'', ''%3A'')]"

definition urlPathEscape :: "string \<Rightarrow> string" where
  "urlPathEscape s = replace_chars path_escapes s"

section \<open>Images\<close>

definition ImageExists :: "'d daemon \<Rightarrow> string \<Rightarrow> 'd \<Rightarrow> 'd \<times> (string + bool)" where
  "ImageExists http img d =
     (case docker_do http ''GET'' (''/images/'' @ urlPathEscape img @ ''/json'') d of
        (d', Inr _) \<Rightarrow> (d', Inr True)
      | (d', Inl e) \<Rightarrow> if contains e '' -> 404'' then (d', Inr False) else (d', Inl e))"

definition pull :: "'d daemon \<Rightarrow> string \<Rightarrow> 'd \<Rightarrow> 'd \<times> string option" where
  "pull http img d =
     (case doJSON http ''POST'' (''/images/create?fromImage='' @ img)
             (Some (render (JObj [(''image'', JStr img)]))) d of
        (d', Inl e) \<Rightarrow> (d', Some e)
      | (d', Inr _) \<Rightarrow> (d', None))"

section \<open>Creating a container\<close>

definition itoa_z :: "int \<Rightarrow> string" where
  "itoa_z i = (if i < 0 then CHR ''-'' # itoa (nat (- i)) else itoa (nat i))"

definition port_key :: "port_mapping \<Rightarrow> string" where
  "port_key p = itoa (unat (pm_container_port p)) @ ''/'' @
     (if pm_protocol p = [] then ''tcp'' else pm_protocol p)"

definition host_port :: "port_mapping \<Rightarrow> u32" where
  "host_port p = (if pm_host_port p = 0 then pm_container_port p else pm_host_port p)"

text \<open>The maps \<open>exposed\<close> and \<open>portBindings\<close> as \<open>json.Marshal\<close> writes them, with sorted keys; a later
  mapping of the same container port replaces the earlier one.\<close>

definition port_table :: "port_mapping list \<Rightarrow> (string \<times> u32) list" where
  "port_table ports = sort_key fst (fold (\<lambda>p m. AList.update (port_key p) (host_port p) m) ports [])"

definition json_slice :: "string list \<Rightarrow> json" where
  "json_slice xs = (if xs = [] then JNull else JArr (map JStr xs))"

definition cpu_fields :: "resource_spec \<Rightarrow> (string \<times> json) list" where
  "cpu_fields r =
     (if f64_gt0 (sp_cpu_cores r) then
        [(''CpuPeriod'', JNum ''100000''),
         (''CpuQuota'', JNum (itoa_z (int_of_f64 (f64_mul (sp_cpu_cores r) (Fin 100000)))))]
      else [])"

definition gpu_fields :: "resource_spec \<Rightarrow> (string \<times> json) list" where
  "gpu_fields r =
     (if sp_gpu_count r > 0 then
        [(''DeviceRequests'', JArr [JObj
           [(''Capabilities'', JArr [JArr [JStr ''gpu'']]),
            (if sp_gpu_device_ids r \<noteq> []
             then (''DeviceIDs'', JArr (map (\<lambda>i. JStr (itoa (unat i))) (sp_gpu_device_ids r)))
             else (''Count'', JNum (itoa (unat (sp_gpu_count r)))))]])]
      else [])"

definition memory_fields :: "resource_spec \<Rightarrow> (string \<times> json) list" where
  "memory_fields r =
     (if sp_memory_bytes r > 0 then [(''Memory'', JNum (itoa_z (sint (sp_memory_bytes r))))] else [])"

definition host_config :: "create_command \<Rightarrow> json" where
  "host_config cmd =
     JObj ([(''AutoRemove'', JBool False), (''Binds'', json_slice (cr_volume_binds cmd))] @
       (case cr_resources cmd of
          None \<Rightarrow> []
        | Some r \<Rightarrow> cpu_fields r @ gpu_fields r @ memory_fields r) @
       [(''PortBindings'', JObj (map (\<lambda>(k, p). (k, JArr [JObj [(''HostPort'', JStr (itoa (unat p)))]]))
          (port_table (cr_ports cmd))))])"

definition create_body :: "create_command \<Rightarrow> json" where
  "create_body cmd =
     JObj ([(''Cmd'', json_slice (cr_cmd cmd)), (''Env'', json_slice (cr_env cmd)),
        (''ExposedPorts'', JObj (map (\<lambda>(k, p). (k, JObj [])) (port_table (cr_ports cmd)))),
        (''HostConfig'', host_config cmd), (''Image'', JStr (cr_image cmd)),
        (''Labels'', JObj [(''pumpkinpie.container_id'', JStr (cr_container_id cmd)),
           (''pumpkinpie.managed'', JStr ''true'')])] @
       (if cr_name cmd \<noteq> [] then [(''name'', JStr (cr_name cmd))] else []))"

text \<open>Into a struct: keys match a field up to the case of ASCII letters, \<open>null\<close> changes nothing, a
  value of another type is an error (\<open>None\<close>), the last occurrence wins.\<close>

definition same_key :: "string \<Rightarrow> string \<Rightarrow> bool" where
  "same_key a b \<longleftrightarrow> map lower_ascii a = map lower_ascii b"

fun read_fields :: "(string \<Rightarrow> json \<Rightarrow> 'r \<Rightarrow> 'r option) \<Rightarrow> (string \<times> json) list \<Rightarrow> 'r \<Rightarrow> 'r option" where
  "read_fields put [] r = Some r"
| "read_fields put ((k, v) # kvs) r =
     (if v = JNull then read_fields put kvs r
      else case put k v r of None \<Rightarrow> None | Some r' \<Rightarrow> read_fields put kvs r')"

definition read_id :: "json \<Rightarrow> string option" where
  "read_id v =
     (case v of
        JNull \<Rightarrow> Some []
      | JObj kvs \<Rightarrow> read_fields (\<lambda>k v r. if same_key k ''Id'' then decode_str v else Some r) kvs []
      | _ \<Rightarrow> None)"

definition type_error :: string where
  "type_error = ''json: cannot unmarshal into Go value''"

definition image_ready :: "'d daemon \<Rightarrow> create_command \<Rightarrow> 'd \<Rightarrow> 'd \<times> string option" where
  "image_ready http cmd d =
     (if cr_pull cmd then
        (case pull http (cr_image cmd) d of
           (d1, Some e) \<Rightarrow> (d1, Some (''pull '' @ cr_image cmd @ '': '' @ e))
         | (d1, None) \<Rightarrow> (d1, None))
      else
        (case ImageExists http (cr_image cmd) d of
           (d1, Inl e) \<Rightarrow> (d1, None)
         | (d1, Inr True) \<Rightarrow> (d1, None)
         | (d1, Inr False) \<Rightarrow>
             (case pull http (cr_image cmd) d1 of
                (d2, Some e) \<Rightarrow> (d2, Some (''pull '' @ cr_image cmd @ '' (IfNotPresent): '' @ e))
              | (d2, None) \<Rightarrow> (d2, None))))"

definition Create :: "'d daemon \<Rightarrow> create_command \<Rightarrow> 'd \<Rightarrow> 'd \<times> (string + string)" where
  "Create http cmd d =
     (case image_ready http cmd d of
        (d1, Some e) \<Rightarrow> (d1, Inl e)
      | (d1, None) \<Rightarrow>
     (case doJSON http ''POST'' ''/containers/create'' (Some (render (create_body cmd))) d1 of
        (d2, Inl e) \<Rightarrow> (d2, Inl e)
      | (d2, Inr a) \<Rightarrow>
     (case ha_json a of
        Inl e \<Rightarrow> (d2, Inl e)
      | Inr v \<Rightarrow>
     (case read_id v of
        None \<Rightarrow> (d2, Inl type_error)
      | Some did \<Rightarrow>
          if did = [] then (d2, Inl (''empty container id; response: '' @ ha_text a))
          else
            (case docker_do http ''POST'' (''/containers/'' @ did @ ''/start'') d2 of
               (d3, Inl e) \<Rightarrow> (d3, Inl e)
             | (d3, Inr _) \<Rightarrow> (d3, Inr did))))))"

section \<open>Stopping, starting\<close>

text \<open>The result is the error, if any.\<close>

definition docker_Stop :: "'d daemon \<Rightarrow> string \<Rightarrow> bool \<Rightarrow> 'd \<Rightarrow> 'd \<times> string option" where
  "docker_Stop http dockerID remove d =
     (case docker_do http ''POST'' (''/containers/'' @ dockerID @ ''/stop?t=10'') d of
        (d1, r) \<Rightarrow>
          (case r of
             Inl e \<Rightarrow>
               if \<not> contains e ''is not running'' \<and> \<not> contains e ''No such container'' then (d1, Some e)
               else if remove then
                 (case docker_do http ''DELETE'' (''/containers/'' @ dockerID @ ''?v=1&force=1'') d1 of
                    (d2, Inl e) \<Rightarrow> (d2, Some e) | (d2, Inr _) \<Rightarrow> (d2, None))
               else (d1, None)
           | Inr _ \<Rightarrow>
               if remove then
                 (case docker_do http ''DELETE'' (''/containers/'' @ dockerID @ ''?v=1&force=1'') d1 of
                    (d2, Inl e) \<Rightarrow> (d2, Some e) | (d2, Inr _) \<Rightarrow> (d2, None))
               else (d1, None)))"

definition docker_Start :: "'d daemon \<Rightarrow> string \<Rightarrow> 'd \<Rightarrow> 'd \<times> string option" where
  "docker_Start http dockerID d =
     (case docker_do http ''POST'' (''/containers/'' @ dockerID @ ''/start'') d of
        (d', Inl e) \<Rightarrow> (d', Some e)
      | (d', Inr _) \<Rightarrow> (d', None))"

section \<open>Events\<close>

record container_event =
  ev_ID :: string
  ev_Action :: string
  ev_Time :: gotime
  ev_Attributes :: "(string \<times> string) list"

definition events_filter :: json where
  "events_filter = JObj [(''label'', JObj [(''pumpkinpie.managed'', JStr ''true'')]), (''type'', JStr ''container'')]"

text \<open>\<open>since.Unix()\<close> counts whole seconds.\<close>

definition events_path :: "gotime \<Rightarrow> string" where
  "events_path since =
     ''/events?filters='' @ queryEscape (render events_filter) @
       (if is_zero since then [] else ''&since='' @ itoa_z (since div 1000000000))"

record raw_event =
  re_ID :: string
  re_Type :: string
  re_Action :: string
  re_Time :: int
  re_ActorID :: string
  re_Attributes :: "(string \<times> string) list"

text \<open>A JSON number into an \<open>int64\<close>.\<close>

definition decode_i64 :: "json \<Rightarrow> int option" where
  "decode_i64 v =
     (case v of
        JNum t \<Rightarrow>
          (case (if hasPrefix t ''-'' then map_option (\<lambda>n. - int n) (atoi (drop 1 t)) else map_option int (atoi t)) of
             None \<Rightarrow> None
           | Some i \<Rightarrow> if - (2 ^ 63) \<le> i \<and> i < 2 ^ 63 then Some i else None)
      | _ \<Rightarrow> None)"

definition decode_string_map :: "json \<Rightarrow> (string \<times> string) list option" where
  "decode_string_map v =
     (case v of
        JObj kvs \<Rightarrow> fold (\<lambda>(k, v) m. case m of None \<Rightarrow> None | Some m \<Rightarrow>
            (case v of JNull \<Rightarrow> Some (AList.update k [] m) | JStr s \<Rightarrow> Some (AList.update k s m) | _ \<Rightarrow> None))
          kvs (Some [])
      | _ \<Rightarrow> None)"

definition put_actor :: "string \<Rightarrow> json \<Rightarrow> raw_event \<Rightarrow> raw_event option" where
  "put_actor k v r =
     (if same_key k ''ID'' then map_option (\<lambda>s. r\<lparr>re_ActorID := s\<rparr>) (decode_str v)
      else if same_key k ''Attributes'' then map_option (\<lambda>m. r\<lparr>re_Attributes := m\<rparr>) (decode_string_map v)
      else Some r)"

definition put_event :: "string \<Rightarrow> json \<Rightarrow> raw_event \<Rightarrow> raw_event option" where
  "put_event k v r =
     (if same_key k ''status'' then map_option (\<lambda>s. r) (decode_str v)
      else if same_key k ''id'' then map_option (\<lambda>s. r\<lparr>re_ID := s\<rparr>) (decode_str v)
      else if same_key k ''Type'' then map_option (\<lambda>s. r\<lparr>re_Type := s\<rparr>) (decode_str v)
      else if same_key k ''Action'' then map_option (\<lambda>s. r\<lparr>re_Action := s\<rparr>) (decode_str v)
      else if same_key k ''time'' then map_option (\<lambda>i. r\<lparr>re_Time := i\<rparr>) (decode_i64 v)
      else if same_key k ''Actor'' then
        (case v of JObj kvs \<Rightarrow> read_fields put_actor kvs r | _ \<Rightarrow> None)
      else Some r)"

definition no_event :: raw_event where
  "no_event = \<lparr>re_ID = [], re_Type = [], re_Action = [], re_Time = 0, re_ActorID = [], re_Attributes = []\<rparr>"

definition decode_event :: "json \<Rightarrow> raw_event option" where
  "decode_event v =
     (case v of
        JNull \<Rightarrow> Some no_event
      | JObj kvs \<Rightarrow> read_fields put_event kvs no_event
      | _ \<Rightarrow> None)"

definition event_of_raw :: "raw_event \<Rightarrow> container_event" where
  "event_of_raw r =
     \<lparr>ev_ID = (if re_ID r \<noteq> [] \<and> re_ActorID r = [] then re_ID r else re_ActorID r),
      ev_Action = re_Action r,
      ev_Time = (if re_Time r > 0 then re_Time r * 1000000000 else zero_time),
      ev_Attributes = re_Attributes r\<rparr>"

text \<open>The values of the stream, up to the first that does not decode.\<close>

fun stream_events :: "json list \<Rightarrow> container_event list" where
  "stream_events [] = []"
| "stream_events (v # vs) =
     (case decode_event v of
        None \<Rightarrow> []
      | Some r \<Rightarrow>
          if re_Type r \<noteq> [] \<and> re_Type r \<noteq> ''container'' then stream_events vs
          else event_of_raw r # stream_events vs)"

text \<open>\<open>open path d\<close> is the long poll: an error, or a status with the body (its text when it is an
  error, its JSON values otherwise).\<close>

definition Events ::
  "(string \<Rightarrow> 'd \<Rightarrow> 'd \<times> (string + nat \<times> string \<times> json list)) \<Rightarrow> gotime \<Rightarrow> 'd \<Rightarrow>
     'd \<times> (string + container_event list)" where
  "Events poll since d =
     (let path = events_path since in
      case poll path d of
        (d', Inl e) \<Rightarrow> (d', Inl (''docker events: '' @ e))
      | (d', Inr (code, text, vs)) \<Rightarrow>
          if code \<ge> 400 then (d', Inl (''docker GET '' @ path @ '' -> '' @ itoa code @ '': '' @ text))
          else (d', Inr (stream_events vs)))"

section \<open>Listing\<close>

record container_info =
  ci_ContainerId :: string
  ci_DockerId :: string
  ci_Name :: string
  ci_Image :: string
  ci_State :: string
  ci_Status :: string
  ci_Ports :: "port_mapping list"

definition list_filter :: json where
  "list_filter = JObj [(''label'', JArr [JStr ''pumpkinpie.managed=true''])]"

text \<open>A member of a \<open>map[string]any\<close> (the last occurrence of its key), and the type assertions with
  their comma-ok form.\<close>

definition member :: "json \<Rightarrow> string \<Rightarrow> json" where
  "member v k =
     (case v of JObj kvs \<Rightarrow> (case map_of (rev kvs) k of None \<Rightarrow> JNull | Some x \<Rightarrow> x) | _ \<Rightarrow> JNull)"

definition as_string :: "json \<Rightarrow> string" where
  "as_string v = (case v of JStr s \<Rightarrow> s | _ \<Rightarrow> [])"

definition as_list :: "json \<Rightarrow> json list" where
  "as_list v = (case v of JArr vs \<Rightarrow> vs | _ \<Rightarrow> [])"

definition as_f64 :: "json \<Rightarrow> f64" where
  "as_f64 v = (case v of JNum t \<Rightarrow> (case atof t of Some x \<Rightarrow> x | None \<Rightarrow> Fin 0) | _ \<Rightarrow> Fin 0)"

text \<open>A number out of the range of \<open>float64\<close> is an \<open>Unmarshal\<close> error.\<close>

fun numbers_ok :: "json \<Rightarrow> bool" where
  "numbers_ok (JNum t) \<longleftrightarrow> atof t \<noteq> None"
| "numbers_ok (JArr vs) \<longleftrightarrow> (\<forall>v \<in> set vs. numbers_ok v)"
| "numbers_ok (JObj kvs) \<longleftrightarrow> (\<forall>kv \<in> set kvs. numbers_ok (snd kv))"
| "numbers_ok _ \<longleftrightarrow> True"

definition info_of :: "json \<Rightarrow> container_info option" where
  "info_of ci =
     (let cid = as_string (member (member ci ''Labels'') ''pumpkinpie.container_id'') in
      if cid = [] then None
      else Some
        \<lparr>ci_ContainerId = cid, ci_DockerId = as_string (member ci ''Id''),
         ci_Name = (case as_list (member ci ''Names'') of [] \<Rightarrow> [] | n # _ \<Rightarrow> trimPrefix (as_string n) ''/''),
         ci_Image = as_string (member ci ''Image''), ci_State = as_string (member ci ''State''),
         ci_Status = as_string (member ci ''Status''),
         ci_Ports = map (\<lambda>p. \<lparr>pm_container_port = of_int (int_of_f64 (as_f64 (member p ''PrivatePort''))),
             pm_protocol = as_string (member p ''Type''), pm_host_port = 0\<rparr>) (as_list (member ci ''Ports''))\<rparr>)"

definition object_or_null :: "json \<Rightarrow> bool" where
  "object_or_null v = (case v of JObj _ \<Rightarrow> True | JNull \<Rightarrow> True | _ \<Rightarrow> False)"

definition ListAgent :: "'d daemon \<Rightarrow> 'd \<Rightarrow> 'd \<times> (string + container_info list)" where
  "ListAgent http d =
     (case doJSON http ''GET'' (''/containers/json?all=1&filters='' @ queryEscape (render list_filter)) None d of
        (d', Inl e) \<Rightarrow> (d', Inl e)
      | (d', Inr a) \<Rightarrow>
     (case ha_json a of
        Inl e \<Rightarrow> (d', Inl e)
      | Inr JNull \<Rightarrow> (d', Inr [])
      | Inr (JArr vs) \<Rightarrow>
          if list_all object_or_null vs \<and> list_all numbers_ok vs then (d', Inr (List.map_filter info_of vs))
          else (d', Inl type_error)
      | Inr _ \<Rightarrow> (d', Inl type_error)))"

definition shortID :: "string \<Rightarrow> string" where
  "shortID s = take 12 s"

section \<open>Facts\<close>

text \<open>A daemon that keeps the requests it answered.\<close>

type_synonym exchange = "http_request \<times> (string + http_answer)"

definition logged :: "'d daemon \<Rightarrow> (exchange list \<times> 'd) daemon" where
  "logged http q ld = (case http q (snd ld) of (d', r) \<Rightarrow> ((fst ld @ [(q, r)], d'), r))"

definition request :: "string \<Rightarrow> string \<Rightarrow> string option \<Rightarrow> http_request" where
  "request m p b = \<lparr>hq_method = m, hq_path = p, hq_body = b\<rparr>"

lemma request_fields [simp]: "hq_method (request m p b) = m" "hq_path (request m p b) = p"
  by (simp_all add: request_def)

lemma doJSON_logged:
  assumes "doJSON (logged http) m p b (l, d) = ((l', d'), r)"
  obtains x where "l' = l @ [(request m p b, x)]"
    "case r of Inl e \<Rightarrow> (case x of Inl e' \<Rightarrow> e = e' | Inr a \<Rightarrow> ha_status a \<ge> 400)
     | Inr a \<Rightarrow> x = Inr a \<and> ha_status a < 400"
  using assms
  by (auto simp: doJSON_def logged_def request_def split: prod.splits sum.splits if_splits)

lemma pull_logged:
  assumes "pull (logged http) img (l, d) = ((l', d'), r)"
  obtains q x where "l' = l @ [(q, x)]" "hq_method q = ''POST''" "hasPrefix (hq_path q) ''/images/''"
proof -
  let ?p = "''/images/create?fromImage='' @ img" and ?b = "Some (render (JObj [(''image'', JStr img)]))"
  obtain l1 d1 r1 where j: "doJSON (logged http) ''POST'' ?p ?b (l, d) = ((l1, d1), r1)"
    by (metis prod.exhaust)
  then have "l' = l1" using assms unfolding pull_def j by (cases r1) (auto simp del: render.simps)
  moreover from j obtain x where "l1 = l @ [(request ''POST'' ?p ?b, x)]" by (rule doJSON_logged)
  ultimately show ?thesis using that [of "request ''POST'' ?p ?b" x] by (simp add: hasPrefix_def)
qed

lemma ImageExists_logged:
  assumes "ImageExists (logged http) img (l, d) = ((l', d'), r)"
  obtains q x where "l' = l @ [(q, x)]" "hq_method q = ''GET''" "hasPrefix (hq_path q) ''/images/''"
proof -
  let ?p = "''/images/'' @ urlPathEscape img @ ''/json''"
  obtain l1 d1 r1 where j: "doJSON (logged http) ''GET'' ?p None (l, d) = ((l1, d1), r1)"
    by (metis prod.exhaust)
  then have "l' = l1" using assms by (cases r1) (auto simp: ImageExists_def docker_do_def split: if_splits)
  moreover from j obtain x where "l1 = l @ [(request ''GET'' ?p None, x)]" by (rule doJSON_logged)
  ultimately show ?thesis using that [of "request ''GET'' ?p None" x] by (simp add: hasPrefix_def)
qed

definition image_request :: "exchange \<Rightarrow> bool" where
  "image_request x \<longleftrightarrow> hasPrefix (hq_path (fst x)) ''/images/'' \<and> hq_method (fst x) \<noteq> ''DELETE''"

lemma image_ready_logged:
  assumes "image_ready (logged http) cmd (l, d) = ((l', d'), r)"
  obtains pre where "l' = l @ pre" "\<forall>x \<in> set pre. image_request x"
proof (cases "cr_pull cmd")
  case True
  obtain l1 d1 r1 where p: "pull (logged http) (cr_image cmd) (l, d) = ((l1, d1), r1)" by (metis prod.exhaust)
  then have "l' = l1" using assms True by (cases r1) (auto simp: image_ready_def)
  moreover from p obtain q x where "l1 = l @ [(q, x)]" "hq_method q = ''POST''" "hasPrefix (hq_path q) ''/images/''"
    by (rule pull_logged)
  ultimately show ?thesis by (intro that) (auto simp: image_request_def)
next
  case False
  obtain l1 d1 r1 where e: "ImageExists (logged http) (cr_image cmd) (l, d) = ((l1, d1), r1)" by (metis prod.exhaust)
  then obtain q x where l1: "l1 = l @ [(q, x)]" "hq_method q = ''GET''" "hasPrefix (hq_path q) ''/images/''"
    by (rule ImageExists_logged)
  show ?thesis
  proof (cases "r1 = Inr False")
    case True
    obtain l2 d2 r2 where p: "pull (logged http) (cr_image cmd) (l1, d1) = ((l2, d2), r2)" by (metis prod.exhaust)
    then have "l' = l2" using assms True \<open>\<not> cr_pull cmd\<close> e by (cases r2) (auto simp: image_ready_def)
    moreover from p obtain q' x' where "l2 = l1 @ [(q', x')]" "hq_method q' = ''POST''"
      "hasPrefix (hq_path q') ''/images/''" by (rule pull_logged)
    ultimately show ?thesis using l1 by (intro that) (auto simp: image_request_def)
  next
    case no: False
    then have "l' = l1" using assms \<open>\<not> cr_pull cmd\<close> e by (auto simp: image_ready_def split: sum.splits bool.splits)
    with l1 show ?thesis by (intro that) (auto simp: image_request_def)
  qed
qed

text \<open>The requests of a successful \<open>Create\<close>, in order.\<close>

lemma Create_Inr:
  assumes "Create (logged http) cmd (l, d) = ((l', d'), Inr did)"
  obtains pre a b where
    "l' = l @ pre @ [(request ''POST'' ''/containers/create'' (Some (render (create_body cmd))), Inr a),
       (request ''POST'' (''/containers/'' @ did @ ''/start'') None, Inr b)]"
    "\<forall>x \<in> set pre. image_request x" "ha_status a < 400" "ha_status b < 400" "did \<noteq> []"
    "\<exists>v. ha_json a = Inr v \<and> read_id v = Some did"
proof -
  obtain l1 d1 r1 where i: "image_ready (logged http) cmd (l, d) = ((l1, d1), r1)" by (metis prod.exhaust)
  with assms have "r1 = None" by (cases r1) (auto simp: Create_def)
  from i obtain pre where pre: "l1 = l @ pre" "\<forall>x \<in> set pre. image_request x" by (rule image_ready_logged)
  let ?b = "Some (render (create_body cmd))"
  obtain l2 d2 r2 where c: "doJSON (logged http) ''POST'' ''/containers/create'' ?b (l1, d1) = ((l2, d2), r2)"
    by (metis prod.exhaust)
  with assms i \<open>r1 = None\<close> obtain a where a: "r2 = Inr a" by (cases r2) (auto simp: Create_def)
  with assms i \<open>r1 = None\<close> c obtain v did' where v: "ha_json a = Inr v" "read_id v = Some did'" "did' \<noteq> []"
    by (auto simp: Create_def split: sum.splits option.splits if_splits)
  let ?s = "''/containers/'' @ did' @ ''/start''"
  obtain l3 d3 r3 where s: "doJSON (logged http) ''POST'' ?s None (l2, d2) = ((l3, d3), r3)" by (metis prod.exhaust)
  with assms i \<open>r1 = None\<close> c a v obtain b where b: "r3 = Inr b"
    by (cases r3) (auto simp: Create_def docker_do_def)
  from assms i \<open>r1 = None\<close> c a v s b have "did = did'" "l' = l3"
    by (auto simp: Create_def docker_do_def)
  moreover from c a have "l2 = l1 @ [(request ''POST'' ''/containers/create'' ?b, Inr a)] \<and> ha_status a < 400"
    by (auto elim!: doJSON_logged)
  moreover from s b have "l3 = l2 @ [(request ''POST'' ?s None, Inr b)] \<and> ha_status b < 400"
    by (auto elim!: doJSON_logged)
  ultimately show ?thesis using pre v by (intro that) auto
qed

text \<open>\<open>Create\<close> never asks the daemon to remove anything, whatever fails.\<close>

lemma doJSON_no_delete:
  assumes "doJSON (logged http) m p b (l, d) = ((l', d'), r)" and "m \<noteq> ''DELETE''"
    and "\<forall>x \<in> set l. hq_method (fst x) \<noteq> ''DELETE''"
  shows "\<forall>x \<in> set l'. hq_method (fst x) \<noteq> ''DELETE''"
  using assms by (auto elim!: doJSON_logged)

lemma Create_no_delete:
  assumes "Create (logged http) cmd (l, d) = ((l', d'), r)" and "\<forall>x \<in> set l. hq_method (fst x) \<noteq> ''DELETE''"
  shows "\<forall>x \<in> set l'. hq_method (fst x) \<noteq> ''DELETE''"
proof -
  obtain l1 d1 r1 where i: "image_ready (logged http) cmd (l, d) = ((l1, d1), r1)" by (metis prod.exhaust)
  from i obtain pre where "l1 = l @ pre" "\<forall>x \<in> set pre. image_request x" by (rule image_ready_logged)
  then have 1: "\<forall>x \<in> set l1. hq_method (fst x) \<noteq> ''DELETE''"
    using assms(2) by (auto simp: image_request_def)
  obtain l2 d2 r2 where c: "doJSON (logged http) ''POST'' ''/containers/create''
      (Some (render (create_body cmd))) (l1, d1) = ((l2, d2), r2)" by (metis prod.exhaust)
  have 2: "\<forall>x \<in> set l2. hq_method (fst x) \<noteq> ''DELETE''" by (rule doJSON_no_delete [OF c _ 1]) simp
  have 3: "\<forall>x \<in> set l3. hq_method (fst x) \<noteq> ''DELETE''"
    if "doJSON (logged http) ''POST'' p None (l2, d2) = ((l3, d3), r3)" for p l3 d3 r3
    by (rule doJSON_no_delete [OF that _ 2]) simp
  show ?thesis
    using assms(1) 1 2 i c
    by (auto simp: Create_def docker_do_def split: option.splits sum.splits if_splits prod.splits dest: 3)
qed

lemma ImageExists_404:
  assumes "http (request ''GET'' (''/images/'' @ urlPathEscape img @ ''/json'') None) d = (d', Inr a)"
  shows "ha_status a < 400 \<Longrightarrow> ImageExists http img d = (d', Inr True)"
    and "ha_status a = 404 \<Longrightarrow> ImageExists http img d = (d', Inr False)"
proof -
  show "ImageExists http img d = (d', Inr True)" if "ha_status a < 400"
    using assms that by (simp add: ImageExists_def docker_do_def doJSON_def request_def)
  assume s: "ha_status a = 404"
  have "contains (p @ '' -> '' @ itoa 404 @ q) '' -> 404''" for p q
    by (simp add: contains_iff itoa.simps digits_def) (metis append_Cons append_Nil)
  from this [of "''docker GET /images/'' @ urlPathEscape img @ ''/json''" "'': '' @ ha_text a"]
  show "ImageExists http img d = (d', Inr False)"
    using assms s by (simp add: ImageExists_def docker_do_def doJSON_def request_def)
qed

lemma replace_chars_clean:
  assumes "\<forall>(c, r) \<in> set m. set r \<inter> fst ` set m = {}"
  shows "set (replace_chars m s) \<inter> fst ` set m = {}"
proof -
  have "x \<notin> fst ` set m" if x: "x \<in> set (case map_of m c of None \<Rightarrow> [c] | Some r \<Rightarrow> r)" for c x
  proof (cases "map_of m c")
    case None
    then have "x = c" using x by simp
    then show ?thesis using None by (simp add: map_of_eq_None_iff)
  next
    case (Some r)
    then have "(c, r) \<in> set m" by (rule map_of_SomeD)
    then have "set r \<inter> fst ` set m = {}" using assms by blast
    then show ?thesis using x Some by auto
  qed
  then show ?thesis unfolding replace_chars_def by auto
qed

lemma urlPathEscape_clean: "set (urlPathEscape s) \<inter> {CHR '' '', CHR 0x22, CHR ''#'', CHR ''?'', CHR ''@'', CHR '':''} = {}"
  using replace_chars_clean [of path_escapes s] by (simp add: path_escapes_def urlPathEscape_def)

end
