(* ===== verification/Docker_Ports.thy ===== *)
theory Docker_Ports
  imports Docker
begin

text \<open>
  The rest of the Docker client: \<open>Ping\<close>, \<open>Inspect\<close> and the lookup of a published port, with the part
  of \<open>fmt.Sscanf\<close> it uses. The agent does not call them. What the lookup finds is what the body of
  the create request asked for.
\<close>

definition Ping :: "'d daemon \<Rightarrow> 'd \<Rightarrow> 'd \<times> string option" where
  "Ping http d =
     (case docker_do http ''GET'' ''/_ping'' d of
        (d', Inl e) \<Rightarrow> (d', Some e)
      | (d', Inr _) \<Rightarrow> (d', None))"

text \<open>Into a \<open>map[string]any\<close>; \<open>null\<close> is the nil map.\<close>

definition Inspect :: "'d daemon \<Rightarrow> string \<Rightarrow> 'd \<Rightarrow> 'd \<times> (string + json)" where
  "Inspect http dockerID d =
     (case doJSON http ''GET'' (''/containers/'' @ dockerID @ ''/json'') None d of
        (d', Inl e) \<Rightarrow> (d', Inl e)
      | (d', Inr a) \<Rightarrow>
     (case ha_json a of
        Inl e \<Rightarrow> (d', Inl e)
      | Inr v \<Rightarrow> if object_or_null v \<and> numbers_ok v then (d', Inr v) else (d', Inl type_error)))"

section \<open>The verb d\<close>

text \<open>\<open>SkipSpace\<close> of \<open>Sscanf\<close>: a line feed is an error.\<close>

definition skip_space :: "string \<Rightarrow> string option" where
  "skip_space s =
     (let r = trim_left [e \<leftarrow> go_spaces. e \<noteq> [CHR 0x0A]] s in
      if hasPrefix r [CHR 0x0A] then None else Some r)"

definition scan_nat :: "string \<Rightarrow> nat option" where
  "scan_nat s = atoi (takeWhile (\<lambda>c. c \<in> set digits) s)"

definition Sscanf_int :: "string \<Rightarrow> int option" where
  "Sscanf_int s =
     (case skip_space s of
        None \<Rightarrow> None
      | Some r \<Rightarrow>
     (case (if hasPrefix r ''-'' then map_option (\<lambda>n. - int n) (scan_nat (drop 1 r))
            else if hasPrefix r ''+'' then map_option int (scan_nat (drop 1 r))
            else map_option int (scan_nat r)) of
        None \<Rightarrow> None
      | Some i \<Rightarrow> if - (2 ^ 63) \<le> i \<and> i < 2 ^ 63 then Some i else None))"

definition Sscanf_u16 :: "string \<Rightarrow> 16 word option" where
  "Sscanf_u16 s =
     (case skip_space s of
        None \<Rightarrow> None
      | Some r \<Rightarrow>
     (case scan_nat r of
        None \<Rightarrow> None
      | Some n \<Rightarrow> if n < 2 ^ 16 then Some (of_nat n) else None))"

section \<open>Published ports\<close>

definition splitPortKey :: "string \<Rightarrow> (int \<times> string) option" where
  "splitPortKey k =
     (case indexP (\<lambda>c. c = CHR ''/'') k of
        None \<Rightarrow> None
      | Some idx \<Rightarrow>
     (case Sscanf_int (take idx k) of
        None \<Rightarrow> None
      | Some n \<Rightarrow> Some (n, drop (Suc idx) k)))"

text \<open>The members of a \<open>map[string]any\<close>, and the first result of a search through a list.\<close>

definition members :: "json \<Rightarrow> (string \<times> json) list" where
  "members v = (case v of JObj kvs \<Rightarrow> map (\<lambda>k. (k, member v k)) (remdups (map fst kvs)) | _ \<Rightarrow> [])"

fun first_some :: "('a \<Rightarrow> 'b option) \<Rightarrow> 'a list \<Rightarrow> 'b option" where
  "first_some f [] = None"
| "first_some f (x # xs) = (case f x of None \<Rightarrow> first_some f xs | Some y \<Rightarrow> Some y)"

definition bound_port :: "json \<Rightarrow> 16 word option" where
  "bound_port b =
     (case Sscanf_u16 (as_string (member b ''HostPort'')) of
        None \<Rightarrow> None
      | Some p \<Rightarrow> if p > 0 then Some p else None)"

text \<open>The conversion of the key's port to \<open>uint16\<close> truncates.\<close>

definition mapped_in :: "16 word \<Rightarrow> string \<times> json \<Rightarrow> 16 word option" where
  "mapped_in containerPort = (\<lambda>(k, v).
     case splitPortKey k of
       None \<Rightarrow> None
     | Some (keyPort, proto) \<Rightarrow>
         if of_int keyPort \<noteq> containerPort then None else first_some bound_port (as_list v))"

text \<open>\<open>visit\<close> is the order in which \<open>range\<close> goes through the map.\<close>

definition MappedHostPort ::
  "'d daemon \<Rightarrow> ((string \<times> json) list \<Rightarrow> (string \<times> json) list) \<Rightarrow> string \<Rightarrow> 16 word \<Rightarrow> 'd \<Rightarrow>
     'd \<times> (string + 16 word)" where
  "MappedHostPort http visit dockerID containerPort d =
     (case Inspect http dockerID d of
        (d', Inl e) \<Rightarrow> (d', Inl e)
      | (d', Inr insp) \<Rightarrow> (d',
     (case first_some (mapped_in containerPort)
          (visit (members (member (member insp ''NetworkSettings'') ''Ports''))) of
        Some p \<Rightarrow> Inr p
      | None \<Rightarrow> Inl (''no host port mapping for '' @ itoa (unat containerPort) @ '' in container '' @
                   shortID dockerID))))"

section \<open>What the lookup finds\<close>

lemma itoa_digits: "c \<in> set (itoa n) \<Longrightarrow> c \<in> set digits"
  using set_itoa [of n] by blast

lemma digit_no_space: "e \<in> set go_spaces \<Longrightarrow> c \<in> set digits \<Longrightarrow> \<not> hasPrefix (c # cs) e \<and> e \<noteq> []"
  by (auto simp: go_spaces_def digits_def hasPrefix_def)

lemma skip_space_digit:
  assumes "s \<noteq> []" "hd s \<in> set digits"
  shows "skip_space s = Some s"
proof -
  obtain c cs where s: "s = c # cs" "c \<in> set digits" using assms by (cases s) auto
  then have "find (\<lambda>e. e \<noteq> [] \<and> hasPrefix s e) [e \<leftarrow> go_spaces. e \<noteq> [CHR 0x0A]] = None"
    using digit_no_space by (auto simp: find_None_iff)
  then have "trim_left [e \<leftarrow> go_spaces. e \<noteq> [CHR 0x0A]] s = s" by (subst trim_left.simps) simp
  moreover have "\<not> hasPrefix s [CHR 0x0A]" using s by (auto simp: hasPrefix_def digits_def)
  ultimately show ?thesis by (simp add: skip_space_def)
qed

lemma hd_itoa: "hd (itoa n) \<in> set digits"
  by (rule itoa_digits [of _ n]) (simp add: hd_in_set)

lemma scan_itoa: "scan_nat (itoa n) = Some n"
  using itoa_digits [of _ n] by (simp add: scan_nat_def takeWhile_eq_all_conv [THEN iffD2])

lemma Sscanf_itoa:
  "n < 2 ^ 63 \<Longrightarrow> Sscanf_int (itoa n) = Some (int n)"
  "n < 2 ^ 16 \<Longrightarrow> Sscanf_u16 (itoa n) = Some (of_nat n)"
proof -
  have "\<not> hasPrefix (itoa n) ''-''" "\<not> hasPrefix (itoa n) ''+''"
    using hd_itoa [of n] by (cases "itoa n"; auto simp: hasPrefix_def digits_def)+
  then show "n < 2 ^ 63 \<Longrightarrow> Sscanf_int (itoa n) = Some (int n)"
    and "n < 2 ^ 16 \<Longrightarrow> Sscanf_u16 (itoa n) = Some (of_nat n)"
    using hd_itoa [of n] by (simp_all add: Sscanf_int_def Sscanf_u16_def skip_space_digit scan_itoa)
qed

lemma index_sep: "\<forall>c \<in> set t. \<not> p c \<Longrightarrow> p d \<Longrightarrow> indexP p (t @ d # r) = Some (length t)"
  by (induction t) auto

lemma split_port_key: "splitPortKey (port_key pm) =
    Some (int (unat (pm_container_port pm)), if pm_protocol pm = [] then ''tcp'' else pm_protocol pm)"
proof -
  let ?n = "unat (pm_container_port pm)"
  have "\<forall>c \<in> set (itoa ?n). c \<noteq> CHR ''/''" using itoa_digits [of _ ?n] by (auto simp: digits_def)
  moreover have "?n < 2 ^ LENGTH(32)" by (rule unsigned_less)
  then have "?n < 2 ^ 63" by simp
  ultimately show ?thesis
    by (simp add: splitPortKey_def port_key_def index_sep Sscanf_itoa)
qed

lemma port_table_keys: "distinct (map fst (port_table ports))"
proof -
  have "distinct (map fst (fold (\<lambda>p m. AList.update (port_key p) (host_port p) m) ports al))"
    if "distinct (map fst al)" for al :: "(string \<times> u32) list"
    using that by (induction ports arbitrary: al) (simp_all add: distinct_update)
  then show ?thesis by (simp add: port_table_def distinct_map)
qed

lemma port_table_of:
  "map_of (port_table ports) k = map_option host_port (find (\<lambda>p. port_key p = k) (rev ports))"
proof -
  let ?f = "fold (\<lambda>p m. AList.update (port_key p) (host_port p) m) ports []"
  have "distinct (map fst ?f)"
    using port_table_keys [of ports] by (simp add: port_table_def distinct_map)
  then have "map_of (port_table ports) = map_of ?f"
    using port_table_keys [of ports] by (subst map_of_inject_set) (simp_all add: port_table_def)
  moreover have "map_of ?f k = map_option host_port (find (\<lambda>p. port_key p = k) (rev ports))"
    by (induction ports rule: rev_induct) (auto simp: update_conv')
  ultimately show ?thesis by simp
qed

text \<open>The bindings of a create request, as the daemon reports them for the container.\<close>

definition bindings :: "port_mapping list \<Rightarrow> json" where
  "bindings ports = JObj (map (\<lambda>(k, p). (k, JArr [JObj [(''HostPort'', JStr (itoa (unat p)))]])) (port_table ports))"

lemma bindings_of_create: "member (member (create_body cmd) ''HostConfig'') ''PortBindings'' = bindings (cr_ports cmd)"
  by (simp add: create_body_def host_config_def member_def bindings_def)

lemma member_bindings: "set (members (bindings ports)) =
    (\<lambda>(k, p). (k, JArr [JObj [(''HostPort'', JStr (itoa (unat p)))]])) ` set (port_table ports)"
proof -
  let ?f = "\<lambda>p. JArr [JObj [(''HostPort'', JStr (itoa (unat p)))]] :: json" and ?t = "port_table ports"
  have d: "distinct (map fst (map (\<lambda>(k, p). (k, ?f p)) ?t))"
    using port_table_keys [of ports] by (simp add: case_prod_beta' comp_def)
  have "member (bindings ports) k = ?f p" if "(k, p) \<in> set ?t" for k p
  proof -
    have "map_of (rev (map (\<lambda>(k, p). (k, ?f p)) ?t)) k = Some (?f p)"
      using d that by (intro map_of_is_SomeI) (auto simp: rev_map [symmetric])
    then show ?thesis by (simp add: bindings_def member_def)
  qed
  then show ?thesis by (force simp: members_def bindings_def)
qed

lemma first_some_Some: "first_some f xs = Some y \<Longrightarrow> \<exists>x \<in> set xs. f x = Some y"
  by (induction xs) (auto split: option.splits)

lemma first_some_None: "first_some f xs = None \<longleftrightarrow> (\<forall>x \<in> set xs. f x = None)"
  by (induction xs) (auto split: option.splits)

text \<open>Round trip through the daemon: when \<open>Inspect\<close> reports the bindings the create request asked for,
  the lookup of a container port finds a host port that was requested for it, whatever the order of
  the map, and fails only if the port was not published at all.\<close>

lemma published_port_found:
  assumes "Inspect http did d = (d', Inr v)"
    and "member (member v ''NetworkSettings'') ''Ports'' = bindings ports"
    and fit: "\<forall>pm \<in> set ports. unat (pm_container_port pm) < 2 ^ 16 \<and> 0 < unat (host_port pm) \<and> unat (host_port pm) < 2 ^ 16"
    and "\<And>xs. set (visit xs) = set xs"
  shows "case snd (MappedHostPort http visit did c d) of
      Inr p \<Rightarrow> \<exists>pm \<in> set ports. unat (pm_container_port pm) = unat c \<and> unat (host_port pm) = unat p
    | Inl e \<Rightarrow> \<forall>pm \<in> set ports. unat (pm_container_port pm) \<noteq> unat c"
proof -
  let ?b = "\<lambda>p. JArr [JObj [(''HostPort'', JStr (itoa (unat p)))]] :: json"
  let ?s = "first_some (mapped_in c) (visit (members (bindings ports)))"
  have tab: "\<exists>pm \<in> set ports. port_key pm = k \<and> host_port pm = p" if "(k, p) \<in> set (port_table ports)" for k p
  proof -
    from that have "map_of (port_table ports) k = Some p" using port_table_keys by (intro map_of_is_SomeI)
    then obtain pm where "find (\<lambda>p. port_key p = k) (rev ports) = Some pm" "host_port pm = p"
      by (auto simp: port_table_of)
    then show ?thesis by (auto simp: find_Some_iff intro!: bexI [of _ pm]) (metis nth_mem length_rev set_rev)
  qed
  have at: "mapped_in c (port_key pm, ?b p) = (if unat (pm_container_port pm) = unat c then Some (of_nat (unat p)) else None)"
    if "pm \<in> set ports" and p: "0 < unat p" "unat p < 2 ^ 16" for pm and p :: u32
  proof -
    have "(of_int (int (unat (pm_container_port pm))) = c) = (unat (pm_container_port pm) = unat c)"
      using fit that(1) by (simp add: word_unat_eq_iff unsigned_ucast_eq take_bit_nat_eq_self)
    moreover have "(0 :: 16 word) < of_nat (unat p)"
      using p by (simp add: word_less_nat_alt unsigned_ucast_eq take_bit_nat_eq_self)
    ultimately show ?thesis
      using p by (simp add: mapped_in_def split_port_key as_list_def bound_port_def member_def as_string_def Sscanf_itoa)
  qed
  have m: "MappedHostPort http visit did c d = (d', case ?s of Some p \<Rightarrow> Inr p | None \<Rightarrow>
      Inl (''no host port mapping for '' @ itoa (unat c) @ '' in container '' @ shortID did))"
    by (simp add: MappedHostPort_def assms(1,2))
  show ?thesis
  proof (cases ?s)
    case (Some p)
    then obtain k h where h: "(k, h) \<in> set (port_table ports)" "mapped_in c (k, ?b h) = Some p"
      using first_some_Some [of "mapped_in c"] by (fastforce simp: assms(4) member_bindings)
    from tab [OF h(1)] obtain pm where pm: "pm \<in> set ports" "k = port_key pm" "h = host_port pm" by blast
    with fit at [OF pm(1), of h] h(2) have "unat (pm_container_port pm) = unat c" "p = of_nat (unat h)"
      by (auto split: if_splits)
    with pm fit show ?thesis by (auto simp: m Some unsigned_ucast_eq take_bit_nat_eq_self intro!: bexI [of _ pm])
  next
    case None
    have "unat (pm_container_port pm) \<noteq> unat c" if pm: "pm \<in> set ports" for pm
    proof -
      have "port_key pm \<in> dom (map_of (port_table ports))"
        using pm by (auto simp: port_table_of find_None_iff dom_def)
      then obtain h where h: "(port_key pm, h) \<in> set (port_table ports)" by (auto dest: map_of_SomeD)
      with None have "mapped_in c (port_key pm, ?b h) = None"
        by (force simp: first_some_None assms(4) member_bindings)
      moreover from tab [OF h] fit have "0 < unat h" "unat h < 2 ^ 16" by auto
      ultimately show ?thesis using at [OF pm, of h] by auto
    qed
    then show ?thesis by (simp add: m None)
  qed
qed

end
