(* ===== verification/Pipe.thy ===== *)
theory Pipe
  imports Proxy "HOL-Library.Sublist"
begin

text \<open>
  The bridge between the two sockets of a proxied connection, the function \<open>pipe\<close> of
  \<open>internal/master/proxy/proxy.go\<close>: two goroutines that copy one direction each, half-close the
  socket they wrote to, and a caller that waits for both and closes the sockets. Around them the two
  peers send, end their side or break the connection whenever they like.
\<close>

section \<open>Sockets\<close>

datatype side = Client | Upstream


text \<open>A \<open>net.Conn\<close> as the proxy sees it: whether it has \<open>CloseWrite\<close>; all that its peer has sent, the part
  that was not read yet, whether the peer has ended its side; what was written to the peer, whether the
  writing side is closed, and the whole socket. After a reset every call fails.\<close>

record sock =
  so_tcp :: bool
  so_sent :: string
  so_in :: string
  so_eof :: bool
  so_out :: string
  so_wclosed :: bool
  so_closed :: bool
  so_broken :: bool



section \<open>The goroutines\<close>

text \<open>Where a goroutine is: in the read of \<open>io.Copy\<close>, in its write of a chunk, before \<open>closeWrite\<close>, or done.\<close>

datatype copier = Reading | Writing string | Closing | Finished

record bridge =
  br_sock :: "side \<Rightarrow> sock"
  br_copier :: "side \<Rightarrow> copier"
  br_returned :: bool


definition set_sock :: "side \<Rightarrow> sock \<Rightarrow> bridge \<Rightarrow> bridge" where
  "set_sock s c p = p\<lparr>br_sock := (br_sock p)(s := c)\<rparr>"

definition set_copier :: "side \<Rightarrow> copier \<Rightarrow> bridge \<Rightarrow> bridge" where
  "set_copier s k p = p\<lparr>br_copier := (br_copier p)(s := k)\<rparr>"




inductive peer_step :: "bridge \<Rightarrow> bridge \<Rightarrow> bool" where
  sends: "\<not> so_eof (br_sock p s) \<Longrightarrow> peer_step p (set_sock s ((br_sock p s)
     \<lparr>so_sent := so_sent (br_sock p s) @ xs, so_in := so_in (br_sock p s) @ xs\<rparr>) p)"
| ends: "peer_step p (set_sock s ((br_sock p s)\<lparr>so_eof := True\<rparr>) p)"
| breaks: "peer_step p (set_sock s ((br_sock p s)\<lparr>so_broken := True\<rparr>) p)"


inductive_cases peer_stepE: "peer_step p q"

section \<open>Facts\<close>






lemma bridge_fields [simp]:
  "br_sock (set_sock s c p) = (br_sock p)(s := c)" "br_copier (set_sock s c p) = br_copier p"
  "br_sock (set_copier s k p) = br_sock p" "br_copier (set_copier s k p) = (br_copier p)(s := k)"
  "br_returned (set_sock s c p) = br_returned p" "br_returned (set_copier s k p) = br_returned p"
  by (simp_all add: set_sock_def set_copier_def)

















section \<open>What the bridge guarantees\<close>




end
