(* ===== verification/Programs.thy ===== *)
theory Programs
  imports Prelude
begin

text \<open>
  Programs that share a state: a program has returned, or waits to run its next atomic call on the
  state as it is then (\<open>None\<close>: the call does not come back). Between two calls of one program
  others may run. The theory holds the two ways to run a program, alone and in its own steps
  whatever happens between them, and what is known of a program in any company: the invariants its
  calls keep, and a bound on their number.
\<close>

section \<open>Programs\<close>

datatype ('s, 'r) prog = Ret 'r | Call "'s \<Rightarrow> ('s \<times> ('s, 'r) prog) option"

definition call :: "('s \<Rightarrow> 's \<times> 'a) \<Rightarrow> ('a \<Rightarrow> ('s, 'r) prog) \<Rightarrow> ('s, 'r) prog" where
  "call f k = Call (\<lambda>s. case f s of (s', a) \<Rightarrow> Some (s', k a))"

definition call_opt :: "('s \<Rightarrow> ('s \<times> 'a) option) \<Rightarrow> ('a \<Rightarrow> ('s, 'r) prog) \<Rightarrow> ('s, 'r) prog" where
  "call_opt f k = Call (\<lambda>s. map_option (\<lambda>(s', a). (s', k a)) (f s))"

definition act :: "('s \<Rightarrow> 's) \<Rightarrow> ('s, 'r) prog \<Rightarrow> ('s, 'r) prog" where
  "act f p = Call (\<lambda>s. Some (f s, p))"

primrec bind_prog :: "('s, 'a) prog \<Rightarrow> ('a \<Rightarrow> ('s, 'r) prog) \<Rightarrow> ('s, 'r) prog" where
  "bind_prog (Ret a) k = k a"
| "bind_prog (Call f) k = Call (map_option (map_prod id (\<lambda>p. bind_prog p k)) \<circ> f)"

lemma bind_call [simp]:
  "bind_prog (call f g) k = call f (\<lambda>a. bind_prog (g a) k)"
  "bind_prog (call_opt h g) k = call_opt h (\<lambda>a. bind_prog (g a) k)"
  "bind_prog (act c p) k = act c (bind_prog p k)"
  by (auto simp: call_def call_opt_def act_def comp_def option.map_comp fun_eq_iff map_option_case
      split: prod.split option.split)

lemma bind_assoc: "bind_prog (bind_prog p f) g = bind_prog p (\<lambda>a. bind_prog (f a) g)"
proof (induction p)
  case (Call f)
  then show ?case
    by (auto simp: fun_eq_iff option.map_comp intro!: option.map_cong0) (metis rangeI snds.intros)
qed simp

lemma bind_Ret [simp]: "bind_prog p Ret = p"
proof (induction p)
  case (Call f)
  have "map_option (map_prod id (\<lambda>p. bind_prog p Ret)) (f s) = f s" for s
    using Call.IH [of "f s"] rangeI [of f s] by (cases "f s") auto
  then show ?case by (simp add: fun_eq_iff)
qed simp

section \<open>Alone\<close>

primrec run :: "('s, 'r) prog \<Rightarrow> 's \<Rightarrow> ('s \<times> 'r) option" where
  "run (Ret r) = (\<lambda>s. Some (s, r))"
| "run (Call f) = (\<lambda>s. case (map_option (map_prod id run) \<circ> f) s of None \<Rightarrow> None | Some (s', g) \<Rightarrow> g s')"

lemma run_call [simp]:
  "run (call f k) s = run (k (snd (f s))) (fst (f s))"
  "run (call_opt h k) s = (case h s of None \<Rightarrow> None | Some (s', a) \<Rightarrow> run (k a) s')"
  "run (act c p) s = run p (c s)"
  by (auto simp: call_def call_opt_def act_def split: option.split prod.split)

lemma run_bind: "run (bind_prog p k) s = (case run p s of None \<Rightarrow> None | Some (s', a) \<Rightarrow> run (k a) s')"
proof (induction p arbitrary: s)
  case (Call f)
  show ?case
  proof (cases "f s")
    case (Some x)
    obtain s' p where x: "x = (s', p)" by force
    have "run (bind_prog p k) s' = (case run p s' of None \<Rightarrow> None | Some (s'', a) \<Rightarrow> run (k a) s'')"
      using Call.IH [of "Some x" x p] rangeI [of f s] by (simp add: Some x)
    with Some x show ?thesis by simp
  qed simp
qed simp

section \<open>In company\<close>

text \<open>The calls a program makes until it returns, each with the states before and after it. Nothing is
  said about how one state leads to the next: anything may happen in between.\<close>

inductive runs :: "('s, 'r) prog \<Rightarrow> ('s \<times> 's) list \<Rightarrow> 'r \<Rightarrow> bool" where
  runs_Ret: "runs (Ret r) [] r"
| runs_Call: "f s = Some (s', p) \<Longrightarrow> runs p tr r \<Longrightarrow> runs (Call f) ((s, s') # tr) r"

inductive_cases runs_RetE [elim!]: "runs (Ret r) tr x"
inductive_cases runs_CallE: "runs (Call f) tr x"

lemma runs_callE:
  assumes "runs (call f k) tr r"
  obtains s tr' where "tr = (s, fst (f s)) # tr'" "runs (k (snd (f s))) tr' r"
  using assms by (auto simp: call_def elim!: runs_CallE split: prod.splits)

lemma runs_call_optE:
  assumes "runs (call_opt f k) tr r"
  obtains s s' a tr' where "tr = (s, s') # tr'" "f s = Some (s', a)" "runs (k a) tr' r"
  using assms by (auto simp: call_opt_def elim!: runs_CallE)

lemma runs_actE:
  assumes "runs (act f p) tr r"
  obtains s tr' where "tr = (s, f s) # tr'" "runs p tr' r"
  using assms by (auto simp: act_def elim!: runs_CallE)

lemma runs_bind:
  "runs (bind_prog p k) tr r \<Longrightarrow> \<exists>t1 t2 a. tr = t1 @ t2 \<and> runs p t1 a \<and> runs (k a) t2 r"
proof (induction p arbitrary: tr)
  case (Ret a)
  then show ?case by (auto intro: runs_Ret)
next
  case (Call f)
  from Call.prems obtain s s' q tr' where q: "tr = (s, s') # tr'" "f s = Some (s', q)"
    "runs (bind_prog q k) tr' r"
    by (auto elim!: runs_CallE)
  have "\<exists>t1 t2 a. tr' = t1 @ t2 \<and> runs q t1 a \<and> runs (k a) t2 r"
    using Call.IH [of "Some (s', q)" "(s', q)" q] rangeI [of f s] q(2,3) by simp
  then obtain t1 t2 a where "tr' = t1 @ t2" "runs q t1 a" "runs (k a) t2 r" by blast
  then show ?case using runs_Call [of f s s' q t1 a] q(2) q(1)
    by (intro exI [of _ "(s, s') # t1"] exI [of _ t2] exI [of _ a]) simp
qed

lemma runs_bindE:
  assumes "runs (bind_prog p k) tr r"
  obtains t1 t2 a where "tr = t1 @ t2" "runs p t1 a" "runs (k a) t2 r"
  using runs_bind [OF assms] by blast

lemma runs_alone: "run p s = Some (s', r) \<Longrightarrow> \<exists>tr. runs p tr r"
proof (induction p arbitrary: s)
  case (Ret a)
  then show ?case by (auto intro: runs_Ret)
next
  case (Call f)
  from Call.prems obtain s1 q where q: "f s = Some (s1, q)" "run q s1 = Some (s', r)"
    by (auto split: option.splits)
  with Call.IH [of "f s" "(s1, q)" q s1] rangeI [of f s] obtain tr where "runs q tr r" by auto
  with q(1) show ?case by (blast intro: runs_Call)
qed

text \<open>What every call guarantees: from a state of \<open>I\<close> it makes a step of \<open>S\<close>. With \<open>\<lambda>_. I\<close> for \<open>S\<close> the
  program keeps \<open>I\<close>.\<close>

inductive guarded :: "('s \<Rightarrow> bool) \<Rightarrow> ('s \<Rightarrow> 's \<Rightarrow> bool) \<Rightarrow> ('s, 'r) prog \<Rightarrow> bool" for I S where
  guarded_Ret: "guarded I S (Ret r)"
| guarded_Call: "(\<And>s s' p. f s = Some (s', p) \<Longrightarrow> I s \<Longrightarrow> S s s') \<Longrightarrow>
    (\<And>s s' p. f s = Some (s', p) \<Longrightarrow> I s \<Longrightarrow> guarded I S p) \<Longrightarrow> guarded I S (Call f)"

inductive_cases guarded_CallE: "guarded I S (Call f)"

lemma guarded_next: "guarded I S (Call f) \<Longrightarrow> f s = Some (s', p) \<Longrightarrow> I s \<Longrightarrow> S s s' \<and> guarded I S p"
  by (erule guarded_CallE) blast

lemma guarded_weaken: "guarded I S p \<Longrightarrow> (\<And>s s'. I s \<Longrightarrow> S s s' \<Longrightarrow> S' s s') \<Longrightarrow> guarded I S' p"
  by (induction rule: guarded.induct) (blast intro: guarded.intros)+

named_theorems guards \<open>what a program is made of keeps the guarantee\<close>

declare guarded_Ret [guards]

lemma guarded_call [guards]:
  "(\<And>s. I s \<Longrightarrow> S s (fst (f s))) \<Longrightarrow> (\<And>a. guarded I S (k a)) \<Longrightarrow> guarded I S (call f k)"
  unfolding call_def by (rule guarded_Call) (auto split: prod.splits, metis fst_conv)

lemma guarded_call_results:
  "(\<And>s. I s \<Longrightarrow> S s (fst (f s)) \<and> guarded I S (k (snd (f s)))) \<Longrightarrow> guarded I S (call f k)"
  unfolding call_def by (rule guarded_Call) (auto split: prod.splits, metis fst_conv, metis snd_conv)

lemma guarded_call_opt [guards]:
  "(\<And>s s' a. I s \<Longrightarrow> f s = Some (s', a) \<Longrightarrow> S s s') \<Longrightarrow> (\<And>a. guarded I S (k a)) \<Longrightarrow> guarded I S (call_opt f k)"
  unfolding call_opt_def by (rule guarded_Call) auto

lemma guarded_act [guards]: "(\<And>s. I s \<Longrightarrow> S s (f s)) \<Longrightarrow> guarded I S p \<Longrightarrow> guarded I S (act f p)"
  unfolding act_def by (rule guarded_Call) auto

lemma guarded_bind [guards]:
  "guarded I S p \<Longrightarrow> (\<And>a. guarded I S (k a)) \<Longrightarrow> guarded I S (bind_prog p k)"
proof (induction rule: guarded.induct)
  case (guarded_Call f)
  then show ?case by (auto intro!: guarded.guarded_Call)
qed simp

lemma guarded_run: "guarded I (\<lambda>_. I) p \<Longrightarrow> run p s = Some (s', r) \<Longrightarrow> I s \<Longrightarrow> I s'"
proof (induction p arbitrary: s)
  case (Call f)
  from Call.prems(2) obtain s1 q where q: "f s = Some (s1, q)" "run q s1 = Some (s', r)"
    by (auto split: option.splits)
  from guarded_next [OF Call.prems(1) q(1) Call.prems(3)]
  show ?case using Call.IH [of "f s" "(s1, q)" q s1] q rangeI [of f s] by simp
qed simp

text \<open>At most \<open>n\<close> calls, all of which come back, in whatever state they find.\<close>

fun settles :: "nat \<Rightarrow> ('s, 'r) prog \<Rightarrow> bool" where
  "settles n (Ret r) = True"
| "settles 0 (Call f) = False"
| "settles (Suc n) (Call f) = (\<forall>s. case f s of None \<Rightarrow> False | Some (s', p) \<Rightarrow> settles n p)"

lemma settles_mono: "settles n p \<Longrightarrow> n \<le> m \<Longrightarrow> settles m p"
proof (induction n p arbitrary: m rule: settles.induct)
  case (3 n f)
  then obtain k where m: "m = Suc k" "n \<le> k" by (cases m) auto
  show ?case unfolding m(1) settles.simps
  proof
    fix s
    show "case f s of None \<Rightarrow> False | Some (s', p) \<Rightarrow> settles k p"
      using "3.prems"(1) "3.IH" m(2) by (cases "f s") (auto dest!: spec [of _ s])
  qed
qed simp_all

lemma settles_call [simp]:
  "settles (Suc n) (call f k) = (\<forall>s. settles n (k (snd (f s))))"
  "settles (Suc n) (act g p) = settles n p"
  by (simp_all add: call_def act_def split: prod.split) (metis prod.collapse fst_conv snd_conv)

lemma settles_call_numeral [simp]:
  "settles (numeral v) (call f k) = (\<forall>s. settles (pred_numeral v) (k (snd (f s))))"
  "settles (numeral v) (act g p) = settles (pred_numeral v) p"
  by (simp_all add: numeral_eq_Suc)

lemma settles_call_opt:
  "(\<And>s. f s \<noteq> None) \<Longrightarrow> (\<And>a. settles n (k a)) \<Longrightarrow> settles (Suc n) (call_opt f k)"
  by (fastforce simp: call_opt_def split: option.split)

lemma settles_bind: "settles n p \<Longrightarrow> (\<And>a. settles m (k a)) \<Longrightarrow> settles (n + m) (bind_prog p k)"
proof (induction n p rule: settles.induct)
  case (1 n r)
  then show ?case using settles_mono [of m "k r" "n + m"] by simp
next
  case (3 n f)
  then show ?case by (fastforce split: option.splits)
qed simp

text \<open>However the environment moves, such a program has returned after that many of its own steps.\<close>

lemma settles_runs:
  "settles n p \<Longrightarrow> runs p tr r \<Longrightarrow> length tr \<le> n"
proof (induction n p arbitrary: tr rule: settles.induct)
  case (3 n f)
  from "3.prems"(2) obtain s s' p tr' where "tr = (s, s') # tr'" "f s = Some (s', p)" "runs p tr' r"
    by (auto elim!: runs_CallE)
  with "3.prems"(1) "3.IH" show ?case by (fastforce dest!: spec [of _ s])
qed (auto elim: runs_CallE)

lemma settles_run: "settles n p \<Longrightarrow> \<exists>s' r. run p s = Some (s', r)"
proof (induction n p arbitrary: s rule: settles.induct)
  case (3 n f)
  from "3.prems" obtain s' p where p: "f s = Some (s', p)" "settles n p" by (fastforce split: option.splits)
  then have "\<exists>s'' r. run p s' = Some (s'', r)" using "3.IH" [of s "(s', p)" s' p] by auto
  with p show ?case by simp
qed simp_all

section \<open>Interleavings\<close>

text \<open>A configuration is the shared state with the threads that are running. A step is the arrival of a
  thread of \<open>J\<close>, one call of a running one, or a step of the environment \<open>E\<close>.\<close>

inductive interleave ::
  "('s, 'r) prog set \<Rightarrow> ('s \<Rightarrow> 's \<Rightarrow> bool) \<Rightarrow> 's \<times> ('s, 'r) prog list \<Rightarrow> 's \<times> ('s, 'r) prog list \<Rightarrow> bool"
  for J E where
  arrive: "p \<in> J \<Longrightarrow> interleave J E (s, ts) (s, ts @ [p])"
| advance: "i < length ts \<Longrightarrow> ts ! i = Call f \<Longrightarrow> f s = Some (s', p) \<Longrightarrow> interleave J E (s, ts) (s', ts[i := p])"
| around: "E s s' \<Longrightarrow> interleave J E (s, ts) (s', ts)"

inductive_cases interleaveE: "interleave J E (s, ts) c"

lemma interleave_more: "J \<subseteq> J' \<Longrightarrow> interleave J E \<le> interleave J' E"
  by (auto elim!: interleave.cases intro: interleave.intros)

text \<open>A thread that is left alone runs to its end.\<close>

lemma thread_runs:
  assumes "run p s = Some (s', r)" and "i < length ts"
  shows "(interleave J E)\<^sup>*\<^sup>* (s, ts[i := bind_prog p k]) (s', ts[i := k r])"
  using assms(1)
proof (induction p arbitrary: s)
  case (Call f)
  from Call.prems obtain s1 q where q: "f s = Some (s1, q)" "run q s1 = Some (s', r)"
    by (auto split: option.splits)
  have "interleave J E (s, ts[i := bind_prog (Call f) k]) (s1, ts[i := bind_prog (Call f) k, i := bind_prog q k])"
    by (rule interleave.advance [where f = "map_option (map_prod id (\<lambda>p. bind_prog p k)) \<circ> f"])
      (use assms(2) q in simp_all)
  moreover have "(interleave J E)\<^sup>*\<^sup>* (s1, ts[i := bind_prog q k]) (s', ts[i := k r])"
    using Call.IH [of "f s" "(s1, q)" q s1] q rangeI [of f s] by simp
  ultimately show ?case by (simp add: converse_rtranclp_into_rtranclp)
qed simp

definition confined :: "('s \<Rightarrow> bool) \<Rightarrow> ('s \<Rightarrow> 's \<Rightarrow> bool) \<Rightarrow> 's \<times> ('s, 'r) prog list \<Rightarrow> bool" where
  "confined I S c \<longleftrightarrow> I (fst c) \<and> (\<forall>p \<in> set (snd c). guarded I S p)"

text \<open>When every call of every thread and of the environment, from a state of \<open>I\<close>, is a step of \<open>S\<close>, and
  such steps stay in \<open>I\<close>, then every configuration is in \<open>I\<close> and every step between two of them leaves
  the state as it is or is a step of \<open>S\<close>.\<close>

locale shared_invariant =
  fixes J :: "('s, 'r) prog set" and E :: "'s \<Rightarrow> 's \<Rightarrow> bool" and I :: "'s \<Rightarrow> bool" and S :: "'s \<Rightarrow> 's \<Rightarrow> bool"
  assumes jobs: "p \<in> J \<Longrightarrow> guarded I S p"
    and env: "I s \<Longrightarrow> E s s' \<Longrightarrow> S s s'"
    and closed: "I s \<Longrightarrow> S s s' \<Longrightarrow> I s'"
begin

lemma step:
  assumes "interleave J E c c'" and "confined I S c"
  shows "confined I S c' \<and> (fst c' = fst c \<or> S (fst c) (fst c'))"
  using assms(1)
proof (cases rule: interleave.cases)
  case (advance i ts f s s' p)
  then have "guarded I S (Call f)" using assms(2) nth_mem [of i ts] by (auto simp: confined_def)
  from guarded_next [OF this advance(5)] assms(2) advance show ?thesis
    by (auto simp: confined_def dest!: set_update_subset_insert [THEN subsetD] intro: closed)
qed (use assms(2) in \<open>auto simp: confined_def intro: jobs env closed\<close>)

lemma reachable: "(interleave J E)\<^sup>*\<^sup>* c c' \<Longrightarrow> confined I S c \<Longrightarrow> confined I S c'"
  by (induction rule: rtranclp_induct) (auto dest: step)

lemma from_start: "(interleave J E)\<^sup>*\<^sup>* (s, []) (s', ts) \<Longrightarrow> I s \<Longrightarrow> I s'"
  using reachable [of "(s, [])" "(s', ts)"] by (simp add: confined_def)

lemma step_from_start:
  assumes "(interleave J E)\<^sup>*\<^sup>* (s, []) (s1, ts1)" and "interleave J E (s1, ts1) (s2, ts2)" and "I s"
  shows "s2 = s1 \<or> S s1 s2"
  using reachable [OF assms(1)] step [OF assms(2)] assms(3) by (simp add: confined_def)

end

end
