(* ===== verification/Api_Programs.thy ===== *)
theory Api_Programs
  imports Programs Api_Life
begin

text \<open>
  The HTTP handlers of \<open>internal/master/api/api.go\<close> as programs: each method of \<open>Store\<close>, \<open>Manager\<close> and
  the proxy, and each send, is one call. That is the grain at which requests interleave, since every
  such method runs under its component's mutex or is a single query. Alone, a program does what the
  handler of the theory \<open>Api\<close> does in one step.
\<close>

abbreviation st :: "(store \<Rightarrow> store \<times> 'a) \<Rightarrow> ('a \<Rightarrow> (sys, 'r) prog) \<Rightarrow> (sys, 'r) prog" where
  "st f k \<equiv> call (on_sys f) k"

definition when_act :: "bool \<Rightarrow> ('s \<Rightarrow> 's) \<Rightarrow> ('s, 'r) prog \<Rightarrow> ('s, 'r) prog" where
  "when_act b f p = (if b then act f p else p)"

definition look_up :: "string \<Rightarrow> (session option \<Rightarrow> (sys, 'r) prog) \<Rightarrow> (sys, 'r) prog" where
  "look_up nid k = call (\<lambda>y. (y, Get nid (sy_mgr y))) k"

definition add_route :: "u32 \<Rightarrow> string \<Rightarrow> string \<Rightarrow> u32 \<Rightarrow> sys \<Rightarrow> sys" where
  "add_route port cid nid hostPort y = y\<lparr>sy_proxy := RegisterRoute port cid nid hostPort (sy_proxy y)\<rparr>"

text \<open>\<open>BindPort\<close>: the section that looks for a listener, then, after \<open>net.Listen\<close>, the section that stores
  it. The caller only logs the error.\<close>

definition add_listener :: "u32 \<Rightarrow> sys \<Rightarrow> sys" where
  "add_listener actual y = y\<lparr>sy_proxy := (sy_proxy y)\<lparr>px_listeners := List.insert actual (px_listeners (sy_proxy y))\<rparr>\<rparr>"

definition bind_port :: "bool \<Rightarrow> (u32 \<Rightarrow> err + u32) \<Rightarrow> u32 \<Rightarrow> (sys, 'r) prog \<Rightarrow> (sys, 'r) prog" where
  "bind_port b listen port p =
     (if b then call (\<lambda>y. (y, port \<in> set (px_listeners (sy_proxy y)))) (\<lambda>exists.
        if exists then p
        else case listen port of Inl e \<Rightarrow> p | Inr actual \<Rightarrow> act (add_listener actual) p)
      else p)"

section \<open>Creating\<close>

definition select_prog :: "resource_request \<Rightarrow> (sys, select_error + node) prog" where
  "select_prog rq =
     st ListNodes (\<lambda>r. case r of
        Inl e \<Rightarrow> Ret (Inl (StoreError e))
      | Inr nodes \<Rightarrow> st GPUUsageByNode (\<lambda>r. case r of
           Inl e \<Rightarrow> Ret (Inl (StoreError e))
         | Inr used \<Rightarrow> Ret (case select_loop rq used nodes None (Inf True) no_stats of
              (None, stats) \<Rightarrow> Inl (rejectionError rq stats)
            | (Some best, _) \<Rightarrow> Inr best)))"

definition pick_prog :: "create_req \<Rightarrow> (sys, response + node) prog" where
  "pick_prog req =
     (if cq_NodeID req \<noteq> [] then
        st (GetNode (cq_NodeID req)) (\<lambda>r. case r of
           Inl e \<Rightarrow> Ret (Inl (JSON 400 (BError ''node_id not found'')))
         | Inr n \<Rightarrow>
             (case out_of_range 0 (n_GpuCount n) (cq_GPUIndices req) of
                Some (i, idx) \<Rightarrow> Ret (Inl (JSON 400 (BError (''gpu_indices['' @ itoa i @ '']='' @
                  itoa (unat idx) @ '' is out of range; node '' @ n_ID n @ '' has '' @
                  itoa (unat (n_GpuCount n)) @ '' GPUs''))))
              | None \<Rightarrow>
                  if cq_GPUCount req > 0 \<and> cq_GPUIndices req = [] then
                    st GPUUsageByNode (\<lambda>r. case r of
                       Inl e \<Rightarrow> Ret (Inl (JSON 500 (BError (err_Error e))))
                     | Inr used \<Rightarrow>
                         (let free = SchedulerFreeGPUs n used in
                          Ret (if free < cq_GPUCount req
                            then Inl (JSON 409 (BError (''node '' @ n_ID n @ '' has '' @ itoa (unat free) @
                              '' free GPUs, '' @ itoa (unat (cq_GPUCount req)) @ '' requested'')))
                            else Inr n)))
                  else Ret (Inr n)))
      else
        bind_prog (select_prog \<lparr>rq_CPUCores = cq_CPUCores req, rq_MemoryBytes = cq_MemoryBytes req,
            rq_GPUCount = cq_GPUCount req\<rparr>) (\<lambda>r. Ret (case r of
           Inl e \<Rightarrow> Inl (JSON 409 (BErrorHint (select_Error e)
             ''no suitable node; relax resource requirements or wait for nodes to come online''))
         | Inr n \<Rightarrow> Inr n)))"

definition port_prog :: "string \<Rightarrow> create_req \<Rightarrow> port_mapping list \<Rightarrow> (sys, err + u32) prog" where
  "port_prog cid req ports =
     (if cq_ExternalPort req = 0 \<and> ports \<noteq> [] then
        call_opt (\<lambda>y. map_option (\<lambda>(s, r). (y\<lparr>sy_mgr := (sy_mgr y)\<lparr>mg_store := s\<rparr>\<rparr>, r))
          (AllocPort 30000 32767 cid (sy_store y))) Ret
      else Ret (Inr (cq_ExternalPort req)))"

definition reserve_prog ::
  "gotime \<Rightarrow> string \<Rightarrow> node \<Rightarrow> create_req \<Rightarrow> (sys, response + u32 list \<times> string) prog" where
  "reserve_prog now cid n req =
     (if cq_GPUCount req = 0 then Ret (Inr ([], []))
      else
        bind_prog
         (if cq_GPUIndices req \<noteq> [] then
            st (AllocSpecificGPUs now (n_ID n) cid (cq_GPUIndices req))
              (\<lambda>r. Ret (case r of Inl e \<Rightarrow> Inl e | Inr _ \<Rightarrow> Inr (cq_GPUIndices req)))
          else st (AllocGPUs now (n_ID n) cid (int (unat (cq_GPUCount req))) (n_GpuCount n)) Ret)
         (\<lambda>r. case r of
            Inl e \<Rightarrow> Ret (Inl (JSON (if is_conflict e then 409 else 500) (BError (err_Error e))))
          | Inr idxs \<Rightarrow>
              if idxs = [] then Ret (Inr ([], []))
              else
                (let j = render (JArr (map json_u32 idxs)) in
                 st (UpdateContainerGPUIndices now cid j) (\<lambda>r. Ret (case r of
                    Inl e \<Rightarrow> Inl (JSON 500 (BError (''persist gpu indices: '' @ err_Error e)))
                  | Inr _ \<Rightarrow> Inr (idxs, j))))))"

text \<open>Port, row and reservation; the result is the container with its indices.\<close>

definition place_prog :: "env \<Rightarrow> create_req \<Rightarrow> node \<Rightarrow> (sys, response + container \<times> u32 list) prog" where
  "place_prog ev req n =
     (let cid = newContainerID (ev_id ev);
          name = container_name ev req;
          ports = portMappingsToProto (cq_PortMappings req)
      in bind_prog (port_prog cid req ports) (\<lambda>r. case r of
           Inl e \<Rightarrow> Ret (Inl (JSON 500 (BError (''alloc port: '' @ err_Error e))))
         | Inr ext \<Rightarrow>
             st (InsertContainer (ev_now ev) (new_container cid (n_ID n) req ports name ext)) (\<lambda>r. case r of
                Inl e \<Rightarrow> when_act (ext \<noteq> 0) (do_sys (FreePort ext)) (Ret (Inl (JSON 500 (BError (err_Error e)))))
              | Inr cc \<Rightarrow> bind_prog (reserve_prog (ev_now ev) cid n req) (\<lambda>r. Ret (case r of
                   Inl rsp \<Rightarrow> Inl rsp
                 | Inr (idxs, j) \<Rightarrow> Inr (cc\<lparr>c_GPUIndicesJSON := j\<rparr>, idxs))))))"

definition cleanup_prog :: "bool \<Rightarrow> string \<Rightarrow> u32 \<Rightarrow> response \<Rightarrow> (sys, response) prog" where
  "cleanup_prog gpuAllocated cid ext rsp =
     when_act gpuAllocated (do_sys (Store.FreeGPUs cid))
       (act (do_sys (DeleteContainer cid))
         (when_act (ext \<noteq> 0) (do_sys (FreePort ext)) (Ret rsp)))"

definition hand_off_prog ::
  "env \<Rightarrow> create_req \<Rightarrow> node \<Rightarrow> session \<Rightarrow> container \<times> u32 list \<Rightarrow> (sys, response) prog" where
  "hand_off_prog ev req n sess placed =
     (let (cc, idxs) = placed; cid = c_ID cc; ext = c_ExternalPort cc;
          ports = portMappingsToProto (cq_PortMappings req); b = (ext \<noteq> 0 \<and> ports \<noteq> [])
      in when_act b (add_route ext cid (n_ID n) (pm_host_port (hd ports)))
          (bind_port b (ev_listen ev) ext
            (call (sys_send sess (create_message cid req ports (container_name ev req) idxs)) (\<lambda>r. case r of
               Inl e \<Rightarrow> cleanup_prog (cq_GPUCount req > 0) cid ext (JSON 500 (BError (''send create: '' @ err_Error e)))
             | Inr _ \<Rightarrow> Ret (JSON 200 (BCreated cc (n_ID n) (n_Name n)
                 (externalURL (ev_host ev) ext) (if idxs \<noteq> [] then Some idxs else None)))))))"

definition create_on_prog :: "env \<Rightarrow> create_req \<Rightarrow> node \<Rightarrow> session \<Rightarrow> (sys, response) prog" where
  "create_on_prog ev req n sess = bind_prog (place_prog ev req n) (\<lambda>r. case r of
      Inl rsp \<Rightarrow> Ret rsp
    | Inr placed \<Rightarrow> hand_off_prog ev req n sess placed)"

definition create_prog :: "env \<Rightarrow> err + create_req \<Rightarrow> (sys, response) prog" where
  "create_prog ev bound =
     (case bound of
        Inl e \<Rightarrow> Ret (JSON 400 (BError (err_Error e)))
      | Inr req0 \<Rightarrow>
     (if cq_Image req0 = [] then Ret (JSON 400 (BError ''image is required''))
      else
     (case check_indices req0 of
        Inl msg \<Rightarrow> Ret (JSON 400 (BError msg))
      | Inr req \<Rightarrow> bind_prog (pick_prog req) (\<lambda>r. case r of
           Inl rsp \<Rightarrow> Ret rsp
         | Inr n \<Rightarrow> look_up (n_ID n) (\<lambda>s. case s of
              None \<Rightarrow> Ret (JSON 400 (BError ''target node not online''))
            | Some sess \<Rightarrow> create_on_prog ev req n sess)))))"

section \<open>Delete, start, stop\<close>

definition stop_command :: "container \<Rightarrow> bool \<Rightarrow> (sys, err + unit) prog" where
  "stop_command cc remove = look_up (c_NodeID cc) (\<lambda>s. case s of
      None \<Rightarrow> Ret (Inl (ErrMsg ''node offline''))
    | Some sess \<Rightarrow> call (sys_send sess (MasterStopContainer (c_ID cc) (c_DockerID cc) remove)) Ret)"

definition delete_prog :: "string \<Rightarrow> (sys, response) prog" where
  "delete_prog cid =
     st (GetContainer cid) (\<lambda>r. case r of
        Inl e \<Rightarrow> Ret (JSON 404 (BError (err_Error e)))
      | Inr cc \<Rightarrow> bind_prog (stop_command cc True) (\<lambda>r. case r of
           Inl e \<Rightarrow> Ret (JSON 500 (BError (err_Error e)))
         | Inr _ \<Rightarrow>
             when_act (c_ExternalPort cc \<noteq> 0) (unregister (c_ExternalPort cc))
               (when_act (c_ExternalPort cc \<noteq> 0) (do_sys (FreePort (c_ExternalPort cc)))
                 (act (do_sys (Store.FreeGPUs cid))
                   (act (do_sys (DeleteContainer cid)) (Ret (JSON 200 BOk)))))))"

definition set_state_prog :: "env \<Rightarrow> container \<Rightarrow> string \<Rightarrow> string \<Rightarrow> (sys, 'r) prog \<Rightarrow> (sys, 'r) prog" where
  "set_state_prog ev cc state status = act (do_sys (UpdateContainerState (ev_now ev) (c_ID cc) (c_DockerID cc) state status))"

definition start_prog :: "env \<Rightarrow> string \<Rightarrow> (sys, response) prog" where
  "start_prog ev cid =
     st (GetContainer cid) (\<lambda>r. case r of
        Inl e \<Rightarrow> Ret (JSON 404 (BError (err_Error e)))
      | Inr cc \<Rightarrow> look_up (c_NodeID cc) (\<lambda>s. case s of
           None \<Rightarrow> Ret (JSON 400 (BError ''node offline''))
         | Some sess \<Rightarrow>
             (let saved = saved_indices cc in
              bind_prog
               (if saved \<noteq> [] then st (AllocSpecificGPUs (ev_now ev) (c_NodeID cc) (c_ID cc) saved) Ret
                else Ret (Inr ()))
               (\<lambda>r. case r of
                  Inl e \<Rightarrow> Ret (case e of
                     ErrGPUTaken _ _ \<Rightarrow> JSON 409 (BErrorSaved (err_Error e)
                       ''delete this container and create a new one to get fresh GPU assignment'' saved)
                   | _ \<Rightarrow> JSON 500 (BError (err_Error e)))
                | Inr _ \<Rightarrow> set_state_prog ev cc ''starting'' ''starting''
                    (call (sys_send sess (MasterStartContainer (c_ID cc) (c_DockerID cc))) (\<lambda>r. case r of
                       Inl e \<Rightarrow> set_state_prog ev cc (c_State cc) (c_Status cc)
                         (when_act (saved \<noteq> []) (do_sys (Store.FreeGPUs (c_ID cc)))
                           (Ret (JSON 500 (BError (err_Error e)))))
                     | Inr _ \<Rightarrow>
                         when_act (c_ExternalPort cc \<noteq> 0)
                           (add_route (c_ExternalPort cc) (c_ID cc) (c_NodeID cc) (first_host_port cc))
                           (bind_port (c_ExternalPort cc \<noteq> 0) (ev_listen ev) (c_ExternalPort cc)
                             (Ret (JSON 200 BOk)))))))))"

definition stop_prog :: "env \<Rightarrow> string \<Rightarrow> (sys, response) prog" where
  "stop_prog ev cid =
     st (GetContainer cid) (\<lambda>r. case r of
        Inl e \<Rightarrow> Ret (JSON 404 (BError (err_Error e)))
      | Inr cc \<Rightarrow> set_state_prog ev cc ''stopping'' ''stopping''
          (bind_prog (stop_command cc False) (\<lambda>r. case r of
             Inl e \<Rightarrow> set_state_prog ev cc (c_State cc) (c_Status cc) (Ret (JSON 500 (BError (err_Error e))))
           | Inr _ \<Rightarrow> when_act (c_ExternalPort cc \<noteq> 0) (unregister (c_ExternalPort cc))
               (act (do_sys (Store.FreeGPUs (c_ID cc))) (Ret (JSON 200 BOk))))))"

section \<open>Reading\<close>

definition nodes_prog :: "(sys, response) prog" where
  "nodes_prog =
     st ListNodes (\<lambda>r. case r of
        Inl e \<Rightarrow> Ret (JSON 500 (BError (err_Error e)))
      | Inr nodes \<Rightarrow> st GPUUsageByNode (\<lambda>r.
          call (\<lambda>y. (y, Online (sy_mgr y))) (\<lambda>online.
            Ret (JSON 200 (BNodes (map (node_view_of online (case r of Inl e \<Rightarrow> [] | Inr u \<Rightarrow> u)) nodes))))))"

definition node_prog :: "string \<Rightarrow> (sys, response) prog" where
  "node_prog nid = st (GetNode nid) (\<lambda>r. Ret (case r of
      Inl e \<Rightarrow> JSON 404 (BError (err_Error e)) | Inr n \<Rightarrow> JSON 200 (BNode n)))"

definition node_containers_prog :: "string \<Rightarrow> (sys, response) prog" where
  "node_containers_prog nid = st ListContainers (\<lambda>r. Ret (case r of
      Inl e \<Rightarrow> JSON 500 (BError (err_Error e))
    | Inr cs \<Rightarrow> JSON 200 (BRawContainers [c \<leftarrow> cs. c_NodeID c = nid])))"

definition node_gpus_prog :: "string \<Rightarrow> (sys, response) prog" where
  "node_gpus_prog nid =
     st (GetNode nid) (\<lambda>r. case r of
        Inl e \<Rightarrow> Ret (JSON 404 (BError (err_Error e)))
      | Inr n \<Rightarrow> st (ListGPUAllocsForNode nid) (\<lambda>r. Ret (case r of
           Inl e \<Rightarrow> JSON 500 (BError (err_Error e))
         | Inr allocs \<Rightarrow> JSON 200 (BGpus (map (gpu_view_of
             (case json_column decode_reported (n_GPUJSON n) of None \<Rightarrow> [] | Some rs \<Rightarrow> rs) allocs)
             (map of_nat [0..<unat (n_GpuCount n)]))))))"

definition container_prog :: "env \<Rightarrow> string \<Rightarrow> (sys, response) prog" where
  "container_prog ev cid = st (GetContainer cid) (\<lambda>r. Ret (case r of
      Inl e \<Rightarrow> JSON 404 (BError (err_Error e))
    | Inr cc \<Rightarrow> JSON 200 (BContainer
        \<lparr>cv_container = cc, cv_node_name = None, cv_env = None, cv_cmd = None, cv_ports = None,
         cv_gpu_indices = indices_of cc, cv_external_url = url_of ev cc\<rparr>)))"

definition containers_prog :: "env \<Rightarrow> (sys, response) prog" where
  "containers_prog ev =
     st ListContainers (\<lambda>r. case r of
        Inl e \<Rightarrow> Ret (JSON 500 (BError (err_Error e)))
      | Inr cs \<Rightarrow> st ListNodes (\<lambda>r. Ret (JSON 200 (BContainers (map (container_view_of ev
          (case r of Inl e \<Rightarrow> [] | Inr ns \<Rightarrow> ns)) cs)))))"

section \<open>Alone, a program is its handler\<close>

named_theorems alone \<open>what a program does when it runs alone\<close>

lemma when_act_simps [simp]:
  "run (when_act b f p) s = run p (if b then f s else s)"
  "bind_prog (when_act b f p) k = when_act b f (bind_prog p k)"
  by (simp_all add: when_act_def)

lemma look_up_simps [simp]:
  "run (look_up nid k) y = run (k (Get nid (sy_mgr y))) y"
  "bind_prog (look_up nid k) h = look_up nid (\<lambda>s. bind_prog (k s) h)"
  by (simp_all add: look_up_def)

lemma run_bind_port [simp]:
  "run (bind_port b listen port p) y = run p (if b then y\<lparr>sy_proxy := fst (BindPort listen port (sy_proxy y))\<rparr> else y)"
  by (simp add: bind_port_def BindPort_def add_listener_def split: sum.split)

lemma bind_bind_port [simp]: "bind_prog (bind_port b listen port p) k = bind_port b listen port (bind_prog p k)"
  by (simp add: bind_port_def if_distrib [of "\<lambda>p. bind_prog p k"] sum.case_distrib [of "\<lambda>p. bind_prog p k"] cong: if_cong sum.case_cong)

lemma add_and_bind: "(add_route port cid nid hp y)\<lparr>sy_proxy := fst (BindPort listen port (sy_proxy (add_route port cid nid hp y)))\<rparr> =
    register_and_bind listen port cid nid hp y"
  by (simp add: add_route_def register_and_bind_def)

lemma run_select [alone]: "run (select_prog rq) y = Some (on_sys (Select rq) y)"
  by (auto simp: select_prog_def Select_def on_sys_alt case_prod_beta split: sum.split option.split)

lemma run_pick [alone]: "run (pick_prog req) y = Some (pick_node req y)"
  by (auto simp: pick_prog_def pick_node_def pinned_node_def select_node_def run_bind run_select Let_def
      case_prod_beta split: sum.split option.split)

lemma run_port [alone]: "run (port_prog cid req ports) y = external_port cid req ports y"
  by (auto simp: port_prog_def external_port_def split: option.split)

lemma run_reserve [alone]: "run (reserve_prog now cid n req) y = Some (reserve_gpus now cid n req y)"
  by (auto simp: reserve_prog_def reserve_gpus_def run_bind Let_def case_prod_beta simp del: render.simps
      split: sum.split)

lemma run_cleanup [alone]: "run (cleanup_prog g cid ext rsp) y = Some (create_cleanup g cid ext y, rsp)"
  by (simp add: cleanup_prog_def create_cleanup_def Let_def)

lemma run_hand_off [alone]:
  "run (hand_off_prog ev req n sess (cc, idxs)) y = Some (hand_off ev req n sess
     (portMappingsToProto (cq_PortMappings req)) (container_name ev req) cc idxs y)"
  by (simp add: hand_off_prog_def hand_off_def Let_def run_cleanup add_and_bind case_prod_beta split: sum.split)

lemma run_create_on [alone]: "run (create_on_prog ev req n sess) y = create_on ev req n sess y"
proof -
  define cid where "cid = newContainerID (ev_id ev)"
  define ports where "ports = portMappingsToProto (cq_PortMappings req)"
  define name where "name = container_name ev req"
  note defs = create_on_prog_def place_prog_def create_on_def Let_def cid_def [symmetric] ports_def [symmetric]
    name_def [symmetric] run_bind run_port
  show ?thesis
  proof (cases "external_port cid req ports y")
    case None
    then show ?thesis by (simp add: defs)
  next
    case (Some x)
    obtain y1 r1 where x: "x = (y1, r1)" by force
    show ?thesis
    proof (cases r1)
      case (Inl e)
      with Some x show ?thesis by (simp add: defs)
    next
      case (Inr ext)
      obtain y2 r2 where i: "on_sys (InsertContainer (ev_now ev) (new_container cid (n_ID n) req ports name ext)) y1 = (y2, r2)"
        by force
      show ?thesis
      proof (cases r2)
        case (Inl e)
        with Some x Inr i show ?thesis by (simp add: defs)
      next
        case r2: (Inr cc)
        obtain y3 r3 where "reserve_gpus (ev_now ev) cid n req y2 = (y3, r3)" by force
        with Some x Inr i r2 show ?thesis
          by (cases r3) (auto simp: defs run_reserve run_hand_off)
      qed
    qed
  qed
qed

lemma run_create [alone]: "run (create_prog ev bound) y = createContainer ev bound y"
  by (auto simp: create_prog_def createContainer_def run_bind run_pick run_create_on
      case_prod_beta split: sum.split option.split)

lemma run_stop_command [alone]: "run (stop_command cc remove) y = Some (sendStopCommand cc remove y)"
  by (auto simp: stop_command_def sendStopCommand_def split: option.split)

lemma run_delete [alone]: "run (delete_prog cid) y = Some (deleteContainer cid y)"
  by (auto simp: delete_prog_def deleteContainer_def run_bind run_stop_command Let_def case_prod_beta split: sum.split)

lemma run_set_state [alone]:
  "run (set_state_prog ev cc state status p) y =
     run p (do_sys (UpdateContainerState (ev_now ev) (c_ID cc) (c_DockerID cc) state status) y)"
  by (simp add: set_state_prog_def)

lemma run_start [alone]: "run (start_prog ev cid) y = Some (startContainer ev cid y)"
  by (auto simp: start_prog_def startContainer_def run_bind run_set_state add_and_bind Let_def
      case_prod_beta split: sum.split option.split)

lemma run_stop [alone]: "run (stop_prog ev cid) y = Some (stopContainer ev cid y)"
  by (auto simp: stop_prog_def stopContainer_def run_bind run_set_state run_stop_command Let_def
      case_prod_beta split: sum.split)

lemma run_reads [alone]:
  "run nodes_prog y = Some (listNodes y)" "run (node_prog nid) y = Some (getNode nid y)"
  "run (node_containers_prog nid) y = Some (listNodeContainers nid y)"
  "run (node_gpus_prog nid) y = Some (listNodeGPUs nid y)"
  "run (container_prog ev cid) y = Some (getContainer ev cid y)"
  "run (containers_prog ev) y = Some (listContainers ev y)"
  by (auto simp: nodes_prog_def listNodes_def node_prog_def getNode_def node_containers_prog_def
      listNodeContainers_def node_gpus_prog_def listNodeGPUs_def container_prog_def getContainer_def
      containers_prog_def listContainers_def Let_def case_prod_beta split: sum.split)

end
