(* ===== verification/MasterStart.thy ===== *)
theory MasterStart
  imports Api_Life
begin

text \<open>
  How the master starts: its configuration (\<open>internal/master/config/config.go\<close>) and the order of
  \<open>internal/cmd/master/master.go\<close>, up to the routes that are bound again for the containers of an
  earlier run. The file system, the YAML library and the listeners are arguments.
\<close>

section \<open>Configuration\<close>

datatype file_result = NotExist | ReadFailed string | Contents string

record master_config =
  mf_HTTP :: string
  mf_GRPC :: string
  mf_DB :: string
  mf_Greptime :: metrics_config

definition DefaultPath_master :: string where
  "DefaultPath_master = ''/etc/pp/pp-master.yaml''"

definition defaults_master :: master_config where
  "defaults_master = \<lparr>mf_HTTP = '':8080'', mf_GRPC = '':7000'', mf_DB = ''pumpkinpie.db'',
     mf_Greptime = \<lparr>mc_URL = [], mc_Database = ''public'', mc_Username = [], mc_Password = [],
       mc_Table = ''node_metrics''\<rparr>\<rparr>"

definition or_default :: "string \<Rightarrow> string \<Rightarrow> string" where
  "or_default d x = (if x = [] then d else x)"

definition applyDefaults_master :: "master_config \<Rightarrow> master_config" where
  "applyDefaults_master c =
     (let d = defaults_master in
      c\<lparr>mf_HTTP := or_default (mf_HTTP d) (mf_HTTP c),
        mf_GRPC := or_default (mf_GRPC d) (mf_GRPC c),
        mf_DB := or_default (mf_DB d) (mf_DB c),
        mf_Greptime := (mf_Greptime c)\<lparr>
          mc_Database := or_default (mc_Database (mf_Greptime d)) (mc_Database (mf_Greptime c)),
          mc_Table := or_default (mc_Table (mf_Greptime d)) (mc_Table (mf_Greptime c))\<rparr>\<rparr>)"

text \<open>\<open>yaml text c\<close> is \<open>yaml.Unmarshal\<close> into a record that already holds \<open>c\<close>. The result is the
  configuration with whether the file existed, or an error.\<close>

definition Load_master ::
  "(string \<Rightarrow> file_result) \<Rightarrow> (string \<Rightarrow> master_config \<Rightarrow> string + master_config) \<Rightarrow> string \<Rightarrow>
     string + master_config \<times> bool" where
  "Load_master readFile yaml path =
     (let path = (if path = [] then DefaultPath_master else path); cfg = defaults_master in
      case readFile path of
        NotExist \<Rightarrow> Inr (cfg, False)
      | ReadFailed e \<Rightarrow> Inl (''read '' @ path @ '': '' @ e)
      | Contents b \<Rightarrow>
          (case yaml b cfg of
             Inl e \<Rightarrow> Inl (''parse '' @ path @ '': '' @ e)
           | Inr cfg' \<Rightarrow> Inr (applyDefaults_master cfg', True)))"

definition complete :: "master_config \<Rightarrow> bool" where
  "complete c \<longleftrightarrow> mf_HTTP c \<noteq> [] \<and> mf_GRPC c \<noteq> [] \<and> mf_DB c \<noteq> [] \<and>
     mc_Database (mf_Greptime c) \<noteq> [] \<and> mc_Table (mf_Greptime c) \<noteq> []"

lemma complete_defaults [simp]: "complete defaults_master" "complete (applyDefaults_master c)"
  by (simp_all add: complete_def defaults_master_def applyDefaults_master_def or_default_def Let_def)

lemma applyDefaults_idle: "complete c \<Longrightarrow> applyDefaults_master c = c"
  by (simp add: complete_def applyDefaults_master_def or_default_def Let_def)

lemma Load_master_complete: "Load_master rd yaml path = Inr (c, ex) \<Longrightarrow> complete c"
  by (auto simp: Load_master_def Let_def split: file_result.splits sum.splits)

section \<open>Routes of an earlier run\<close>

fun rebind_loop :: "(u32 \<Rightarrow> err + u32) \<Rightarrow> container list \<Rightarrow> proxy \<Rightarrow> proxy" where
  "rebind_loop listen [] px = px"
| "rebind_loop listen (c # cs) px =
     (if c_ExternalPort c = 0 \<or> c_PortsJSON c = [] then rebind_loop listen cs px
      else
     (case unmarshal decode_port (c_PortsJSON c) of
        None \<Rightarrow> rebind_loop listen cs px
      | Some [] \<Rightarrow> rebind_loop listen cs px
      | Some (p # ps) \<Rightarrow> rebind_loop listen cs
          (fst (BindPort listen (c_ExternalPort c)
             (LoadExistingRoute (c_ExternalPort c) (c_ID c) (c_NodeID c) (pm_host_port p) px)))))"

definition rebindExistingProxyRoutes ::
  "(u32 \<Rightarrow> err + u32) \<Rightarrow> store \<Rightarrow> proxy \<Rightarrow> (store \<times> proxy) \<times> (err + unit)" where
  "rebindExistingProxyRoutes listen s px =
     (case ListContainers s of
        (s1, Inl e) \<Rightarrow> ((s1, px), Inl e)
      | (s1, Inr cs) \<Rightarrow> ((s1, rebind_loop listen cs px), Inr ()))"

section \<open>Start\<close>

text \<open>
  \<open>Run\<close> up to the moment the master serves: \<open>sqlOpen\<close> and \<open>execSchema\<close> open the database,
  \<open>listenGRPC\<close> is the gRPC listener. A failure to bind the old routes is only logged.
\<close>

definition Run_master ::
  "(string \<Rightarrow> file_result) \<Rightarrow> (string \<Rightarrow> master_config \<Rightarrow> string + master_config) \<Rightarrow>
   (string \<Rightarrow> err + 'db) \<Rightarrow> ('db \<Rightarrow> err + store) \<Rightarrow> (string \<Rightarrow> metrics_config \<Rightarrow> string + 'c) \<Rightarrow> (string \<Rightarrow> err + unit) \<Rightarrow>
   (u32 \<Rightarrow> err + u32) \<Rightarrow> string \<Rightarrow> err + 'c sink \<times> sys" where
  "Run_master readFile yaml sqlOpen execSchema newClient listenGRPC listen configPath =
     (case Load_master readFile yaml configPath of
        Inl e \<Rightarrow> Inl (ErrMsg e)
      | Inr (cfg, loaded) \<Rightarrow>
     (case Open sqlOpen execSchema (mf_DB cfg) of
        Inl e \<Rightarrow> Inl e
      | Inr st \<Rightarrow>
     (let sink = NewSink newClient (mf_Greptime cfg); mgr = NewManager st in
      case listenGRPC (mf_GRPC cfg) of
        Inl e \<Rightarrow> Inl e
      | Inr _ \<Rightarrow>
          (case rebindExistingProxyRoutes listen st NewProxy of
             ((st1, px), r) \<Rightarrow> Inr (sink, \<lparr>sy_mgr = mgr\<lparr>mg_store := st1\<rparr>, sy_proxy = px\<rparr>)))))"

section \<open>Facts\<close>

definition routable :: "container \<Rightarrow> bool" where
  "routable c \<longleftrightarrow> c_ExternalPort c \<noteq> 0 \<and> c_PortsJSON c \<noteq> [] \<and>
     (\<exists>p ps. unmarshal decode_port (c_PortsJSON c) = Some (p # ps))"

definition saved_route :: "container \<Rightarrow> route" where
  "saved_route c = \<lparr>rt_containerID = c_ID c, rt_nodeID = c_NodeID c, rt_hostPort = first_host_port c\<rparr>"

lemma rebind_step:
  "rebind_loop listen (c # cs) px = rebind_loop listen cs
     (if routable c then fst (BindPort listen (c_ExternalPort c)
        (RegisterRoute (c_ExternalPort c) (c_ID c) (c_NodeID c) (first_host_port c) px)) else px)"
  by (auto simp: routable_def first_host_port_def LoadExistingRoute_is_Register
      split: option.split list.split)

declare rebind_loop.simps(2) [simp del]

lemma rebind_routes:
  "map_of (px_routes (rebind_loop listen cs px)) p =
     (case find (\<lambda>c. routable c \<and> c_ExternalPort c = p) (rev cs) of
        Some c \<Rightarrow> Some (saved_route c) | None \<Rightarrow> map_of (px_routes px) p)"
proof (induction cs arbitrary: px)
  case (Cons c cs)
  have "find P (xs @ [c]) = (case find P xs of Some x \<Rightarrow> Some x | None \<Rightarrow> if P c then Some c else None)"
    for P and xs :: "container list"
    by (induction xs) auto
  then show ?case
    by (auto simp: rebind_step Cons.IH saved_route_def split: option.split)
qed simp

lemma rebind_listeners_mono: "set (px_listeners px) \<subseteq> set (px_listeners (rebind_loop listen cs px))"
proof (induction cs arbitrary: px)
  case (Cons c cs)
  show ?case unfolding rebind_step
    using Cons.IH BindPort_listeners(1) by (fastforce simp: subset_iff)
qed simp

lemma rebind_listens:
  assumes "c \<in> set cs" "routable c" "listen (c_ExternalPort c) = Inr (c_ExternalPort c)"
  shows "c_ExternalPort c \<in> set (px_listeners (rebind_loop listen cs px))"
  using assms(1)
proof (induction cs arbitrary: px)
  case (Cons d cs)
  show ?case
  proof (cases "c = d")
    case True
    then show ?thesis
      using assms(2,3) BindPort_listeners(2) rebind_listeners_mono unfolding rebind_step by fastforce
  next
    case False
    with Cons show ?thesis unfolding rebind_step by simp
  qed
qed simp

lemma rebind_unique:
  assumes h: "healthy s" and d: "distinct (map c_ExternalPort [c \<leftarrow> st_containers s. routable c])"
    and c: "c \<in> set (st_containers s)" "routable c"
  shows "\<exists>px. rebindExistingProxyRoutes listen s NewProxy = ((s, px), Inr ()) \<and>
    map_of (px_routes px) (c_ExternalPort c) = Some (saved_route c) \<and>
    (listen (c_ExternalPort c) = Inr (c_ExternalPort c) \<longrightarrow> c_ExternalPort c \<in> set (px_listeners px))"
proof -
  obtain cs where l: "ListContainers s = (s, Inr cs)" and m: "set cs = set (st_containers s)"
    using healthy_queries(5) [OF h] by simp
  have u: "e = c" if "e \<in> set cs" "routable e" "c_ExternalPort e = c_ExternalPort c" for e
    using d c that unfolding m distinct_map by (auto dest: inj_onD)
  have "find (\<lambda>e. routable e \<and> c_ExternalPort e = c_ExternalPort c) (rev cs) = Some c"
    by (rule find_first_unique) (use c m u in auto)
  then show ?thesis
    using rebind_routes [of listen cs NewProxy] rebind_listens [of c cs listen NewProxy] c m
    by (simp add: rebindExistingProxyRoutes_def l)
qed

end
