(* ===== verification/Master_Steps.thy ===== *)
theory Master_Steps
  imports MasterStart
begin

text \<open>
  The master as a transition system. A step is one operation that the code runs without giving up
  the state it works on: the registration of a stream, one message of a session's loop, the end of
  a stream, one HTTP request, one turn of a web socket or of the metrics worker. The environment
  may make any statement of the database or any stream fail. What holds in every reachable state
  is proved by rule induction, through the interface \<open>master_invariant\<close>; an invariant of the tables
  only needs the statements of the store (\<open>master_frame\<close>).
\<close>

definition on_mgr :: "(manager \<Rightarrow> manager) \<Rightarrow> sys \<Rightarrow> sys" where
  "on_mgr f y = y\<lparr>sy_mgr := f (sy_mgr y)\<rparr>"

lemma on_mgr_fields [simp]: "sy_mgr (on_mgr f y) = f (sy_mgr y)" "sy_proxy (on_mgr f y) = sy_proxy y"
  by (simp_all add: on_mgr_def)

inductive master_step :: "sys \<Rightarrow> sys \<Rightarrow> bool" where
  database: "master_step y (with_store ((sy_store y)\<lparr>st_faults := fs\<rparr>) y)"
| streams: "master_step y (on_mgr (\<lambda>m. m\<lparr>mg_broken := b\<rparr>) y)"
| register: "master_step y (on_mgr (\<lambda>m. fst (OnAgentConnect now rnd peer st first m)) y)"
| message: "master_step y (on_mgr (handleIncoming now sess msg) y)"
| disconnect: "master_step y (on_mgr (handleDisconnect now nid e) y)"
| worker: "master_step y (on_mgr (\<lambda>m. m\<lparr>mg_sinkCh := tl (mg_sinkCh m)\<rparr>) y)"
| shutdown: "master_step y (on_mgr (\<lambda>m. m\<lparr>mg_sinkCh := drop k (mg_sinkCh m), mg_stopped := True\<rparr>) y)"
| created: "createContainer ev bound y = Some (y', rsp) \<Longrightarrow> master_step y y'"
| deleted: "master_step y (fst (deleteContainer cid y))"
| started: "master_step y (fst (startContainer ev cid y))"
| stopped: "master_step y (fst (stopContainer ev cid y))"
| nodes: "master_step y (fst (listNodes y))"
| one_node: "master_step y (fst (getNode nid y))"
| node_containers: "master_step y (fst (listNodeContainers nid y))"
| node_gpus: "master_step y (fst (listNodeGPUs nid y))"
| one_container: "master_step y (fst (getContainer ev cid y))"
| containers: "master_step y (fst (listContainers ev y))"
| socket: "master_step y (fst (websocket_turn y))"

text \<open>The worker's step is the turn of \<open>sinkLoop\<close>, whatever sink it writes to; \<open>Shutdown\<close> ends it.\<close>

lemma worker_turn: "\<not> mg_stopped m \<Longrightarrow> m\<lparr>mg_sinkCh := tl (mg_sinkCh m)\<rparr> = fst (sinkLoop_turn sdk snk now m)"
  by (cases m) (simp add: sinkLoop_turn_def split: list.split)

lemma shutdown_step: "\<not> mg_stopped m \<Longrightarrow>
    m\<lparr>mg_sinkCh := drop k (mg_sinkCh m), mg_stopped := True\<rparr> = fst (Shutdown sdk snk k m)"
  by (simp add: Shutdown_def)

inductive_cases master_stepE: "master_step y y'"

text \<open>A property of the whole system that every step keeps holds in every reachable state.\<close>

locale master_invariant =
  fixes I :: "sys \<Rightarrow> bool"
  assumes step: "master_step y y' \<Longrightarrow> I y \<Longrightarrow> I y'"
begin

lemma reachable: "master_step\<^sup>*\<^sup>* y y' \<Longrightarrow> I y \<Longrightarrow> I y'"
  by (induction rule: rtranclp_induct) (auto intro: step)

end

text \<open>
  A property of the tables that every statement keeps is kept by every step. The two interfaces
  meet here: what the agents' messages run and what the requests run.
\<close>

locale master_frame = agent_frame P + request_frame P for P
begin

lemma connect_keeps:
  "P (mg_store m) \<Longrightarrow> P (mg_store (fst (OnAgentConnect now rnd peer st first m)))"
  by (cases "OnAgentConnect now rnd peer st first m") (auto dest: OnAgentConnect_keeps)

lemma step_keeps: "master_step y y' \<Longrightarrow> P (sy_store y) \<Longrightarrow> P (sy_store y')"
  by (induction rule: master_step.induct)
    (simp_all add: P_faults connect_keeps handleIncoming_keeps handleDisconnect_keeps requests_keep
      websocket_store)

end

sublocale master_frame \<subseteq> kept: master_invariant "\<lambda>y. P (sy_store y)"
  by unfold_locales (rule step_keeps)

interpretation consistent: master_frame integrity
  by unfold_locales

section \<open>The channels\<close>

definition channels_bounded :: "manager \<Rightarrow> bool" where
  "channels_bounded m \<longleftrightarrow> length (mg_updates m) \<le> updates_cap \<and> length (mg_sinkCh m) \<le> sink_cap"

lemma bounded_ops [simp]:
  "channels_bounded m \<Longrightarrow> channels_bounded (publish u m)"
  "channels_bounded m \<Longrightarrow> channels_bounded (enqueueMetric x m)"
  "channels_bounded (fst (on_store f m)) = channels_bounded m"
  "channels_bounded (close s m) = channels_bounded m"
  "channels_bounded (m\<lparr>mg_sessions := ss\<rparr>) = channels_bounded m"
  "channels_bounded (m\<lparr>mg_broken := b\<rparr>) = channels_bounded m"
  "channels_bounded (fst (stream_send st msg m)) = channels_bounded m"
  by (auto simp: channels_bounded_def updates.send_bound sinkq.send_bound close_def stream_send_def
      split: option.split)

lemma bounded_on_store: "on_store f m = (m', r) \<Longrightarrow> channels_bounded m' = channels_bounded m"
  by (metis bounded_ops(3) fst_conv)

lemma bounded_stream_send: "stream_send st x m = (m', r) \<Longrightarrow> channels_bounded m' = channels_bounded m"
  by (metis bounded_ops(7) fst_conv)

lemma bounded_resolve: "resolveNodeID now rnd reg m = (m', r) \<Longrightarrow> channels_bounded m' = channels_bounded m"
  by (auto simp: resolveNodeID_def split: if_splits prod.splits sum.splits dest: bounded_on_store)

lemma bounded_connect: "channels_bounded m \<Longrightarrow> channels_bounded (fst (OnAgentConnect now rnd peer st first m))"
  by (auto simp: OnAgentConnect_def Let_def split: sum.split option.split prod.split
      dest!: bounded_resolve bounded_on_store bounded_stream_send)

lemma bounded_incoming: "channels_bounded m \<Longrightarrow> channels_bounded (handleIncoming now s msg m)"
  by (cases msg)
    (auto simp: handleMetrics_def handleContainerCreated_def handleContainerStopped_def
      handleContainerStarted_def handleContainerStateChanged_def Let_def
      split: sum.split prod.split bool.split dest!: bounded_on_store)

lemma bounded_revert: "channels_bounded m \<Longrightarrow> channels_bounded (revert_loop now nid status cs m)"
  by (induction cs arbitrary: m) auto

lemma bounded_disconnect: "channels_bounded m \<Longrightarrow> channels_bounded (handleDisconnect now nid e m)"
  by (auto simp: handleDisconnect_def revertTransientOnDisconnect_def Let_def bounded_revert
      split: prod.split sum.split option.split dest!: bounded_on_store)

section \<open>What a request leaves alone\<close>

text \<open>No HTTP handler touches the sessions or the channels: it works on the store, the proxy and
  the outgoing side of a stream.\<close>

definition hub ::
  "sys \<Rightarrow> (string \<times> session) list \<times> node_update list \<times> metric list \<times> nat list \<times> (nat \<times> string) list" where
  "hub y = (mg_sessions (sy_mgr y), mg_updates (sy_mgr y), mg_sinkCh (sy_mgr y), mg_closed (sy_mgr y),
     mg_broken (sy_mgr y))"

lemma hub_ops [simp]:
  "hub (fst (on_sys f y)) = hub y" "hub (with_store s y) = hub y"
  "hub (fst (sys_send se x y)) = hub y" "hub (register_and_bind l p c n h y) = hub y"
  "hub (unregister p y) = hub y" "hub (y\<lparr>sy_mgr := (sy_mgr y)\<lparr>mg_store := s\<rparr>\<rparr>) = hub y"
  by (simp_all add: hub_def on_sys_def on_store_def with_store_def sys_send_def Send_def stream_send_def
      register_and_bind_def unregister_def split: prod.split option.split)

lemma hub_on_sys: "on_sys f y = (y', r) \<Longrightarrow> hub y' = hub y"
  by (metis fst_conv hub_ops(1))

lemma hub_sys_send: "sys_send se x y = (y', r) \<Longrightarrow> hub y' = hub y"
  by (metis fst_conv hub_ops(3))

lemma hub_sendStop: "sendStopCommand cc rm y = (y', r) \<Longrightarrow> hub y' = hub y"
  by (auto simp: sendStopCommand_def split: option.splits dest: hub_sys_send)

lemmas hub_dests = hub_on_sys hub_sys_send hub_sendStop

lemma hub_pick_node: "pick_node req y = (y', r) \<Longrightarrow> hub y' = hub y"
  by (auto simp: pick_node_def select_node_def pinned_node_def Let_def
      split: if_splits prod.splits sum.splits option.splits dest!: hub_on_sys)

lemma hub_reserve: "reserve_gpus now cid n req y = (y', r) \<Longrightarrow> hub y' = hub y"
  unfolding reserve_gpus_def Let_def
  by (auto split: if_splits prod.splits sum.splits dest!: hub_on_sys)

lemma hub_hand_off: "hand_off ev req n sess ports name cc idxs y = (y', rsp) \<Longrightarrow> hub y' = hub y"
  unfolding hand_off_def Let_def
  by (auto simp: create_cleanup_def Let_def split: prod.splits sum.splits if_splits dest!: hub_sys_send)

lemma hub_external_port: "external_port cid req ports y = Some (y', r) \<Longrightarrow> hub y' = hub y"
  by (auto simp: external_port_def split: if_splits)

lemma hub_create_on: "create_on ev req n sess y = Some (y', rsp) \<Longrightarrow> hub y' = hub y"
  by (auto simp: create_on_def Let_def split: option.splits prod.splits sum.splits if_splits
      dest!: hub_external_port hub_on_sys hub_reserve hub_hand_off)

lemma hub_create: "createContainer ev bound y = Some (y', rsp) \<Longrightarrow> hub y' = hub y"
  by (auto simp: createContainer_def split: sum.splits if_splits option.splits prod.splits
      dest!: hub_pick_node hub_create_on)

lemma hub_delete: "hub (fst (deleteContainer cid y)) = hub y"
  by (auto simp: deleteContainer_def Let_def split: prod.split sum.split dest!: hub_dests)

lemma hub_start: "hub (fst (startContainer ev cid y)) = hub y"
  by (auto simp: startContainer_def Let_def split: prod.split sum.split option.split dest!: hub_dests)

lemma hub_stop: "hub (fst (stopContainer ev cid y)) = hub y"
  by (auto simp: stopContainer_def Let_def split: prod.split sum.split dest!: hub_dests)

lemma hub_reads:
  "hub (fst (listNodes y)) = hub y" "hub (fst (getNode nid y)) = hub y"
  "hub (fst (listNodeContainers nid y)) = hub y" "hub (fst (listNodeGPUs nid y)) = hub y"
  "hub (fst (getContainer ev cid y)) = hub y" "hub (fst (listContainers ev y)) = hub y"
  by (auto simp: listNodes_def getNode_def listNodeContainers_def listNodeGPUs_def getContainer_def
      listContainers_def Let_def split: prod.split sum.split dest!: hub_on_sys)

lemmas hub_requests = hub_create hub_delete hub_start hub_stop hub_reads

lemma hub_bounded: "hub y' = hub y \<Longrightarrow> channels_bounded (sy_mgr y') = channels_bounded (sy_mgr y)"
  by (simp add: hub_def channels_bounded_def)

lemma hub_sessions: "hub y' = hub y \<Longrightarrow> mg_sessions (sy_mgr y') = mg_sessions (sy_mgr y)"
  by (simp add: hub_def)

lemma bounded_takes:
  "channels_bounded m \<Longrightarrow> channels_bounded (m\<lparr>mg_sinkCh := tl (mg_sinkCh m)\<rparr>)"
  "channels_bounded m \<Longrightarrow> channels_bounded (m\<lparr>mg_sinkCh := drop k (mg_sinkCh m), mg_stopped := b\<rparr>)"
  "channels_bounded (sy_mgr y) \<Longrightarrow> channels_bounded (sy_mgr (fst (websocket_turn y)))"
  by (auto simp: channels_bounded_def websocket_turn_def split: list.split)

lemma bounded_requests:
  "createContainer ev bound y = Some (y', rsp) \<Longrightarrow> channels_bounded (sy_mgr y) \<Longrightarrow> channels_bounded (sy_mgr y')"
  "channels_bounded (sy_mgr (fst (deleteContainer cid y))) = channels_bounded (sy_mgr y)"
  "channels_bounded (sy_mgr (fst (startContainer ev cid y))) = channels_bounded (sy_mgr y)"
  "channels_bounded (sy_mgr (fst (stopContainer ev cid y))) = channels_bounded (sy_mgr y)"
  "channels_bounded (sy_mgr (fst (listNodes y))) = channels_bounded (sy_mgr y)"
  "channels_bounded (sy_mgr (fst (getNode nid y))) = channels_bounded (sy_mgr y)"
  "channels_bounded (sy_mgr (fst (listNodeContainers nid y))) = channels_bounded (sy_mgr y)"
  "channels_bounded (sy_mgr (fst (listNodeGPUs nid y))) = channels_bounded (sy_mgr y)"
  "channels_bounded (sy_mgr (fst (getContainer ev cid y))) = channels_bounded (sy_mgr y)"
  "channels_bounded (sy_mgr (fst (listContainers ev y))) = channels_bounded (sy_mgr y)"
  using hub_requests hub_bounded by metis+

lemma bounded_with_store: "channels_bounded (sy_mgr (with_store s y)) = channels_bounded (sy_mgr y)"
  by (rule hub_bounded) simp

lemma step_bounded: "master_step y y' \<Longrightarrow> channels_bounded (sy_mgr y) \<Longrightarrow> channels_bounded (sy_mgr y')"
  by (induction rule: master_step.induct)
    (simp_all add: bounded_takes bounded_connect bounded_incoming bounded_disconnect bounded_requests
      bounded_with_store)

interpretation bounded: master_invariant "\<lambda>y. channels_bounded (sy_mgr y)"
  by unfold_locales (rule step_bounded)

section \<open>The sessions\<close>

text \<open>One session per node, filed under the node it belongs to.\<close>

definition sessions_ok :: "manager \<Rightarrow> bool" where
  "sessions_ok m \<longleftrightarrow> distinct (map fst (mg_sessions m)) \<and>
     (\<forall>(nid, se) \<in> set (mg_sessions m). se_NodeID se = nid)"

lemma sessions_ok_cong: "mg_sessions m' = mg_sessions m \<Longrightarrow> sessions_ok m' = sessions_ok m"
  by (simp add: sessions_ok_def)

lemma sessions_ok_map:
  "sessions_ok m \<longleftrightarrow> distinct (map fst (mg_sessions m)) \<and>
     (\<forall>nid se. map_of (mg_sessions m) nid = Some se \<longrightarrow> se_NodeID se = nid)"
  by (auto simp: sessions_ok_def dest: map_of_SomeD)

lemma sessions_ok_update:
  "sessions_ok m \<Longrightarrow> mg_sessions m' = AList.update (se_NodeID se) se (mg_sessions m) \<Longrightarrow> sessions_ok m'"
  by (auto simp: sessions_ok_map distinct_update update_conv')

lemma sessions_ok_delete:
  "sessions_ok m \<Longrightarrow> mg_sessions m' = AList.delete nid (mg_sessions m) \<Longrightarrow> sessions_ok m'"
  by (auto simp: sessions_ok_map distinct_delete delete_conv' split: if_splits)

lemma newSession_NodeID [simp]: "se_NodeID (newSession nid nm st h) = nid"
  by (simp add: newSession_def)

lemma sessions_resolve: "resolveNodeID now rnd reg m = (m', r) \<Longrightarrow> mg_sessions m' = mg_sessions m"
  by (auto simp: resolveNodeID_def on_store_def split: if_splits prod.splits sum.splits)

lemma sessions_connect_cases:
  "mg_sessions (fst (OnAgentConnect now rnd peer st first m)) = mg_sessions m \<or>
   (\<exists>nid nm h. mg_sessions (fst (OnAgentConnect now rnd peer st first m)) =
      AList.update nid (newSession nid nm st h) (mg_sessions m))"
proof (cases first)
  case (Inr msg)
  show ?thesis
  proof (cases "GetRegister msg")
    case (Some reg)
    obtain m1 r1 where 1: "resolveNodeID now rnd reg m = (m1, r1)" by force
    note s1 = sessions_resolve [OF 1]
    show ?thesis
    proof (cases r1)
      case (Inr nid)
      let ?s = "newSession nid (rr_name reg) st (remoteHostFromContext peer)"
      define m2 where "m2 = (case map_of (mg_sessions m1) nid of None \<Rightarrow> m1 | Some old \<Rightarrow> close old m1)"
      define m3 where "m3 = m2\<lparr>mg_sessions := AList.update nid ?s (mg_sessions m2)\<rparr>"
      have s3: "mg_sessions m3 = AList.update nid ?s (mg_sessions m)"
        by (simp add: m3_def m2_def s1 close_def split: option.split)
      obtain m4 r4 where 4: "on_store (UpdateNodeState now nid ''online'') m3 = (m4, r4)" by force
      then have s4: "mg_sessions m4 = mg_sessions m3" by (auto simp: on_store_def split: prod.splits)
      have "mg_sessions (fst (OnAgentConnect now rnd peer st first m)) = mg_sessions m4"
        by (simp add: OnAgentConnect_def \<open>first = _\<close> Some 1 \<open>r1 = _\<close> flip: m2_def m3_def)
          (simp add: 4 stream_send_def split: sum.split option.split)
      with s3 s4 show ?thesis by auto
    qed (simp add: OnAgentConnect_def \<open>first = _\<close> Some 1 s1)
  qed (simp add: OnAgentConnect_def \<open>first = _\<close>)
qed (simp add: OnAgentConnect_def)

lemma sessions_connect:
  assumes "sessions_ok m"
  shows "sessions_ok (fst (OnAgentConnect now rnd peer st first m))"
  using sessions_connect_cases [of now rnd peer st first m]
proof
  assume "mg_sessions (fst (OnAgentConnect now rnd peer st first m)) = mg_sessions m"
  then show ?thesis by (rule sessions_ok_cong [THEN iffD2]) (rule assms)
next
  assume "\<exists>nid nm h. mg_sessions (fst (OnAgentConnect now rnd peer st first m)) =
      AList.update nid (newSession nid nm st h) (mg_sessions m)"
  then obtain nid nm h where "mg_sessions (fst (OnAgentConnect now rnd peer st first m)) =
      AList.update nid (newSession nid nm st h) (mg_sessions m)" by blast
  then show ?thesis by (intro sessions_ok_update [OF assms, where se = "newSession nid nm st h"]) simp
qed

lemma sessions_on_store: "on_store f m = (m', r) \<Longrightarrow> mg_sessions m' = mg_sessions m"
  by (auto simp: on_store_def split: prod.splits)

lemma sessions_incoming: "mg_sessions (handleIncoming now se msg m) = mg_sessions m"
  by (cases msg)
    (auto simp: handleMetrics_def handleContainerCreated_def handleContainerStopped_def
      handleContainerStarted_def handleContainerStateChanged_def Let_def
      split: sum.split prod.split bool.split dest!: sessions_on_store)

lemma sessions_requests:
  "createContainer ev bound y = Some (y', rsp) \<Longrightarrow> sessions_ok (sy_mgr y') = sessions_ok (sy_mgr y)"
  "sessions_ok (sy_mgr (fst (deleteContainer cid y))) = sessions_ok (sy_mgr y)"
  "sessions_ok (sy_mgr (fst (startContainer ev cid y))) = sessions_ok (sy_mgr y)"
  "sessions_ok (sy_mgr (fst (stopContainer ev cid y))) = sessions_ok (sy_mgr y)"
  "sessions_ok (sy_mgr (fst (listNodes y))) = sessions_ok (sy_mgr y)"
  "sessions_ok (sy_mgr (fst (getNode nid y))) = sessions_ok (sy_mgr y)"
  "sessions_ok (sy_mgr (fst (listNodeContainers nid y))) = sessions_ok (sy_mgr y)"
  "sessions_ok (sy_mgr (fst (listNodeGPUs nid y))) = sessions_ok (sy_mgr y)"
  "sessions_ok (sy_mgr (fst (getContainer ev cid y))) = sessions_ok (sy_mgr y)"
  "sessions_ok (sy_mgr (fst (listContainers ev y))) = sessions_ok (sy_mgr y)"
  by (rule sessions_ok_cong, rule hub_sessions, erule hub_create)
    (rule sessions_ok_cong, rule hub_sessions, rule hub_requests)+

lemma sessions_others:
  "sessions_ok (sy_mgr (with_store s y)) = sessions_ok (sy_mgr y)"
  "sessions_ok (m\<lparr>mg_broken := b\<rparr>) = sessions_ok m"
  "sessions_ok (m\<lparr>mg_sinkCh := xs\<rparr>) = sessions_ok m"
  "sessions_ok (m\<lparr>mg_sinkCh := xs, mg_stopped := st\<rparr>) = sessions_ok m"
  "sessions_ok (handleIncoming now se msg m) = sessions_ok m"
  "sessions_ok (sy_mgr (fst (websocket_turn y))) = sessions_ok (sy_mgr y)"
  by (rule sessions_ok_cong, simp add: sessions_incoming websocket_turn_def split: list.split)+

lemma sessions_disconnect: "sessions_ok m \<Longrightarrow> sessions_ok (handleDisconnect now nid e m)"
  by (erule sessions_ok_delete) (rule handleDisconnect_sessions(1))

lemma step_sessions: "master_step y y' \<Longrightarrow> sessions_ok (sy_mgr y) \<Longrightarrow> sessions_ok (sy_mgr y')"
  by (induction rule: master_step.induct)
    (simp_all add: sessions_connect sessions_disconnect sessions_requests sessions_others)

interpretation sessions: master_invariant "\<lambda>y. sessions_ok (sy_mgr y)"
  by unfold_locales (rule step_sessions)

end
