(* ===== verification/Gpu_Pool.thy ===== *)
theory Gpu_Pool
  imports Master_Steps
begin

text \<open>
  The abstract specification of the GPU pool, and the step of it that every operation of the store is.
  The abstract state says which containers exist and which of them holds which GPU of which node. It
  changes in four ways only: a new container comes with nothing; GPUs that nobody holds are reserved
  together for one container that exists; everything one container holds is released; a container
  goes, with everything it holds.
\<close>

type_synonym ownership = "string \<times> u32 \<Rightarrow> string option"

type_synonym pool = "string set \<times> ownership"

definition without_holder :: "string \<Rightarrow> ownership \<Rightarrow> ownership" where
  "without_holder c h = (\<lambda>k. if h k = Some c then None else h k)"

inductive pool_step :: "pool \<Rightarrow> pool \<Rightarrow> bool" where
  create: "c \<notin> L \<Longrightarrow> pool_step (L, h) (insert c L, h)"
| reserve: "c \<in> L \<Longrightarrow> (\<forall>i \<in> set idxs. h (n, i) = None) \<Longrightarrow>
    pool_step (L, h) (L, \<lambda>k. if fst k = n \<and> snd k \<in> set idxs then Some c else h k)"
| release: "pool_step (L, h) (L, without_holder c h)"
| delete: "pool_step (L, h) (L - {c}, without_holder c h)"

inductive_cases pool_stepE: "pool_step p q"

definition pool_of :: "store \<Rightarrow> pool" where
  "pool_of s = (c_ID ` set (st_containers s), holder s)"

text \<open>No abstract step takes a GPU from its holder to give it to another, and one step reserves for
  one container or releases, never both.\<close>

lemma pool_step_no_steal: "pool_step p q \<Longrightarrow> snd p k = Some c \<Longrightarrow> snd q k = Some c \<or> snd q k = None"
  by (erule pool_stepE) (cases k; auto simp: without_holder_def)+

section \<open>The operations of the store\<close>

lemma holder_gpus: "st_gpus t = st_gpus s \<Longrightarrow> holder t = holder s"
  by (simp add: holder_def)

lemma request_gpus_ops:
  "st_gpus (fst (InsertContainer now c s)) = st_gpus s"
  "st_gpus (fst (UpdateContainerGPUIndices now cid j s)) = st_gpus s"
  "st_gpus (fst (FreePort p s)) = st_gpus s"
  by (auto simp: InsertContainer_def UpdateContainerGPUIndices_def FreePort_def update_container_def
      Let_def intro!: frame_exec split: prod.split sum.split)

lemma alloc_port_gpus: "AllocPort start stop cid s = Some (s', r) \<Longrightarrow> st_gpus s' = st_gpus s"
  by (rule gpus_are.P_AllocPort) (auto simp: insert_port_def)

text \<open>What an operation may do to the pool: nothing, or one step.\<close>

definition pool_next :: "store \<Rightarrow> store \<Rightarrow> bool" where
  "pool_next s t \<longleftrightarrow> pool_of t = pool_of s \<or> pool_step (pool_of s) (pool_of t)"

lemma pool_same: "container_ids t = container_ids s \<Longrightarrow> holder t = holder s \<Longrightarrow> pool_next s t"
  unfolding pool_next_def pool_of_def container_ids_def by (metis list.set_map)

lemma pool_tables: "tables t = tables s \<Longrightarrow> pool_next s t"
  by (rule pool_same) (auto simp: container_ids_def holder_def tables_eq_iff)

lemma alloc_port_containers: "AllocPort start stop cid s = Some (s', r) \<Longrightarrow> st_containers s' = st_containers s"
  by (rule containers_are.P_AllocPort) (auto simp: insert_port_def)

lemma release_step:
  assumes "integrity s" and "tables t = tables (s\<lparr>st_gpus := [g \<leftarrow> st_gpus s. g_container g \<noteq> cid]\<rparr>)"
  shows "pool_step (pool_of s) (pool_of t)"
  using pool_step.release [of _ "holder s" cid] holder_free [OF assms(1), of cid] holder_cong [OF assms(2)] assms(2)
  by (simp add: pool_of_def tables_eq_iff without_holder_def)

lemma reserve_step:
  assumes "reservable nid cid idxs s" and "tables t = tables (add_gpus (gpu_rows now nid cid idxs) s)"
    and "idxs \<noteq> []"
  shows "pool_step (pool_of s) (pool_of t)"
proof -
  have "\<forall>i \<in> set idxs. holder s (nid, i) = None" "cid \<in> c_ID ` set (st_containers s)"
    using assms(1,3) by (auto simp: reservable_def holder_None_iff container_ids_def)
  from pool_step.reserve [OF this(2,1)] show ?thesis
    using holder_add_gpus [OF assms(1), of now] holder_cong [OF assms(2)] assms(2)
    by (simp add: pool_of_def tables_eq_iff add_gpus_def)
qed

lemma FreeGPUs_step: "integrity s \<Longrightarrow> pool_next s (fst (FreeGPUs cid s))"
  using FreeGPUs_cases [of cid s "fst (FreeGPUs cid s)" "snd (FreeGPUs cid s)"]
  by (auto simp: pool_next_def dest: release_step) (use pool_tables pool_next_def in blast)

lemma DeleteContainer_step:
  assumes "integrity s"
  shows "pool_next s (fst (DeleteContainer cid s))"
proof -
  obtain s' r where e: "DeleteContainer cid s = (s', r)" by force
  from e [unfolded DeleteContainer_def] show ?thesis
  proof (cases rule: exec_cases)
    case (ok fs)
    then have "holder s' = holder (s\<lparr>st_gpus := [g \<leftarrow> st_gpus s. g_container g \<noteq> cid]\<rparr>)"
      by (intro holder_gpus) auto
    then have "holder s' = without_holder cid (holder s)"
      using holder_free [OF assms, of cid] by (simp add: without_holder_def)
    moreover have "c_ID ` set (st_containers s') = c_ID ` set (st_containers s) - {cid}" using ok by auto
    ultimately show ?thesis using e pool_step.delete by (simp add: pool_next_def pool_of_def)
  next
    case (fault fs m)
    with e show ?thesis by (intro pool_tables) (simp add: tables_eq_iff)
  qed
qed

lemma InsertContainer_step: "pool_next s (fst (InsertContainer now c s))"
proof (cases "InsertContainer now c s")
  case (Pair s' r)
  show ?thesis
  proof (cases r)
    case (Inr c')
    note f = InsertContainer_Inr [OF Pair [unfolded Inr]]
    have "pool_step (pool_of s) (pool_of s')"
      using f pool_step.create [of "c_ID c" "c_ID ` set (st_containers s)" "holder s"] holder_gpus [of s' s]
      by (simp add: pool_of_def tables_eq_iff filled_def add_container_def)
    then show ?thesis using Pair by (simp add: pool_next_def)
  next
    case (Inl e)
    have "tables s' = tables s" using Pair unfolding InsertContainer_def Let_def Inl
      by (auto simp: tables_eq_iff split: if_splits elim!: exec_cases)
    then show ?thesis using Pair by (simp add: pool_tables)
  qed
qed

lemma AllocSpecific_step: "pool_next s (fst (AllocSpecificGPUs now nid cid idxs s))"
proof (cases "AllocSpecificGPUs now nid cid idxs s")
  case (Pair s' r)
  show ?thesis
  proof (cases r)
    case (Inl e)
    then show ?thesis using AllocSpecificGPUs_Inl [OF Pair [unfolded Inl]] Pair by (simp add: pool_tables)
  next
    case (Inr u)
    note f = AllocSpecificGPUs_Inr [OF Pair [unfolded Inr]]
    show ?thesis
    proof (cases "idxs = []")
      case True
      with f Pair show ?thesis by (intro pool_tables) (simp add: add_gpus_def gpu_rows_def tables_eq_iff)
    next
      case False
      with f reserve_step [of nid cid idxs s s' now] Pair show ?thesis by (auto simp: pool_next_def)
    qed
  qed
qed

lemma AllocGPUs_step: "pool_next s (fst (AllocGPUs now nid cid count tot s))"
proof (cases "0 < count")
  case True
  obtain s' r where e: "AllocGPUs now nid cid count tot s = (s', r)" by force
  show ?thesis
  proof (cases r)
    case (Inl m)
    then show ?thesis using AllocGPUs_Inl [OF e [unfolded Inl]] e by (simp add: pool_tables)
  next
    case (Inr idxs)
    note f = AllocGPUs_Inr [OF e [unfolded Inr] True]
    from f(3) True have "idxs \<noteq> []" by auto
    from reserve_step [OF f(1,2) this] e show ?thesis by (simp add: pool_next_def)
  qed
qed (simp add: AllocGPUs_def pool_next_def)

lemma pool_frame:
  "pool_next s (fst (query f s))" "pool_next s (fst (UpsertNode now n s))"
  "pool_next s (fst (UpdateNodeState now nid st s))" "pool_next s (fst (UpdateNodeMetrics now n s))"
  "pool_next s (fst (UpdateContainerState now cid d st u s))"
  by (rule pool_same; simp add: store_frame holder_def)+

lemma pool_queries:
  "pool_next s (fst (ListNodes s))" "pool_next s (fst (GetNode nid s))" "pool_next s (fst (GetNodeByMachineID mid s))"
  "pool_next s (fst (GPUUsageByNode s))" "pool_next s (fst (ListContainers s))" "pool_next s (fst (GetContainer cid s))"
  "pool_next s (fst (ContainerExists cid s))" "pool_next s (fst (ListGPUAllocsForNode nid s))"
  by (rule pool_tables; simp add: tables_reads agent_queries)+

lemma UpdateContainerGPUIndices_step: "pool_next s (fst (UpdateContainerGPUIndices now cid j s))"
proof (rule pool_same)
  show "container_ids (fst (UpdateContainerGPUIndices now cid j s)) = container_ids s"
    by (auto simp: container_ids_def UpdateContainerGPUIndices_def update_container_def Let_def map_update_same
        simp del: map_map intro!: frame_exec)
qed (rule holder_gpus [OF request_gpus_ops(2)])

lemma FreePort_step: "pool_next s (fst (FreePort p s))"
  by (rule pool_same [OF _ holder_gpus [OF request_gpus_ops(3)]])
    (auto simp: container_ids_def FreePort_def Let_def intro!: frame_exec split: prod.split)

lemma AllocPort_step: "AllocPort start stop cid s = Some (s', r) \<Longrightarrow> pool_next s s'"
  by (rule pool_same [OF _ holder_gpus [OF alloc_port_gpus]])
    (auto simp: container_ids_def alloc_port_containers)

end
