(* ===== verification/Threads.thy ===== *)
theory Threads
  imports Api_Programs Gpu_Pool
begin

text \<open>
  The whole master as concurrent threads. An agent's stream (\<open>GrpcServer.Connect\<close> with the
  manager's handlers) is a program like an HTTP request; a configuration is the shared state with
  the threads that are running, and a step is one call of one of them, the arrival of a new one, a
  change of what the environment will let fail, or a turn of the metrics worker or of a web socket.
\<close>

section \<open>An agent's stream\<close>

definition notify :: "string \<Rightarrow> string \<Rightarrow> gotime \<Rightarrow> (sys, 'r) prog \<Rightarrow> (sys, 'r) prog" where
  "notify nodeID kind now = act (on_mgr (publish (notice nodeID kind now)))"

definition resolve_prog :: "gotime \<Rightarrow> err + byte list \<Rightarrow> register_request \<Rightarrow> (sys, err + string) prog" where
  "resolve_prog now rnd reg =
     (if rr_machine_id reg = [] then Ret (Inl (ErrMsg ''register: machine_id required''))
      else st (GetNodeByMachineID (rr_machine_id reg)) (\<lambda>r. case r of
         Inr existing \<Rightarrow>
           st (UpsertNode now (existing\<lparr>n_Name := rr_name reg,
                 n_Hostname := rr_hostname reg, n_OS := rr_os reg, n_Arch := rr_arch reg,
                 n_AgentVersion := rr_agent_version reg, n_State := ''online'',
                 n_LastHeartbeat := now\<rparr>)) (\<lambda>r. Ret (case r of Inl e \<Rightarrow> Inl e | Inr _ \<Rightarrow> Inr (n_ID existing)))
       | Inl e \<Rightarrow>
           if e \<noteq> ErrNoRows then Ret (Inl e)
           else (case randomID rnd of
              Inl e \<Rightarrow> Ret (Inl e)
            | Inr nid \<Rightarrow>
                st (UpsertNode now (zero_node\<lparr>n_ID := nid, n_MachineID := rr_machine_id reg,
                 n_Name := rr_name reg, n_Hostname := rr_hostname reg, n_OS := rr_os reg,
                 n_Arch := rr_arch reg, n_AgentVersion := rr_agent_version reg,
                 n_State := ''online'', n_LastHeartbeat := now, n_RegisteredAt := now\<rparr>))
                 (\<lambda>r. Ret (case r of Inl e \<Rightarrow> Inl e | Inr _ \<Rightarrow> Inr nid)))))"

text \<open>The section under the manager's lock that replaces a session.\<close>

definition install :: "string \<Rightarrow> session \<Rightarrow> manager \<Rightarrow> manager" where
  "install nodeID sess m =
     (let m' = (case map_of (mg_sessions m) nodeID of None \<Rightarrow> m | Some old \<Rightarrow> close old m)
      in m'\<lparr>mg_sessions := AList.update nodeID sess (mg_sessions m')\<rparr>)"

definition respond :: "nat \<Rightarrow> string \<Rightarrow> sys \<Rightarrow> sys \<times> (err + unit)" where
  "respond stream nodeID y =
     (case stream_send stream (MasterRegisterResp \<lparr>rs_node_id = nodeID, rs_ok = True,
        rs_error = [], rs_metrics_interval_sec = 5\<rparr>) (sy_mgr y) of (m, r) \<Rightarrow> (on_mgr (\<lambda>_. m) y, r))"

definition answer_prog :: "gotime \<Rightarrow> string \<Rightarrow> session \<Rightarrow> nat \<Rightarrow> (sys, err + session \<times> string) prog" where
  "answer_prog now nodeID sess stream =
     st (UpdateNodeState now nodeID ''online'') (\<lambda>r. case r of
        Inl e \<Rightarrow> Ret (Inl e)
      | Inr _ \<Rightarrow> call (respond stream nodeID) (\<lambda>r. case r of
          Inl e \<Rightarrow> Ret (Inl e)
        | Inr _ \<Rightarrow> notify nodeID ''state'' now (Ret (Inr (sess, nodeID)))))"

definition connect_prog ::
  "gotime \<Rightarrow> err + byte list \<Rightarrow> string option \<Rightarrow> nat \<Rightarrow> err + agent_message \<Rightarrow> (sys, err + session \<times> string) prog" where
  "connect_prog now rnd peer stream first =
     (case first of
        Inl e \<Rightarrow> Ret (Inl (ErrMsg (''recv first msg: '' @ err_Error e)))
      | Inr msg \<Rightarrow>
     (case GetRegister msg of
        None \<Rightarrow> Ret (Inl (ErrMsg ''first message must be RegisterRequest''))
      | Some reg \<Rightarrow> bind_prog (resolve_prog now rnd reg) (\<lambda>r. case r of
           Inl e \<Rightarrow> Ret (Inl e)
         | Inr nodeID \<Rightarrow>
             (let sess = newSession nodeID (rr_name reg) stream (remoteHostFromContext peer) in
              act (on_mgr (install nodeID sess)) (answer_prog now nodeID sess stream)))))"

definition ack_prog :: "gotime \<Rightarrow> session \<Rightarrow> container_ack \<Rightarrow> (sys, unit) prog" where
  "ack_prog now s c =
     when_act (ca_error c \<noteq> []) (do_sys (Store.FreeGPUs (ca_container_id c)))
       (act (do_sys (UpdateContainerState now (ca_container_id c) (ca_docker_id c)
              (if ca_error c \<noteq> [] then ''error'' else ''running'')
              (if ca_error c \<noteq> [] then ca_error c else ''running'')))
         (notify (se_NodeID s) ''container'' now (Ret ())))"

fun message_prog :: "gotime \<Rightarrow> session \<Rightarrow> agent_message \<Rightarrow> (sys, unit) prog" where
  "message_prog now s (AgentHeartbeat _) =
     act (do_sys (UpdateNodeState now (se_NodeID s) ''online'')) (notify (se_NodeID s) ''state'' now (Ret ()))"
| "message_prog now s (AgentMetrics r) =
     (let n = report_node (se_NodeID s) r;
          queue = act (on_mgr (enqueueMetric (metricFromReport now (se_NodeID s) (se_nodeName s) n (Some r)
            (UnixMilli (mr_ts_unix_ms r))))) (Ret ())
      in st (UpdateNodeMetrics now n) (\<lambda>x. case x of
           Inl e \<Rightarrow> queue
         | Inr _ \<Rightarrow> act (on_mgr (publish ((notice (se_NodeID s) ''metrics'' now)\<lparr>nu_Snapshot := Some n\<rparr>))) queue))"
| "message_prog now s (AgentContainerCreated c) = ack_prog now s c"
| "message_prog now s (AgentContainerStopped c) =
     act (do_sys (UpdateContainerState now (ca_container_id c) (ca_docker_id c)
            (if ca_error c \<noteq> [] then ''error'' else ''exited'') (if ca_error c \<noteq> [] then ca_error c else ''exited'')))
       (notify (se_NodeID s) ''container'' now (Ret ()))"
| "message_prog now s (AgentContainerStarted c) = ack_prog now s c"
| "message_prog now s (AgentContainerStateChanged c) =
     (if sc_container_id c = [] \<or> sc_state c = [] then Ret ()
      else st (ContainerExists (sc_container_id c)) (\<lambda>x. case x of
         Inr True \<Rightarrow>
           act (do_sys (UpdateContainerState now (sc_container_id c) (sc_docker_id c) (sc_state c) (sc_status c)))
             (when_act (isTerminalGPUAction (sc_action c)) (do_sys (Store.FreeGPUs (sc_container_id c)))
               (notify (se_NodeID s) ''container'' now (Ret ())))
       | _ \<Rightarrow> Ret ()))"
| "message_prog now s (AgentRegister _) = Ret ()"
| "message_prog now s AgentEmpty = Ret ()"

fun revert_prog :: "gotime \<Rightarrow> string \<Rightarrow> string \<Rightarrow> container list \<Rightarrow> (sys, unit) prog" where
  "revert_prog now nodeID status [] = Ret ()"
| "revert_prog now nodeID status (c # cs) =
     (if c_NodeID c \<noteq> nodeID then revert_prog now nodeID status cs
      else if c_State c \<noteq> ''starting'' \<and> c_State c \<noteq> ''stopping'' then revert_prog now nodeID status cs
      else
        act (do_sys (UpdateContainerState now (c_ID c) (c_DockerID c) ''error'' status))
          (act (do_sys (Store.FreeGPUs (c_ID c)))
            (notify nodeID ''container'' now (revert_prog now nodeID status cs))))"

definition disconnect_prog :: "gotime \<Rightarrow> string \<Rightarrow> err \<Rightarrow> (sys, unit) prog" where
  "disconnect_prog now nodeID e =
     call (\<lambda>y. (on_mgr (\<lambda>m. m\<lparr>mg_sessions := AList.delete nodeID (mg_sessions m)\<rparr>) y, Get nodeID (sy_mgr y))) (\<lambda>old.
       bind_prog (case old of None \<Rightarrow> Ret () | Some s \<Rightarrow> act (on_mgr (close s)) (Ret ())) (\<lambda>_.
         act (do_sys (UpdateNodeState now nodeID ''offline''))
           (notify nodeID ''state'' now
             (st ListContainers (\<lambda>r. case r of
                Inl _ \<Rightarrow> Ret ()
              | Inr cs \<Rightarrow> revert_prog now nodeID (''agent disconnected: '' @ err_Error e) cs)))))"

text \<open>The loop of \<open>HandleMessages\<close>: every message with the time at which it is handled.\<close>

primrec messages_prog :: "session \<Rightarrow> (gotime \<times> agent_message) list \<Rightarrow> (sys, unit) prog" where
  "messages_prog s [] = Ret ()"
| "messages_prog s (x # xs) = bind_prog (message_prog (fst x) s (snd x)) (\<lambda>_. messages_prog s xs)"

definition stream_prog ::
  "gotime \<Rightarrow> err + byte list \<Rightarrow> string option \<Rightarrow> nat \<Rightarrow> err + agent_message \<Rightarrow>
     (gotime \<times> agent_message) list \<Rightarrow> gotime \<Rightarrow> err \<Rightarrow> (sys, err) prog" where
  "stream_prog now rnd peer stream first msgs later e =
     bind_prog (connect_prog now rnd peer stream first) (\<lambda>r. case r of
        Inl e1 \<Rightarrow> Ret e1
      | Inr (sess, nodeID) \<Rightarrow> look_up nodeID (\<lambda>s. case s of
           None \<Rightarrow> Ret (ErrMsg ''session missing'')
         | Some sess \<Rightarrow> bind_prog (messages_prog sess msgs) (\<lambda>_.
             bind_prog (disconnect_prog later nodeID e) (\<lambda>_. Ret e))))"

section \<open>Alone\<close>

lemma on_sys_mgr: "on_sys f y = (case on_store f (sy_mgr y) of (m, r) \<Rightarrow> (on_mgr (\<lambda>_. m) y, r))"
  by (simp add: on_sys_def on_mgr_def)

lemma do_sys_mgr: "do_sys f y = on_mgr (do_store f) y"
  by (simp add: on_sys_def on_mgr_def split: prod.split)

lemma on_mgr_comp [simp]: "on_mgr f (on_mgr g y) = on_mgr (\<lambda>m. f (g m)) y"
  by (simp add: on_mgr_def)

lemma run_notify [alone]: "run (notify nid kind now p) y = run p (on_mgr (publish (notice nid kind now)) y)"
  by (simp add: notify_def)

lemma run_ack [alone]: "run (ack_prog now s c) y = Some (on_mgr (handleContainerCreated now s c) y, ())"
  by (simp add: ack_prog_def alone handleContainerCreated_def do_sys_mgr Let_def)

lemma started_is_created: "handleContainerStarted = handleContainerCreated"
  by (simp add: fun_eq_iff handleContainerStarted_def handleContainerCreated_def)

lemma notify_simps [simp]: "bind_prog (notify nid kind now p) k = notify nid kind now (bind_prog p k)"
  by (simp add: notify_def)

lemma on_mgr_id: "on_mgr (\<lambda>_. sy_mgr y) y = y" "on_mgr (\<lambda>m. m) y = y"
  by (simp_all add: on_mgr_def)

lemma on_mgr_eq_iff: "on_mgr f y = on_mgr g y \<longleftrightarrow> f (sy_mgr y) = g (sy_mgr y)"
  by (cases y) (simp add: on_mgr_def)

lemma on_store_parts: "on_store f m = (m', r) \<Longrightarrow> do_store f m = m' \<and> snd (f (mg_store m)) = r"
  by (auto simp: on_store_def split: prod.splits)

lemma run_message [alone]: "run (message_prog now s msg) y = Some (on_mgr (handleIncoming now s msg) y, ())"
proof (cases msg)
  case (AgentMetrics r)
  let ?n = "report_node (se_NodeID s) r"
  obtain m1 r1 where m1: "on_store (UpdateNodeMetrics now ?n) (sy_mgr y) = (m1, r1)" by force
  with on_store_parts [OF m1] show ?thesis
    by (cases r1) (simp_all add: AgentMetrics handleMetrics_def do_sys_mgr Let_def on_mgr_eq_iff)
next
  case (AgentContainerStateChanged c)
  obtain m1 r1 where m1: "on_store (ContainerExists (sc_container_id c)) (sy_mgr y) = (m1, r1)" by force
  note f = AgentContainerStateChanged handleContainerStateChanged_def m1 on_store_parts [OF m1] do_sys_mgr
    on_mgr_eq_iff on_mgr_id Let_def run_notify
  consider e where "r1 = Inl e" | b where "r1 = Inr b" by (cases r1) auto
  then show ?thesis
  proof cases
    case 1
    then show ?thesis by (simp add: f)
  next
    case 2
    then show ?thesis by (cases b) (simp_all add: f)
  qed
qed (simp_all add: run_ack started_is_created handleContainerStopped_def do_sys_mgr run_notify on_mgr_eq_iff on_mgr_id Let_def)

lemma run_messages [alone]:
  "run (messages_prog s xs) y = Some (on_mgr (fold (\<lambda>x. handleIncoming (fst x) s (snd x)) xs) y, ())"
  by (induction xs arbitrary: y) (simp_all add: run_bind run_message on_mgr_id)

lemma run_revert [alone]:
  "run (revert_prog now nid status cs) y = Some (on_mgr (revert_loop now nid status cs) y, ())"
  by (induction cs arbitrary: y) (simp_all add: on_mgr_id run_notify do_sys_mgr)

lemma run_disconnect [alone]: "run (disconnect_prog now nid e) y = Some (on_mgr (handleDisconnect now nid e) y, ())"
proof -
  let ?m = "(sy_mgr y)\<lparr>mg_sessions := AList.delete nid (mg_sessions (sy_mgr y))\<rparr>"
  let ?m2 = "case Get nid (sy_mgr y) of None \<Rightarrow> ?m | Some s \<Rightarrow> close s ?m"
  let ?m3 = "publish (notice nid ''state'' now) (do_store (UpdateNodeState now nid ''offline'') ?m2)"
  obtain m4 r where l: "on_store ListContainers ?m3 = (m4, r)" by force
  have eq: "handleDisconnect now nid e (sy_mgr y) = (case r of Inl _ \<Rightarrow> m4
      | Inr cs \<Rightarrow> revert_loop now nid (''agent disconnected: '' @ err_Error e) cs m4)"
    using l unfolding Get_def handleDisconnect_def revertTransientOnDisconnect_def Let_def
    by (cases r; cases "map_of (mg_sessions (sy_mgr y)) nid") simp_all
  show ?thesis
    using on_store_parts [OF l]
    by (cases "Get nid (sy_mgr y)"; cases r)
      (simp_all add: disconnect_prog_def run_bind run_notify do_sys_mgr run_revert on_mgr_eq_iff eq)
qed

lemma run_resolve [alone]:
  "run (resolve_prog now rnd reg) y = (case resolveNodeID now rnd reg (sy_mgr y) of (m, r) \<Rightarrow> Some (on_mgr (\<lambda>_. m) y, r))"
proof -
  obtain m1 r1 where m1: "on_store (GetNodeByMachineID (rr_machine_id reg)) (sy_mgr y) = (m1, r1)" by force
  show ?thesis
    by (cases r1) (auto simp: resolve_prog_def resolveNodeID_def on_sys_mgr m1 on_mgr_id split: sum.split prod.split)
qed

lemma run_connect [alone]:
  "run (connect_prog now rnd peer stream first) y =
     (case OnAgentConnect now rnd peer stream first (sy_mgr y) of (m, r) \<Rightarrow> Some (on_mgr (\<lambda>_. m) y, r))"
proof (cases first)
  case (Inl e)
  then show ?thesis by (simp add: connect_prog_def OnAgentConnect_def on_mgr_id)
next
  case (Inr msg)
  show ?thesis
  proof (cases "GetRegister msg")
    case None
    with Inr show ?thesis by (simp add: connect_prog_def OnAgentConnect_def on_mgr_id)
  next
    case (Some reg)
    obtain m1 r1 where m1: "resolveNodeID now rnd reg (sy_mgr y) = (m1, r1)" by force
    show ?thesis
    proof (cases r1)
      case (Inl e)
      with Inr Some m1 show ?thesis by (simp add: connect_prog_def OnAgentConnect_def run_bind run_resolve)
    next
      case r1: (Inr nodeID)
      let ?m3 = "install nodeID (newSession nodeID (rr_name reg) stream (remoteHostFromContext peer)) m1"
      obtain m4 r4 where m4: "on_store (UpdateNodeState now nodeID ''online'') ?m3 = (m4, r4)" by force
      obtain m5 r5 where m5: "stream_send stream (MasterRegisterResp \<lparr>rs_node_id = nodeID, rs_ok = True,
          rs_error = [], rs_metrics_interval_sec = 5\<rparr>) m4 = (m5, r5)" by force
      have a: "OnAgentConnect now rnd peer stream first (sy_mgr y) = (case r4 of Inl e \<Rightarrow> (m4, Inl e)
          | Inr _ \<Rightarrow> (case r5 of Inl e \<Rightarrow> (m5, Inl e) | Inr _ \<Rightarrow> (publish (notice nodeID ''state'' now) m5,
              Inr (newSession nodeID (rr_name reg) stream (remoteHostFromContext peer), nodeID))))"
        using Inr Some m1 r1 m4 m5 by (simp add: OnAgentConnect_def install_def Let_def split: sum.split)
      show ?thesis
        unfolding a using Inr Some m1 r1 m5 on_store_parts [OF m4]
        by (cases r4; cases r5)
          (simp_all add: connect_prog_def answer_prog_def run_bind run_resolve run_notify do_sys_mgr respond_def on_mgr_eq_iff Let_def)
    qed
  qed
qed

lemma run_stream [alone]:
  "run (stream_prog now rnd peer stream first (map (Pair now) msgs) now e) y =
     (case Connect now rnd peer stream first msgs e (sy_mgr y) of (m, r) \<Rightarrow> Some (on_mgr (\<lambda>_. m) y, r))"
proof -
  obtain m1 r1 where m1: "OnAgentConnect now rnd peer stream first (sy_mgr y) = (m1, r1)" by force
  have f: "fold (\<lambda>x. handleIncoming (fst x) s (snd x)) (map (Pair now) msgs) = fold (handleIncoming now s) msgs" for s
    by (induction msgs) (simp_all add: comp_def)
  show ?thesis
  proof (cases r1)
    case (Inr x)
    obtain sess nid where x: "x = (sess, nid)" by force
    show ?thesis
      by (cases "Get nid m1")
        (simp_all add: stream_prog_def Connect_def HandleMessages_def m1 Inr x run_bind run_connect run_messages
          run_disconnect f)
  qed (simp add: stream_prog_def Connect_def m1 run_bind run_connect)
qed

end
