(* ===== verification/Interleaving.thy ===== *)
theory Interleaving
  imports Threads
begin

text \<open>
  Configurations of the master: the shared state and its threads. The interface \<open>shared_calls\<close> asks
  that a property survive every method of the store, every section of the manager and every change
  of the proxy; whatever satisfies it holds in all configurations that any interleaving reaches. A
  predicate of the tables that the store's methods keep does.
\<close>

section \<open>Requests\<close>

datatype request =
    Health
  | List_nodes
  | Get_node string
  | List_node_containers string
  | List_node_gpus string
  | List_containers
  | Get_container string
  | Create_container "err + create_req"
  | Delete_container string
  | Start_container string
  | Stop_container string

text \<open>The routes of \<open>Engine\<close>: a method, the segments of the path and what binding the body gave. The
  web socket and the static files are left out.\<close>

definition Engine :: "string \<Rightarrow> string list \<Rightarrow> err + create_req \<Rightarrow> request option" where
  "Engine method path body =
     (if path = [] \<or> hd path \<noteq> ''api'' then None
      else if method = ''GET'' then
        (case tl path of
           [a] \<Rightarrow> if a = ''health'' then Some Health
                  else if a = ''nodes'' then Some List_nodes
                  else if a = ''containers'' then Some List_containers
                  else None
         | [a, i] \<Rightarrow> if a = ''nodes'' then Some (Get_node i)
                     else if a = ''containers'' then Some (Get_container i)
                     else None
         | [a, i, b] \<Rightarrow> if a = ''nodes'' \<and> b = ''containers'' then Some (List_node_containers i)
                        else if a = ''nodes'' \<and> b = ''gpus'' then Some (List_node_gpus i)
                        else None
         | _ \<Rightarrow> None)
      else if method = ''POST'' then
        (case tl path of
           [a] \<Rightarrow> if a = ''containers'' then Some (Create_container body) else None
         | [a, i, b] \<Rightarrow> if a = ''containers'' \<and> b = ''start'' then Some (Start_container i)
                        else if a = ''containers'' \<and> b = ''stop'' then Some (Stop_container i)
                        else None
         | _ \<Rightarrow> None)
      else if method = ''DELETE'' then
        (case tl path of [a, i] \<Rightarrow> if a = ''containers'' then Some (Delete_container i) else None | _ \<Rightarrow> None)
      else None)"

text \<open>What answers the other paths: \<open>readFile\<close> reads the embedded frontend.\<close>

datatype page = NotFound string | Plain nat string | Data nat string string

definition unrouted :: "(string \<Rightarrow> string + string) \<Rightarrow> string \<Rightarrow> page" where
  "unrouted readFile path =
     (if hasPrefix path ''/api/'' then NotFound ''not found''
      else
        (case readFile ''index.html'' of
           Inl e \<Rightarrow> Plain 404 ''UI bundle not embedded. Rebuild with `make all` (or `make web-build && make build`).''
         | Inr html \<Rightarrow> Data 200 ''text/html; charset=utf-8'' html))"

fun handler :: "env \<Rightarrow> request \<Rightarrow> (sys, response) prog" where
  "handler ev Health = Ret (JSON 200 BOk)"
| "handler ev List_nodes = nodes_prog"
| "handler ev (Get_node i) = node_prog i"
| "handler ev (List_node_containers i) = node_containers_prog i"
| "handler ev (List_node_gpus i) = node_gpus_prog i"
| "handler ev List_containers = containers_prog ev"
| "handler ev (Get_container i) = container_prog ev i"
| "handler ev (Create_container body) = create_prog ev body"
| "handler ev (Delete_container i) = delete_prog i"
| "handler ev (Start_container i) = start_prog ev i"
| "handler ev (Stop_container i) = stop_prog ev i"

text \<open>What the handlers of the theory \<open>Api\<close> do in one step.\<close>

fun handle :: "env \<Rightarrow> request \<Rightarrow> sys \<Rightarrow> (sys \<times> response) option" where
  "handle ev Health y = Some (y, JSON 200 BOk)"
| "handle ev List_nodes y = Some (listNodes y)"
| "handle ev (Get_node i) y = Some (getNode i y)"
| "handle ev (List_node_containers i) y = Some (listNodeContainers i y)"
| "handle ev (List_node_gpus i) y = Some (listNodeGPUs i y)"
| "handle ev List_containers y = Some (listContainers ev y)"
| "handle ev (Get_container i) y = Some (getContainer ev i y)"
| "handle ev (Create_container body) y = createContainer ev body y"
| "handle ev (Delete_container i) y = Some (deleteContainer i y)"
| "handle ev (Start_container i) y = Some (startContainer ev i y)"
| "handle ev (Stop_container i) y = Some (stopContainer ev i y)"

lemma run_handler: "run (handler ev q) y = handle ev q y"
  by (cases q) (simp_all add: alone)

section \<open>Configurations\<close>

type_synonym thread = "(sys, response option) prog"

datatype job =
    Serve env request
  | Stream gotime "err + byte list" "string option" nat "err + agent_message"
      "(gotime \<times> agent_message) list" gotime err

fun job_prog :: "job \<Rightarrow> thread" where
  "job_prog (Serve ev q) = bind_prog (handler ev q) (\<lambda>r. Ret (Some r))"
| "job_prog (Stream now rnd peer stream first msgs later e) =
     bind_prog (stream_prog now rnd peer stream first msgs later e) (\<lambda>_. Ret None)"

inductive ambient :: "sys \<Rightarrow> sys \<Rightarrow> bool" where
  database: "ambient y (with_store ((sy_store y)\<lparr>st_faults := fs\<rparr>) y)"
| streams: "ambient y (on_mgr (\<lambda>m. m\<lparr>mg_broken := b\<rparr>) y)"
| worker: "ambient y (on_mgr (\<lambda>m. m\<lparr>mg_sinkCh := tl (mg_sinkCh m)\<rparr>) y)"
| shutdown: "ambient y (on_mgr (\<lambda>m. m\<lparr>mg_sinkCh := drop k (mg_sinkCh m), mg_stopped := True\<rparr>) y)"
| socket: "ambient y (fst (websocket_turn y))"

inductive_cases ambientE: "ambient y y'"

abbreviation conc_step :: "sys \<times> thread list \<Rightarrow> sys \<times> thread list \<Rightarrow> bool" where
  "conc_step \<equiv> interleave (range job_prog) ambient"

lemma conc_arrive: "conc_step (y, ts) (y, ts @ [job_prog j])"
  by (rule interleave.arrive) simp

lemma guarded_when: "(\<And>s. I s \<Longrightarrow> S s (f s)) \<Longrightarrow> guarded I S p \<Longrightarrow> guarded I S (when_act b f p)"
  unfolding when_act_def by (auto intro: guards)

lemma guarded_look_up: "(\<And>y. I y \<Longrightarrow> S y y) \<Longrightarrow> (\<And>a. guarded I S (k a)) \<Longrightarrow> guarded I S (look_up nid k)"
  unfolding look_up_def by (rule guarded_call) simp_all

section \<open>The atomic calls\<close>

text \<open>Every method of \<open>Store\<close> that a thread calls; \<open>K\<close> bounds the container states it may write.\<close>

inductive store_call :: "string set \<Rightarrow> (store \<Rightarrow> store) \<Rightarrow> bool" for K where
  "store_call K (\<lambda>s. fst (ListNodes s))"
| "store_call K (\<lambda>s. fst (GetNode nid s))"
| "store_call K (\<lambda>s. fst (GetNodeByMachineID mid s))"
| "store_call K (\<lambda>s. fst (GPUUsageByNode s))"
| "store_call K (\<lambda>s. fst (ListContainers s))"
| "store_call K (\<lambda>s. fst (GetContainer cid s))"
| "store_call K (\<lambda>s. fst (ContainerExists cid s))"
| "store_call K (\<lambda>s. fst (ListGPUAllocsForNode nid s))"
| "store_call K (\<lambda>s. fst (UpsertNode now n s))"
| "store_call K (\<lambda>s. fst (UpdateNodeState now nid state s))"
| "store_call K (\<lambda>s. fst (UpdateNodeMetrics now n s))"
| "c_State c \<in> K \<Longrightarrow> store_call K (\<lambda>s. fst (InsertContainer now c s))"
| "state \<in> K \<Longrightarrow> store_call K (\<lambda>s. fst (UpdateContainerState now cid d state status s))"
| "store_call K (\<lambda>s. fst (UpdateContainerGPUIndices now cid j s))"
| "store_call K (\<lambda>s. fst (DeleteContainer cid s))"
| "store_call K (\<lambda>s. case AllocPort start stop cid s of None \<Rightarrow> s | Some (s', r) \<Rightarrow> s')"
| "store_call K (\<lambda>s. fst (FreePort p s))"
| "store_call K (\<lambda>s. fst (AllocGPUs now nid cid count tot s))"
| "store_call K (\<lambda>s. fst (AllocSpecificGPUs now nid cid idxs s))"
| "store_call K (\<lambda>s. fst (Store.FreeGPUs cid s))"
| "store_call K (\<lambda>s. s\<lparr>st_faults := fs\<rparr>)"

text \<open>Every section of the manager, and the sends.\<close>

inductive hub_call :: "(manager \<Rightarrow> manager) \<Rightarrow> bool" where
  "hub_call (publish u)"
| "hub_call (enqueueMetric x)"
| "se_NodeID sess = nid \<Longrightarrow> hub_call (install nid sess)"
| "hub_call (\<lambda>m. m\<lparr>mg_sessions := AList.delete nid (mg_sessions m)\<rparr>)"
| "hub_call (close sess)"
| "hub_call (\<lambda>m. fst (stream_send stream msg m))"
| "hub_call (\<lambda>m. m\<lparr>mg_broken := b\<rparr>)"
| "hub_call (\<lambda>m. m\<lparr>mg_sinkCh := tl (mg_sinkCh m)\<rparr>)"
| "hub_call (\<lambda>m. m\<lparr>mg_updates := tl (mg_updates m)\<rparr>)"
| "hub_call (\<lambda>m. m\<lparr>mg_sinkCh := drop k (mg_sinkCh m), mg_stopped := True\<rparr>)"

inductive_cases store_callE: "store_call K g"
inductive_cases hub_callE: "hub_call g"

text \<open>The states the master writes itself, and the streams that report no other.\<close>

definition own_states :: "string set" where
  "own_states = {''starting'', ''running'', ''stopping'', ''exited'', ''error''}"

fun message_within :: "string set \<Rightarrow> agent_message \<Rightarrow> bool" where
  "message_within K (AgentContainerStateChanged c) \<longleftrightarrow> sc_state c = [] \<or> sc_state c \<in> K"
| "message_within K _ = True"

fun job_within :: "string set \<Rightarrow> job \<Rightarrow> bool" where
  "job_within K (Serve ev q) = True"
| "job_within K (Stream now rnd peer stream first msgs later e) \<longleftrightarrow> (\<forall>x \<in> set msgs. message_within K (snd x))"

lemma message_within_UNIV [simp]: "message_within UNIV msg"
  by (cases msg) simp_all

lemma all_jobs: "job_prog ` Collect (job_within UNIV) = range job_prog"
proof -
  have "job_within UNIV j" for j by (cases j) simp_all
  then have "Collect (job_within UNIV) = UNIV" by auto
  then show ?thesis by simp
qed

locale shared_calls =
  fixes K :: "string set" and I :: "sys \<Rightarrow> bool" and S :: "sys \<Rightarrow> sys \<Rightarrow> bool"
  assumes own: "own_states \<subseteq> K"
    and rows: "I y \<Longrightarrow> snd (GetContainer cid (sy_store y)) = Inr cc \<Longrightarrow> c_State cc \<in> K"
    and store: "store_call K g \<Longrightarrow> I y \<Longrightarrow> S y (with_store (g (sy_store y)) y)"
    and hub: "hub_call h \<Longrightarrow> I y \<Longrightarrow> S y (on_mgr h y)"
    and proxy: "I y \<Longrightarrow> S y (y\<lparr>sy_proxy := px\<rparr>)"
    and closed: "I y \<Longrightarrow> S y y' \<Longrightarrow> I y'"
begin

lemma idle: "I y \<Longrightarrow> S y y"
  using proxy [of y "sy_proxy y"] by simp

lemma on_sys_I: "store_call K (\<lambda>s. fst (f s)) \<Longrightarrow> I y \<Longrightarrow> S y (do_sys f y)"
  using store [of "\<lambda>s. fst (f s)" y] by (simp add: on_sys_alt)

lemma send_I: "I y \<Longrightarrow> S y (fst (sys_send sess msg y))" "I y \<Longrightarrow> S y (fst (respond stream nid y))"
proof -
  assume "I y"
  then have "S y (on_mgr (\<lambda>m. fst (stream_send st x m)) y)" for st x by (intro hub hub_call.intros)
  moreover have "fst (sys_send sess msg y) = on_mgr (\<lambda>m. fst (stream_send (se_stream sess) msg m)) y"
    by (simp add: sys_send_def Send_def on_mgr_def split: prod.split)
  moreover have "fst (respond stream nid y) = on_mgr (\<lambda>m. fst (stream_send stream (MasterRegisterResp
      \<lparr>rs_node_id = nid, rs_ok = True, rs_error = [], rs_metrics_interval_sec = 5\<rparr>) m)) y"
    by (simp add: respond_def on_mgr_def split: prod.split)
  ultimately show "S y (fst (sys_send sess msg y))" "S y (fst (respond stream nid y))" by simp_all
qed

lemma port_I:
  assumes "I y" and "map_option (\<lambda>(s, r). (y\<lparr>sy_mgr := (sy_mgr y)\<lparr>mg_store := s\<rparr>\<rparr>, r)) (AllocPort a b cid (sy_store y)) = Some (y', r)"
  shows "S y y'"
proof -
  have "S y (with_store (case AllocPort a b cid (sy_store y) of None \<Rightarrow> sy_store y | Some (s', r) \<Rightarrow> s') y)"
    using assms(1) store [OF store_call.intros(16)] by blast
  with assms(2) show ?thesis by (auto simp: with_store_def)
qed

lemma proxy_I: "I y \<Longrightarrow> S y (add_route port cid nid hp y)" "I y \<Longrightarrow> S y (add_listener port y)" "I y \<Longrightarrow> S y (unregister port y)"
  by (simp_all add: add_route_def add_listener_def unregister_def proxy)

text \<open>One rule for each way the programs make a call.\<close>

lemma kept:
  "store_call K (\<lambda>s. fst (f s)) \<Longrightarrow> (\<And>a. guarded I S (k a)) \<Longrightarrow> guarded I S (st f k)"
  "store_call K (\<lambda>s. fst (f s)) \<Longrightarrow> guarded I S p \<Longrightarrow> guarded I S (act (do_sys f) p)"
  "store_call K (\<lambda>s. fst (f s)) \<Longrightarrow> guarded I S p \<Longrightarrow> guarded I S (when_act b (do_sys f) p)"
  "hub_call h \<Longrightarrow> guarded I S p \<Longrightarrow> guarded I S (act (on_mgr h) p)"
  "guarded I S p \<Longrightarrow> guarded I S (notify nid kind now p)"
  "(\<And>a. guarded I S (k' a)) \<Longrightarrow> guarded I S (call (sys_send sess msg) k')"
  "(\<And>a. guarded I S (k' a)) \<Longrightarrow> guarded I S (call (respond stream nid) k')"
  "guarded I S p \<Longrightarrow> guarded I S (when_act b (add_route port cid nid hp) p)"
  "guarded I S p \<Longrightarrow> guarded I S (when_act b (unregister port) p)"
  "state \<in> K \<Longrightarrow> guarded I S p \<Longrightarrow> guarded I S (set_state_prog ev cc state status p)"
  unfolding notify_def set_state_prog_def
  by (rule guarded_call guarded_act guarded_when; simp add: on_sys_I send_I proxy_I hub hub_call.intros store_call.intros)+

lemma bind_kept: "guarded I S p \<Longrightarrow> guarded I S (bind_port b listen port p)"
  unfolding bind_port_def by (auto intro!: guarded_call guarded_act proxy_I idle split: sum.split)

lemma states: "''starting'' \<in> K" "''running'' \<in> K" "''stopping'' \<in> K" "''exited'' \<in> K" "''error'' \<in> K"
  using own by (auto simp: own_states_def)

lemma new_state: "c_State (new_container cid nid req ports name ext) \<in> K"
  by (simp add: new_container_def states)

lemma if_state: "x \<in> K \<Longrightarrow> y \<in> K \<Longrightarrow> (if b then x else y) \<in> K"
  by simp

lemma container_kept:
  assumes "\<And>r. (\<And>cc. r = Inr cc \<Longrightarrow> c_State cc \<in> K) \<Longrightarrow> guarded I S (k r)"
  shows "guarded I S (st (GetContainer cid) k)"
proof (rule guarded_call_results)
  fix y assume y: "I y"
  have "S y (fst (on_sys (GetContainer cid) y))" by (rule on_sys_I [OF _ y]) (rule store_call.intros)
  moreover have "guarded I S (k (snd (on_sys (GetContainer cid) y)))"
    by (rule assms) (simp add: on_sys_alt rows [OF y])
  ultimately show "S y (fst (on_sys (GetContainer cid) y)) \<and> guarded I S (k (snd (on_sys (GetContainer cid) y)))" ..
qed

lemma port_kept: "guarded I S (port_prog cid req ports)"
  unfolding port_prog_def by (auto intro!: guards elim: port_I)

lemma online_kept: "(\<And>a. guarded I S (k a)) \<Longrightarrow> guarded I S (call (\<lambda>y. (y, Online (sy_mgr y))) k)"
  by (rule guarded_call) (simp_all add: idle)

lemma look_up_kept: "(\<And>a. guarded I S (k a)) \<Longrightarrow> guarded I S (look_up nid k)"
  by (rule guarded_look_up) (simp_all add: idle)

lemmas rules = guarded_Ret guarded_bind look_up_kept container_kept kept bind_kept port_kept online_kept states new_state if_state
  store_call.intros hub_call.intros

lemma pick_kept: "guarded I S (pick_prog req)"
  unfolding pick_prog_def select_prog_def Let_def
  by (auto intro!: rules split: sum.split option.split)

lemma reserve_kept: "guarded I S (reserve_prog now cid n req)"
  unfolding reserve_prog_def Let_def by (auto intro!: rules split: sum.split simp del: render.simps)

lemma place_kept: "guarded I S (place_prog ev req n)"
  unfolding place_prog_def Let_def by (auto intro!: rules reserve_kept split: sum.split)

lemma hand_off_kept: "guarded I S (hand_off_prog ev req n sess placed)"
  unfolding hand_off_prog_def cleanup_prog_def Let_def by (auto intro!: rules split: sum.split prod.split)

lemma create_kept: "guarded I S (create_prog ev bound)"
  unfolding create_prog_def create_on_prog_def
  by (auto intro!: rules pick_kept place_kept hand_off_kept split: sum.split option.split)

lemma stop_command_kept: "guarded I S (stop_command cc remove)"
  unfolding stop_command_def by (auto intro!: rules split: option.split)

lemma handler_kept: "guarded I S (handler ev q)"
proof (cases q)
  case (Delete_container i)
  then show ?thesis by (auto simp: delete_prog_def intro!: rules stop_command_kept split: sum.split)
next
  case (Start_container i)
  then show ?thesis
    by (auto simp: start_prog_def Let_def intro!: rules split: sum.split option.split)
next
  case (Stop_container i)
  then show ?thesis by (auto simp: stop_prog_def intro!: rules stop_command_kept split: sum.split)
qed (auto simp: nodes_prog_def node_prog_def node_containers_prog_def node_gpus_prog_def containers_prog_def
    container_prog_def create_kept intro!: rules split: sum.split)

lemma ack_kept: "guarded I S (ack_prog now s c)"
  unfolding ack_prog_def by (intro rules)

lemma message_kept: "message_within K msg \<Longrightarrow> guarded I S (message_prog now s msg)"
  by (cases msg) (auto simp: Let_def ack_kept intro!: rules split: sum.split bool.split)

lemma messages_kept: "\<forall>x \<in> set xs. message_within K (snd x) \<Longrightarrow> guarded I S (messages_prog s xs)"
  by (induction xs) (auto intro!: rules message_kept)

lemma resolve_kept: "guarded I S (resolve_prog now rnd reg)"
  unfolding resolve_prog_def by (auto intro!: rules split: sum.split)

lemma connect_kept: "guarded I S (connect_prog now rnd peer stream first)"
  unfolding connect_prog_def answer_prog_def Let_def by (auto intro!: rules resolve_kept split: sum.split option.split)

lemma revert_kept: "guarded I S (revert_prog now nid status cs)"
  by (induction cs) (auto intro!: rules)

lemma remove_kept:
  "(\<And>a. guarded I S (k a)) \<Longrightarrow>
     guarded I S (call (\<lambda>y. (on_mgr (\<lambda>m. m\<lparr>mg_sessions := AList.delete nid (mg_sessions m)\<rparr>) y, Get nid (sy_mgr y))) k)"
  by (rule guarded_call) (simp_all add: hub hub_call.intros)

lemma disconnect_kept: "guarded I S (disconnect_prog now nid e)"
  unfolding disconnect_prog_def
  by (intro remove_kept rules) (auto intro!: rules revert_kept split: sum.split option.split)

lemma stream_kept: "\<forall>x \<in> set msgs. message_within K (snd x) \<Longrightarrow> guarded I S (stream_prog now rnd peer stream first msgs later e)"
  unfolding stream_prog_def
  by (auto intro!: rules connect_kept messages_kept disconnect_kept split: sum.split option.split)

lemma ambient_kept:
  assumes "ambient y y'" and "I y"
  shows "S y y'"
  using assms(1)
proof cases
  case (database fs)
  then show ?thesis using store [of "\<lambda>s. s\<lparr>st_faults := fs\<rparr>"] assms(2) by (simp add: store_call.intros)
next
  case socket
  have "fst (websocket_turn y) = y \<or> fst (websocket_turn y) = on_mgr (\<lambda>m. m\<lparr>mg_updates := tl (mg_updates m)\<rparr>) y"
    by (simp add: websocket_turn_def on_mgr_def split: list.split)
  then show ?thesis using hub [OF hub_call.intros(9) assms(2)] socket assms(2) by (auto simp: idle)
qed (use assms(2) in \<open>simp_all add: hub hub_call.intros\<close>)

lemma job_kept: "job_within K j \<Longrightarrow> guarded I S (job_prog j)"
  by (cases j) (auto intro!: guarded_bind guarded_Ret handler_kept stream_kept)

end

sublocale shared_calls \<subseteq> threads: shared_invariant "job_prog ` Collect (job_within K)" ambient I S
proof
  show "p \<in> job_prog ` Collect (job_within K) \<Longrightarrow> guarded I S p" for p
    using job_kept by auto
qed (blast intro: ambient_kept closed)+

section \<open>Its instances\<close>

text \<open>A predicate of the tables that the store's methods keep.\<close>

sublocale master_frame \<subseteq> calls: shared_calls UNIV "\<lambda>y. P (sy_store y)" "\<lambda>_ y. P (sy_store y)"
proof
  fix g :: "store \<Rightarrow> store" and y assume "store_call UNIV g" and p: "P (sy_store y)"
  then have "P (g (sy_store y))"
    by cases (auto simp: ops reads queries store_ops P_faults dest: alloc_port split: option.split)
  then show "P (sy_store (with_store (g (sy_store y)) y))" by simp
next
  fix h :: "manager \<Rightarrow> manager" and y assume "hub_call h"
  then show "P (sy_store y) \<Longrightarrow> P (sy_store (on_mgr h y))"
    by cases (simp_all add: install_def close_def Let_def split: option.split)
qed simp_all

text \<open>The GPU pool: every call makes one step of the specification of \<open>Gpu_Pool\<close> at most.\<close>

interpretation pool_moves: shared_calls UNIV "\<lambda>y. integrity (sy_store y)"
  "\<lambda>y y'. integrity (sy_store y') \<and> pool_next (sy_store y) (sy_store y')"
proof
  fix g :: "store \<Rightarrow> store" and y assume g: "store_call UNIV g" and i: "integrity (sy_store y)"
  then have "pool_next (sy_store y) (g (sy_store y))"
    by cases (auto simp: pool_frame pool_queries InsertContainer_step UpdateContainerGPUIndices_step DeleteContainer_step
        FreePort_step AllocGPUs_step AllocSpecific_step FreeGPUs_step pool_tables dest: AllocPort_step split: option.split)
  moreover have "integrity (g (sy_store y))"
    using g i consistent.calls.store [of g y] by simp
  ultimately show "integrity (sy_store (with_store (g (sy_store y)) y)) \<and>
      pool_next (sy_store y) (sy_store (with_store (g (sy_store y)) y))" by simp
next
  fix h :: "manager \<Rightarrow> manager" and y assume "hub_call h" and "integrity (sy_store y)"
  moreover from this have "sy_store (on_mgr h y) = sy_store y"
    by cases (simp_all add: install_def close_def Let_def split: option.split)
  ultimately show "integrity (sy_store (on_mgr h y)) \<and> pool_next (sy_store y) (sy_store (on_mgr h y))"
    by (simp add: pool_tables)
qed (simp_all add: pool_tables)

text \<open>Predicates of the manager: the bounds of the two channels, and one session per node.\<close>

interpretation channels: shared_calls UNIV "\<lambda>y. channels_bounded (sy_mgr y)" "\<lambda>_ y. channels_bounded (sy_mgr y)"
proof
  fix h :: "manager \<Rightarrow> manager" and y :: sys assume "hub_call h" and b: "channels_bounded (sy_mgr y)"
  then show "channels_bounded (sy_mgr (on_mgr h y))"
    by cases (auto simp: install_def Let_def channels_bounded_def updates.send_bound sinkq.send_bound close_def
        stream_send_def bounded_takes split: option.split)
qed (simp_all add: bounded_with_store)

interpretation live: shared_calls UNIV "\<lambda>y. sessions_ok (sy_mgr y)" "\<lambda>_ y. sessions_ok (sy_mgr y)"
proof
  fix h :: "manager \<Rightarrow> manager" and y :: sys assume "hub_call h" and ok: "sessions_ok (sy_mgr y)"
  then show "sessions_ok (sy_mgr (on_mgr h y))"
  proof cases
    case (3 se nid)
    have "mg_sessions (install nid se (sy_mgr y)) = AList.update (se_NodeID se) se (mg_sessions (sy_mgr y))"
      by (simp add: install_def Let_def close_def 3 split: option.split)
    with ok have "sessions_ok (install nid se (sy_mgr y))" by (rule sessions_ok_update)
    then show ?thesis by (simp add: 3)
  next
    case (4 nid)
    then show ?thesis by (simp add: sessions_ok_delete [OF ok])
  qed (simp_all add: ok sessions_ok_cong [of _ "sy_mgr y"] close_def stream_send_def split: option.split)
qed (simp_all add: sessions_ok_def)

end
