(* ===== verification/Master_Props.thy ===== *)
theory Master_Props
  imports Gpu_Pool Examples
begin

text \<open>
  The properties of the running master: what holds in every reachable state, what a connection, a
  message and a disconnection do.
\<close>

section \<open>Reachable states\<close>

lemma ex_step: "master_step\<^sup>*\<^sup>* ex_sys (fst (deleteContainer ''c1'' ex_sys))"
  by (rule r_into_rtranclp) (rule master_step.deleted)

text \<open>Every reachable state of the master satisfies the constraints of the schema: node,
  container and machine ids are unique, a container's node exists, a GPU has one holder, which is an
  existing container, and a port has one owner. This is whatever the agents send, in whatever order
  the requests come, and whichever statements of the database fail.\<close>

lemma store_integrity_reachable:
  assumes "master_step\<^sup>*\<^sup>* y y'" and "integrity (sy_store y)"
  shows "integrity (sy_store y')"
  using assms by (rule consistent.kept.reachable)

lemma store_integrity_reachable_witness: "integrity (sy_store (fst (deleteContainer ''c1'' ex_sys)))"
  using store_integrity_reachable [OF ex_step] by (simp add: ex_integrity)

text \<open>The two queues of the master stay within their capacities, 256 updates and 1024 metrics,
  in every reachable state.\<close>

lemma channels_bounded_reachable:
  assumes "master_step\<^sup>*\<^sup>* y y'" and "channels_bounded (sy_mgr y)"
  shows "length (mg_updates (sy_mgr y')) \<le> 256 \<and> length (mg_sinkCh (sy_mgr y')) \<le> 1024"
  using bounded.reachable [OF assms] by (simp add: channels_bounded_def updates_cap_def sink_cap_def)

lemma ex_bounded: "channels_bounded (sy_mgr ex_sys)"
  by (simp add: channels_bounded_def ex_mgr_def NewManager_def)

lemma channels_bounded_reachable_witness:
  "length (mg_updates (sy_mgr (fst (deleteContainer ''c1'' ex_sys)))) \<le> 256"
  using channels_bounded_reachable [OF ex_step ex_bounded] by simp

text \<open>In every reachable state a node has at most one session, filed under its own id, whatever
  reconnections and disconnections happened.\<close>

lemma one_session_per_node:
  assumes "master_step\<^sup>*\<^sup>* y y'" and "sessions_ok (sy_mgr y)"
  shows "distinct (Online (sy_mgr y')) \<and> (\<forall>nid se. Get nid (sy_mgr y') = Some se \<longrightarrow> se_NodeID se = nid)"
  using sessions.reachable [OF assms] by (simp add: sessions_ok_map Online_def Get_def)

lemma one_session_per_node_witness:
  "distinct (Online (sy_mgr (fst (deleteContainer ''c1'' ex_sys))))"
proof -
  have "sessions_ok (sy_mgr ex_sys)"
    by (simp add: sessions_ok_def ex_mgr_def NewManager_def ex_session_def newSession_def)
  from one_session_per_node [OF ex_step this] show ?thesis by simp
qed

text \<open>A burst of metrics or updates on a full queue loses the newest entries: the queue keeps
  what it held and takes the first of the burst, up to its capacity.\<close>

lemma burst_drops_newest:
  assumes "channels_bounded m"
  shows "mg_sinkCh (fold enqueueMetric xs m) = mg_sinkCh m @ take (1024 - length (mg_sinkCh m)) xs \<and>
    mg_updates (fold publish us m) = mg_updates m @ take (256 - length (mg_updates m)) us"
  using assms sinkq.sends [of m xs] updates.sends [of m us]
  by (simp add: channels_bounded_def updates_cap_def sink_cap_def)

lemma burst_drops_newest_witness:
  "mg_updates (fold publish (replicate 300 (notice ''n1'' ''state'' 1)) ex_mgr) =
     replicate 256 (notice ''n1'' ''state'' 1)"
proof -
  have "mg_updates ex_mgr = []" by (simp add: ex_mgr_def NewManager_def)
  moreover have "channels_bounded ex_mgr" using ex_bounded by simp
  moreover have "take 256 (replicate 300 x) = replicate 256 x" for x :: node_update
    by (simp only: take_replicate) simp
  ultimately show ?thesis
    using burst_drops_newest [of ex_mgr "[]" "replicate 300 (notice ''n1'' ''state'' 1)"] by simp
qed

section \<open>Connections\<close>

text \<open>A successful connection makes the new stream the session of exactly the node it registered
  as: the other sessions stay, a former session of the node is closed, and the agent is sent its node
  id, acceptance and the five-second metrics interval. When nothing runs in between, that is all it
  is sent.\<close>

lemma connect_installs_session:
  assumes "OnAgentConnect now rnd peer st first m = (m', Inr (sess, nid))"
  shows "Get nid m' = Some sess \<and> se_NodeID sess = nid \<and> se_stream sess = st \<and>
    (\<forall>k. k \<noteq> nid \<longrightarrow> Get k m' = Get k m) \<and>
    (\<forall>old. Get nid m = Some old \<longrightarrow> se_stream old \<in> set (mg_closed m')) \<and>
    mg_sent m' = mg_sent m @ [(st, MasterRegisterResp \<lparr>rs_node_id = nid, rs_ok = True, rs_error = [],
      rs_metrics_interval_sec = 5\<rparr>)]"
proof (rule OnAgentConnect_Inr [OF assms])
  fix reg
  assume s: "sess = newSession nid (rr_name reg) st (remoteHostFromContext peer)"
    and m: "mg_sessions m' = AList.update nid sess (mg_sessions m)"
    and "mg_sent m' = mg_sent m @ [(st, MasterRegisterResp \<lparr>rs_node_id = nid, rs_ok = True, rs_error = [],
        rs_metrics_interval_sec = 5\<rparr>)]"
    and "\<And>old. map_of (mg_sessions m) nid = Some old \<Longrightarrow> se_stream old \<in> set (mg_closed m')"
  then show ?thesis by (simp add: Get_def m update_conv' s newSession_def)
qed

definition ex_register :: register_request where
  "ex_register = \<lparr>rr_name = ''alpha'', rr_hostname = ''h'', rr_os = ''linux'', rr_arch = ''amd64'',
     rr_agent_version = ''1'', rr_machine_id = ''m1''\<rparr>"

lemma ex_n1: "ex_node \<in> set (st_nodes ex_store)" "n_ID ex_node = ''n1''" "n_MachineID ex_node = ''m1''"
  by (simp_all add: ex_defs)

lemma ex_resolve: "\<exists>s. resolveNodeID 20 rnd ex_register ex_mgr = (ex_mgr\<lparr>mg_store := s\<rparr>, Inr ''n1'') \<and> st_faults s = []"
proof -
  have "resolveNodeID 20 rnd ex_register ex_mgr = (ex_mgr\<lparr>mg_store := (mg_store ex_mgr)\<lparr>st_nodes :=
      map (\<lambda>r. if n_ID r = n_ID ex_node then refreshed 20 ex_register r else r) (st_nodes (mg_store ex_mgr))\<rparr>\<rparr>,
      Inr (n_ID ex_node))"
  proof (rule resolveNodeID_known)
    show "\<not> is_zero (n_RegisteredAt ex_node)" by (simp add: ex_node_def is_zero_def zero_time_def)
  qed (simp_all add: ex_healthy ex_n1 ex_register_def)
  moreover have "st_faults (mg_store ex_mgr) = []" by (simp add: ex_store_def)
  ultimately show ?thesis unfolding ex_n1 by (intro exI conjI) (assumption, simp)
qed

lemma ex_reconnect:
  "\<exists>m sess. OnAgentConnect 20 rnd None 8 (Inr (AgentRegister ex_register)) ex_mgr = (m, Inr (sess, ''n1''))"
proof -
  obtain s where "resolveNodeID 20 rnd ex_register ex_mgr = (ex_mgr\<lparr>mg_store := s\<rparr>, Inr ''n1'')"
    and "st_faults s = []" using ex_resolve by blast
  then show ?thesis
    by (simp add: OnAgentConnect_def Let_def on_store_def no_fault_updates stream_send_def close_def
        ex_mgr_def NewManager_def)
qed

lemma connect_installs_session_witness:
  "\<exists>m sess. OnAgentConnect 20 (Inr []) None 8 (Inr (AgentRegister ex_register)) ex_mgr =
     (m, Inr (sess, ''n1'')) \<and> Get ''n1'' m = Some sess \<and> se_stream sess = 8 \<and> 7 \<in> set (mg_closed m)"
proof -
  obtain m sess where c: "OnAgentConnect 20 (Inr []) None 8 (Inr (AgentRegister ex_register)) ex_mgr =
    (m, Inr (sess, ''n1''))" using ex_reconnect by blast
  from connect_installs_session [OF c] c show ?thesis
    by (simp add: ex_session_def newSession_def)
qed


lemma healthy_map_nodes:
  assumes "healthy s" and "\<And>r. n_ID (f r) = n_ID r" "\<And>r. n_MachineID (f r) = n_MachineID r"
    and "\<And>r. scanNode r = Inr r \<Longrightarrow> scanNode (f r) = Inr (f r)"
  shows "healthy (s\<lparr>st_nodes := map (\<lambda>r. if p r then f r else r) (st_nodes s)\<rparr>)"
  using assms integrity_map_nodes [of s f p] by (auto simp: healthy_def scannable_def)

lemma healthy_add_node:
  assumes "healthy s" and "n_MachineID n \<notin> n_MachineID ` set (st_nodes s)"
    and "n_ID n \<notin> n_ID ` set (st_nodes s)" and "scanNode n = Inr n"
  shows "healthy (s\<lparr>st_nodes := st_nodes s @ [n]\<rparr>)"
proof -
  have "\<not> node_taken n (st_nodes s)" using assms(2) by (metis node_taken_def image_eqI)
  with assms integrity_insert_node [of s n n] show ?thesis by (auto simp: healthy_def scannable_def)
qed

text \<open>C27. A machine keeps its node. Registering a machine that has a row gives it the id of that row, and
  the ids of all rows stay as they are; registering one that has none gives it the random id, which
  is no other node's, and adds one row that carries that id and the machine. Registering it again, with any
  other name, clock or random bytes, gives the same id and adds no row.\<close>

theorem machine_keeps_node_id:
  assumes h: "healthy (mg_store m)" and r: "\<forall>n \<in> set (st_nodes (mg_store m)). \<not> is_zero (n_RegisteredAt n)"
    and mid: "rr_machine_id reg \<noteq> []" "rr_machine_id reg' = rr_machine_id reg"
    and b: "hex_encode b \<notin> set (node_ids (mg_store m))" and now: "\<not> is_zero now"
  shows "\<exists>m1 m2 nid. resolveNodeID now (Inr b) reg m = (m1, Inr nid) \<and>
    resolveNodeID now' rnd reg' m1 = (m2, Inr nid) \<and>
    length (st_nodes (mg_store m2)) = length (st_nodes (mg_store m1)) \<and>
    (\<forall>n \<in> set (st_nodes (mg_store m)). n_MachineID n = rr_machine_id reg \<longrightarrow> nid = n_ID n) \<and>
    (if \<exists>n \<in> set (st_nodes (mg_store m)). n_MachineID n = rr_machine_id reg
     then map n_ID (st_nodes (mg_store m1)) = map n_ID (st_nodes (mg_store m))
     else nid = hex_encode b \<and> nid \<notin> n_ID ` set (st_nodes (mg_store m)) \<and>
       (\<exists>n. st_nodes (mg_store m1) = st_nodes (mg_store m) @ [n] \<and> n_ID n = nid \<and>
         n_MachineID n = rr_machine_id reg \<and> n_Name n = rr_name reg))"
proof -
  have again: "\<exists>m2. resolveNodeID now' rnd reg' m1 = (m2, Inr (n_ID n)) \<and>
      length (st_nodes (mg_store m2)) = length (st_nodes (mg_store m1))"
    if "healthy (mg_store m1)" "n \<in> set (st_nodes (mg_store m1))" "n_MachineID n = rr_machine_id reg"
      "\<not> is_zero (n_RegisteredAt n)" for m1 n
    using resolveNodeID_known [OF that(1,2)] that(3,4) mid by simp
  show ?thesis
  proof (cases "\<exists>n \<in> set (st_nodes (mg_store m)). n_MachineID n = rr_machine_id reg")
    case True
    then obtain n where n: "n \<in> set (st_nodes (mg_store m))" "n_MachineID n = rr_machine_id reg" by blast
    define s1 where "s1 = (mg_store m)\<lparr>st_nodes := map (\<lambda>r. if n_ID r = n_ID n then refreshed now reg r else r)
      (st_nodes (mg_store m))\<rparr>"
    have 1: "resolveNodeID now (Inr b) reg m = (m\<lparr>mg_store := s1\<rparr>, Inr (n_ID n))"
      unfolding s1_def using resolveNodeID_known [OF h n(1)] n(2) mid(1) r n(1) by simp
    have "healthy s1" unfolding s1_def
      by (rule healthy_map_nodes [OF h]) (simp_all add: refreshed_def scanNode_def split: if_splits)
    moreover have "refreshed now reg n \<in> set (st_nodes s1)" using n(1) by (auto simp: s1_def)
    ultimately obtain m2 where 2: "resolveNodeID now' rnd reg' (m\<lparr>mg_store := s1\<rparr>) = (m2, Inr (n_ID n))"
      "length (st_nodes (mg_store m2)) = length (st_nodes s1)"
      using again [of "m\<lparr>mg_store := s1\<rparr>" "refreshed now reg n"] n r by (auto simp: refreshed_def)
    have "n_ID k = n_ID n" if "k \<in> set (st_nodes (mg_store m))" "n_MachineID k = rr_machine_id reg" for k
    proof -
      have "distinct (map n_MachineID [r \<leftarrow> st_nodes (mg_store m). n_MachineID r \<noteq> []])"
        using healthyD(2) [OF h] by (simp add: integrity_defs filter_map comp_def)
      then have "inj_on n_MachineID {x \<in> set (st_nodes (mg_store m)). n_MachineID x \<noteq> []}"
        by (simp add: distinct_map)
      from inj_onD [OF this] that n mid(1) have "k = n" by simp
      then show ?thesis by simp
    qed
    moreover have "map n_ID (st_nodes s1) = map n_ID (st_nodes (mg_store m))"
      by (auto simp: s1_def refreshed_def)
    ultimately show ?thesis using 1 2 True
      by (intro exI [of _ "m\<lparr>mg_store := s1\<rparr>"] exI [of _ m2] exI [of _ "n_ID n"]) auto
  next
    case False
    define s1 where "s1 = (mg_store m)\<lparr>st_nodes := st_nodes (mg_store m) @ [new_node now (hex_encode b) reg]\<rparr>"
    have 1: "resolveNodeID now (Inr b) reg m = (m\<lparr>mg_store := s1\<rparr>, Inr (hex_encode b))"
      unfolding s1_def
      by (rule resolveNodeID_new [OF h _ mid(1) b now]) (use False in \<open>metis imageE\<close>)
    have "healthy s1" unfolding s1_def
      by (rule healthy_add_node [OF h])
        (use False b in \<open>auto simp: new_node_def zero_node_def scanNode_def node_ids_def\<close>)
    moreover have "new_node now (hex_encode b) reg \<in> set (st_nodes s1)" by (simp add: s1_def)
    ultimately obtain m2 where 2: "resolveNodeID now' rnd reg' (m\<lparr>mg_store := s1\<rparr>) = (m2, Inr (hex_encode b))"
      "length (st_nodes (mg_store m2)) = length (st_nodes s1)"
      using again [of "m\<lparr>mg_store := s1\<rparr>" "new_node now (hex_encode b) reg"] now by (auto simp: new_node_def)
    moreover have "hex_encode b \<notin> n_ID ` set (st_nodes (mg_store m))" using b by (simp add: node_ids_def)
    moreover have "n_ID (new_node now (hex_encode b) reg) = hex_encode b" "n_Name (new_node now (hex_encode b) reg) = rr_name reg"
      "n_MachineID (new_node now (hex_encode b) reg) = rr_machine_id reg" by (simp_all add: new_node_def)
    ultimately show ?thesis using 1 False
      by (intro exI [of _ "m\<lparr>mg_store := s1\<rparr>"] exI [of _ m2] exI [of _ "hex_encode b"]) (auto simp: s1_def)
  qed
qed

lemma machine_keeps_node_id_witness:
  "\<exists>m1 m2. resolveNodeID 20 (Inr [171]) ex_register ex_mgr = (m1, Inr ''n1'') \<and>
     resolveNodeID 30 (Inr [205]) (ex_register\<lparr>rr_name := ''beta''\<rparr>) m1 = (m2, Inr ''n1'')"
proof -
  have "\<not> is_zero (20 :: gotime)" "\<not> is_zero (5 :: gotime)" by (simp_all add: is_zero_def zero_time_def)
  moreover have "hex_encode [171] \<notin> set (node_ids ex_store)"
    by (simp add: hex_encode_def hex_digits_def node_ids_def ex_defs)
  ultimately obtain m1 m2 nid where "resolveNodeID 20 (Inr [171]) ex_register ex_mgr = (m1, Inr nid)"
      "resolveNodeID 30 (Inr [205]) (ex_register\<lparr>rr_name := ''beta''\<rparr>) m1 = (m2, Inr nid)" "nid = ''n1''"
    using machine_keeps_node_id [of ex_mgr ex_register "ex_register\<lparr>rr_name := ''beta''\<rparr>" "[171]" 20 30 "Inr [205]"]
      ex_healthy by (auto simp: ex_register_def ex_defs)
  then show ?thesis by blast
qed

end
