(* ===== verification/Message_Props.thy ===== *)
theory Message_Props
  imports Master_Props
begin

text \<open>
  What the messages of an agent and the end of its stream do to the containers, the GPU
  reservations and the node of the agent.
\<close>

section \<open>Disconnection\<close>

text \<open>C15. When the stream of a node ends, its session is gone and the node is offline; exactly its
  containers that were starting or stopping go to the state error with the reason and give back
  their GPUs; every other container keeps its row and its GPUs, every other node its row and its
  session.\<close>

theorem disconnect_reverts_transient:
  fixes m now nid e
  defines "m' \<equiv> handleDisconnect now nid e m"
  assumes "healthy (mg_store m)"
  shows "Get nid m' = None \<and> (\<forall>k. k \<noteq> nid \<longrightarrow> Get k m' = Get k m) \<and>
    (\<forall>n. node_row (mg_store m') n = map_option (\<lambda>r. if n = nid
      then r\<lparr>n_State := ''offline'', n_LastHeartbeat := now\<rparr> else r) (node_row (mg_store m) n)) \<and>
    (\<forall>cid. row (mg_store m') cid = map_option (\<lambda>r. if transient nid r
      then set_state now (c_DockerID r) ''error'' (''agent disconnected: '' @ err_Error e) r else r)
      (row (mg_store m) cid)) \<and>
    (\<forall>k. holder (mg_store m') k = (case holder (mg_store m) k of None \<Rightarrow> None
      | Some c \<Rightarrow> if \<exists>r. row (mg_store m) c = Some r \<and> transient nid r then None else Some c))"
  using handleDisconnect_store [OF assms(2)] handleDisconnect_sessions(1) [of now nid e m]
  unfolding m'_def by (simp add: Get_def delete_conv')

lemma disconnect_reverts_transient_witness:
  "Get ''n1'' (handleDisconnect 20 ''n1'' ErrNoRows ex_mgr) = None \<and>
   holder (mg_store (handleDisconnect 20 ''n1'' ErrNoRows ex_mgr)) (''n1'', 0) = Some ''c1''"
proof -
  have "holder ex_store (''n1'', 0) = Some ''c1''" by (simp add: holder_def ex_defs)
  moreover have "row ex_store ''c1'' = Some ex_container" by (simp add: row_def ex_defs)
  moreover have "\<not> transient ''n1'' ex_container" by (simp add: transient_def ex_container_def)
  ultimately show ?thesis
    using disconnect_reverts_transient [where m = ex_mgr and now = 20 and nid = "''n1''" and e = ErrNoRows] by (simp add: ex_healthy)
qed

lemma revert_loop_broken [simp]: "mg_broken (revert_loop now nid status cs m) = mg_broken m"
  by (induction cs arbitrary: m) (auto simp: on_store_fields)

lemma handleDisconnect_broken [simp]: "mg_broken (handleDisconnect now nid e m) = mg_broken m"
  by (auto simp: handleDisconnect_def revertTransientOnDisconnect_def Let_def
      split: prod.split sum.split option.split dest!: on_store_eq)

text \<open>A machine that is known connects on a stream that works.\<close>

lemma known_connects:
  fixes m n reg stream peer now rnd
  assumes h: "healthy (mg_store m)" and n: "n \<in> set (st_nodes (mg_store m))" "n_MachineID n = rr_machine_id reg"
    "rr_machine_id reg \<noteq> []" "\<not> is_zero (n_RegisteredAt n)" and b: "map_of (mg_broken m) stream = None"
  defines "sess \<equiv> newSession (n_ID n) (rr_name reg) stream (remoteHostFromContext peer)"
  obtains m1 n1 where "OnAgentConnect now rnd peer stream (Inr (AgentRegister reg)) m = (m1, Inr (sess, n_ID n))"
    "healthy (mg_store m1)" "mg_broken m1 = mg_broken m" "mg_sessions m1 = AList.update (n_ID n) sess (mg_sessions m)"
    "n1 \<in> set (st_nodes (mg_store m1))" "n_ID n1 = n_ID n" "n_MachineID n1 = n_MachineID n"
    "\<not> is_zero (n_RegisteredAt n1)" "n_State n1 = ''online''"
    "st_containers (mg_store m1) = st_containers (mg_store m)" "st_gpus (mg_store m1) = st_gpus (mg_store m)"
proof -
  let ?s = "mg_store m"
  define s1 where "s1 = ?s\<lparr>st_nodes := map (\<lambda>r. if n_ID r = n_ID n then refreshed now reg r else r) (st_nodes ?s)\<rparr>"
  have r: "resolveNodeID now rnd reg m = (m\<lparr>mg_store := s1\<rparr>, Inr (n_ID n))"
    unfolding s1_def by (rule resolveNodeID_known [OF h n])
  have h1: "healthy s1" unfolding s1_def
    by (rule healthy_map_nodes [OF h]) (simp_all add: refreshed_def scanNode_def split: if_splits)
  have f1: "st_faults s1 = []" using h1 by (rule healthyD)
  define s2 where "s2 = set_node_state now (n_ID n) ''online'' s1"
  define m1 where "m1 = fst (OnAgentConnect now rnd peer stream (Inr (AgentRegister reg)) m)"
  have "OnAgentConnect now rnd peer stream (Inr (AgentRegister reg)) m = (m1, Inr (sess, n_ID n)) \<and> mg_store m1 = s2 \<and>
      mg_broken m1 = mg_broken m \<and> mg_sessions m1 = AList.update (n_ID n) sess (mg_sessions m)"
    using no_fault_updates [OF f1] b
    by (simp add: m1_def OnAgentConnect_def r Let_def on_store_def stream_send_def close_def sess_def s2_def split: option.split)
  moreover have "healthy s2" unfolding s2_def by (rule healthy_set_node_state [OF h1])
  moreover have "(refreshed now reg n)\<lparr>n_State := ''online'', n_LastHeartbeat := now\<rparr> \<in> set (st_nodes s2)"
    using n(1) by (force simp: s2_def s1_def set_node_state_def refreshed_def)
  moreover have "st_containers s2 = st_containers ?s" "st_gpus s2 = st_gpus ?s"
    by (simp_all add: s2_def s1_def set_node_state_def)
  ultimately show thesis
    by (intro that [of m1 "(refreshed now reg n)\<lparr>n_State := ''online'', n_LastHeartbeat := now\<rparr>"])
      (use n in \<open>simp_all add: refreshed_def\<close>)
qed

lemma ex_reconnected:
  "\<exists>m sess. OnAgentConnect 20 rnd None 8 (Inr (AgentRegister ex_register)) ex_mgr = (m, Inr (sess, ''n1'')) \<and>
     healthy (mg_store m) \<and> st_containers (mg_store m) = st_containers ex_store \<and>
     st_gpus (mg_store m) = st_gpus ex_store \<and> mg_broken m = []"
proof -
  have "healthy (mg_store ex_mgr)" "ex_node \<in> set (st_nodes (mg_store ex_mgr))" "n_MachineID ex_node = rr_machine_id ex_register"
    "rr_machine_id ex_register \<noteq> []" "\<not> is_zero (n_RegisteredAt ex_node)" "map_of (mg_broken ex_mgr) 8 = None"
    by (simp_all add: ex_healthy ex_n1 ex_register_def) (simp add: ex_node_def is_zero_def zero_time_def)
  from known_connects [OF this, where now = 20 and rnd = rnd and peer = None] show ?thesis by (metis ex_mgr_fields(2) ex_mgr_store(1) ex_n1(2))
qed

section \<open>Acknowledgements and events\<close>

lemma command_ack_facts:
  fixes c now
  defines "new \<equiv> set_state now (ca_docker_id c) (if ca_error c = [] then ''running'' else ''error'')
    (if ca_error c = [] then ''running'' else ca_error c)"
  assumes f: "st_faults (mg_store m) = []" and i: "integrity (mg_store m)"
    and "msg = AgentContainerCreated c \<or> msg = AgentContainerStarted c"
  shows "row (mg_store (handleIncoming now s msg m)) cid =
      map_option (\<lambda>r. if cid = ca_container_id c then new r else r) (row (mg_store m) cid)"
    and "holder (mg_store (handleIncoming now s msg m)) = (\<lambda>k. if ca_error c \<noteq> [] \<and>
      holder (mg_store m) k = Some (ca_container_id c) then None else holder (mg_store m) k)"
proof -
  have e: "mg_store (handleIncoming now s msg m) = ack_store now c ''running''
      (if ca_error c = [] then mg_store m else free_gpus (ca_container_id c) (mg_store m))"
    using assms(4) no_fault_acks(1,2) [OF f] by blast
  show "row (mg_store (handleIncoming now s msg m)) cid =
      map_option (\<lambda>r. if cid = ca_container_id c then new r else r) (row (mg_store m) cid)"
    unfolding new_def e by (simp add: ack_store_def ack_state_def ack_status_def row_update)
  show "holder (mg_store (handleIncoming now s msg m)) = (\<lambda>k. if ca_error c \<noteq> [] \<and>
      holder (mg_store m) k = Some (ca_container_id c) then None else holder (mg_store m) k)"
    unfolding e by (simp add: ack_store_def holder_free_gpus [OF i])
qed

text \<open>C16. The answer to a create or a start command: on success the container is running under the
  reported Docker id; on failure it is in the state error with the agent's text, and none of its GPUs
  is reserved any more. Other containers keep their rows and their GPUs.\<close>

theorem command_ack_applied:
  fixes c now
  defines "new \<equiv> set_state now (ca_docker_id c) (if ca_error c = [] then ''running'' else ''error'')
    (if ca_error c = [] then ''running'' else ca_error c)"
  assumes "healthy (mg_store m)"
    and "msg = AgentContainerCreated c \<or> msg = AgentContainerStarted c"
  shows "row (mg_store (handleIncoming now s msg m)) cid =
      map_option (\<lambda>r. if cid = ca_container_id c then new r else r) (row (mg_store m) cid) \<and>
    holder (mg_store (handleIncoming now s msg m)) = (\<lambda>k. if ca_error c \<noteq> [] \<and>
      holder (mg_store m) k = Some (ca_container_id c) then None else holder (mg_store m) k)"
  unfolding new_def using command_ack_facts [OF healthyD(1,2) [OF assms(2)] assms(3)] by blast

lemma command_ack_applied_witness:
  "holder (mg_store (handleIncoming 20 ex_session (AgentContainerStarted
     \<lparr>ca_container_id = ''c1'', ca_docker_id = ''d1'', ca_error = ''no such device''\<rparr>) ex_mgr)) (''n1'', 0) = None"
proof -
  have "holder ex_store (''n1'', 0) = Some ''c1''" by (simp add: holder_def ex_defs)
  moreover have "healthy (mg_store ex_mgr)" by (simp add: ex_healthy)
  ultimately show ?thesis
    by (subst command_ack_applied [THEN conjunct2]) (assumption | rule disjI2, rule refl | simp)+
qed

lemma event_store_again:
  "event_store now' c (event_store now c s) = update_container (sc_container_id c) (\<lambda>r. r\<lparr>c_UpdatedAt := now'\<rparr>) (event_store now c s)"
proof -
  let ?u = "\<lambda>t. update_container (sc_container_id c) (set_state t (sc_docker_id c) (sc_state c) (sc_status c))"
  have "?u now' (?u now t) = update_container (sc_container_id c) (\<lambda>r. r\<lparr>c_UpdatedAt := now'\<rparr>) (?u now t)" for t
    by (auto simp: update_container_def set_state_def)
  moreover have "free_gpus d (update_container d' f t) = update_container d' f (free_gpus d t)" for d d' f t
    by (simp add: free_gpus_def update_container_def)
  moreover have "free_gpus d (free_gpus d t) = free_gpus d t" for d t by (simp add: free_gpus_def)
  ultimately show ?thesis by (simp add: event_store_def Let_def)
qed

text \<open>C17. A state event is applied to a container the master knows, and to nothing else: a report
  about an unknown container, or without id or state, leaves every table alone; a known one takes the
  reported state and gives its GPUs back exactly for the terminal actions, and no other table changes.
  Handling the same report again, at whatever time, changes nothing but the time of the row's update.\<close>

theorem state_event_applied:
  fixes m c s now
  assumes "healthy (mg_store m)"
  defines "m' \<equiv> handleIncoming now s (AgentContainerStateChanged c) m"
  shows "if sc_container_id c \<noteq> [] \<and> sc_state c \<noteq> [] \<and> row (mg_store m) (sc_container_id c) \<noteq> None
    then row (mg_store m') (sc_container_id c) =
        map_option (set_state now (sc_docker_id c) (sc_state c) (sc_status c)) (row (mg_store m) (sc_container_id c)) \<and>
      (\<forall>d. d \<noteq> sc_container_id c \<longrightarrow> row (mg_store m') d = row (mg_store m) d) \<and>
      holder (mg_store m') = (\<lambda>k. if sc_action c \<in> {''die'', ''stop'', ''kill'', ''destroy''} \<and>
        holder (mg_store m) k = Some (sc_container_id c) then None else holder (mg_store m) k) \<and>
      st_nodes (mg_store m') = st_nodes (mg_store m) \<and> st_ports (mg_store m') = st_ports (mg_store m) \<and>
      mg_store (handleIncoming now' s' (AgentContainerStateChanged c) m') = (mg_store m')\<lparr>st_containers :=
        map (\<lambda>r. if c_ID r = sc_container_id c then r\<lparr>c_UpdatedAt := now'\<rparr> else r) (st_containers (mg_store m'))\<rparr>
    else mg_store m' = mg_store m"
proof (cases "sc_container_id c \<noteq> [] \<and> sc_state c \<noteq> [] \<and> row (mg_store m) (sc_container_id c) \<noteq> None")
  case True
  have f: "st_faults (mg_store m) = []" and i: "integrity (mg_store m)" using assms(1) by (auto dest: healthyD)
  have known: "sc_container_id c \<in> c_ID ` set (st_containers (mg_store m))"
    using True by (simp add: row_None_iff)
  have e: "mg_store m' = event_store now c (mg_store m)"
    unfolding m'_def no_fault_event [OF f] using True known by simp
  have row: "row (mg_store m') d = map_option (\<lambda>r. if d = sc_container_id c
      then set_state now (sc_docker_id c) (sc_state c) (sc_status c) r else r) (row (mg_store m) d)" for d
    by (simp add: e event_store_def Let_def row_update)
  then have known': "sc_container_id c \<in> c_ID ` set (st_containers (mg_store m'))"
    using True row_None_iff [of "mg_store m'" "sc_container_id c"] by auto
  have "st_faults (mg_store m') = []" using f by (simp add: e event_store_def Let_def)
  then have "mg_store (handleIncoming now' s' (AgentContainerStateChanged c) m') = event_store now' c (mg_store m')"
    unfolding no_fault_event [OF \<open>st_faults (mg_store m') = []\<close>] using True known' by simp
  then have "mg_store (handleIncoming now' s' (AgentContainerStateChanged c) m') = (mg_store m')\<lparr>st_containers :=
      map (\<lambda>r. if c_ID r = sc_container_id c then r\<lparr>c_UpdatedAt := now'\<rparr> else r) (st_containers (mg_store m'))\<rparr>"
    unfolding e event_store_again by (simp add: update_container_def)
  moreover have "holder (mg_store m') = (\<lambda>k. if sc_action c \<in> {''die'', ''stop'', ''kill'', ''destroy''} \<and>
      holder (mg_store m) k = Some (sc_container_id c) then None else holder (mg_store m) k)"
    by (simp add: e event_store_def Let_def isTerminalGPUAction_def update_free_commute [symmetric] holder_free_gpus [OF i])
  moreover have "st_nodes (mg_store m') = st_nodes (mg_store m)" "st_ports (mg_store m') = st_ports (mg_store m)"
    by (simp_all add: e event_store_def Let_def free_gpus_def)
  moreover note row
  ultimately show ?thesis using True by (simp add: option.map_ident)
next
  case False
  have f: "st_faults (mg_store m) = []" using assms(1) by (rule healthyD)
  from False show ?thesis
    unfolding m'_def no_fault_event [OF f] by (auto simp: row_None_iff)
qed

lemma state_event_applied_witness:
  "mg_store (handleIncoming 20 ex_session (AgentContainerStateChanged
     \<lparr>sc_container_id = ''c9'', sc_docker_id = ''d9'', sc_action = ''die'', sc_state = ''exited'',
      sc_status = ''exited'', sc_ts_unix_ms = 0\<rparr>) ex_mgr) = ex_store \<and>
   holder (mg_store (handleIncoming 20 ex_session (AgentContainerStateChanged
     \<lparr>sc_container_id = ''c1'', sc_docker_id = ''d1'', sc_action = ''die'', sc_state = ''exited'',
      sc_status = ''exited'', sc_ts_unix_ms = 0\<rparr>) ex_mgr)) (''n1'', 0) = None"
proof -
  have "row ex_store ''c9'' = None" "row ex_store ''c1'' \<noteq> None" "holder ex_store (''n1'', 0) = Some ''c1''"
    by (simp_all add: row_def holder_def ex_defs)
  then show ?thesis
    using state_event_applied [where m = ex_mgr and s = ex_session and now = 20 and c = "\<lparr>sc_container_id = ''c9'', sc_docker_id = ''d9'',
      sc_action = ''die'', sc_state = ''exited'', sc_status = ''exited'', sc_ts_unix_ms = 0\<rparr>"]
      state_event_applied [where m = ex_mgr and s = ex_session and now = 20 and c = "\<lparr>sc_container_id = ''c1'', sc_docker_id = ''d1'',
      sc_action = ''die'', sc_state = ''exited'', sc_status = ''exited'', sc_ts_unix_ms = 0\<rparr>"]
    by (simp add: ex_healthy del: handleIncoming.simps)
qed

section \<open>Metrics\<close>

text \<open>C28. With room in the queues, a report updates exactly the row of the session's node, is
  published with its snapshot to the web sockets, and is queued for the sink, and all three have the
  figures the agent sent: processor load and cores, used and total memory, load average, the number of
  GPUs with their memory and mean load, zero where the report has no such part. The sink also gets every
  GPU, and every disk, although the disks went through their JSON text on the way, under the agent's
  time, or the master's when the agent's clock gives none.\<close>

theorem metrics_report_applied:
  fixes m r s now
  defines "m' \<equiv> handleMetrics now s r m"
    and "figures \<equiv> \<lambda>n. n\<lparr>
      n_CPUPercent := (case mr_cpu r of None \<Rightarrow> Fin 0 | Some c \<Rightarrow> cs_usage_percent c),
      n_CPUCores := (case mr_cpu r of None \<Rightarrow> 0 | Some c \<Rightarrow> cs_cores c),
      n_MemUsedBytes := (case mr_memory r of None \<Rightarrow> 0 | Some c \<Rightarrow> ms_used_bytes c),
      n_MemTotalBytes := (case mr_memory r of None \<Rightarrow> 0 | Some c \<Rightarrow> ms_total_bytes c),
      n_DiskJSON := (if mr_disks r = [] then [] else jsonMarshalDisks (mr_disks r)),
      n_GPUJSON := (case mr_gpu r of None \<Rightarrow> [] | Some g \<Rightarrow> jsonMarshalGpu g),
      n_Load1 := (case mr_load r of None \<Rightarrow> Fin 0 | Some c \<Rightarrow> la_load1 c),
      n_GpuCount := (case mr_gpu r of None \<Rightarrow> 0 | Some g \<Rightarrow> gs_count g),
      n_GpuMemUsed := (case mr_gpu r of None \<Rightarrow> 0 | Some g \<Rightarrow> gs_mem_used_bytes g),
      n_GpuMemTotal := (case mr_gpu r of None \<Rightarrow> 0 | Some g \<Rightarrow> gs_mem_total_bytes g),
      n_GpuUsageAvg := (case mr_gpu r of None \<Rightarrow> Fin 0 | Some g \<Rightarrow> gs_usage_percent g)\<rparr>"
  assumes f: "st_faults (mg_store m) = []"
    and e: "\<forall>c. mr_memory r = Some c \<longrightarrow> \<not> high_bit (ms_used_bytes c) \<and> \<not> high_bit (ms_total_bytes c)"
      "\<forall>g. mr_gpu r = Some g \<longrightarrow> \<not> high_bit (gs_mem_used_bytes g) \<and> \<not> high_bit (gs_mem_total_bytes g)"
    and room: "length (mg_updates m) < 256" "length (mg_sinkCh m) < 1024"
    and d: "\<forall>d \<in> set (mr_disks r). ftoa (ds_usage_percent d) \<noteq> None"
  shows "(\<forall>k. node_row (mg_store m') k = map_option (\<lambda>x. if k = se_NodeID s
        then (figures x)\<lparr>n_MetricsAt := now, n_LastHeartbeat := now\<rparr> else x) (node_row (mg_store m) k)) \<and>
    st_containers (mg_store m') = st_containers (mg_store m) \<and> st_gpus (mg_store m') = st_gpus (mg_store m) \<and>
    st_ports (mg_store m') = st_ports (mg_store m) \<and>
    mg_updates m' = mg_updates m @ [\<lparr>nu_NodeID = se_NodeID s, nu_Kind = ''metrics'', nu_At = now,
      nu_Snapshot = Some ((figures zero_node)\<lparr>n_ID := se_NodeID s\<rparr>)\<rparr>] \<and>
    mg_sinkCh m' = mg_sinkCh m @ [\<lparr>me_NodeID = se_NodeID s, me_NodeName = se_nodeName s,
      me_CPUPercent = n_CPUPercent (figures zero_node), me_CPUCores = n_CPUCores (figures zero_node),
      me_MemUsedBytes = n_MemUsedBytes (figures zero_node), me_MemTotalBytes = n_MemTotalBytes (figures zero_node),
      me_Load1 = n_Load1 (figures zero_node), me_GpuCount = n_GpuCount (figures zero_node),
      me_GpuUsageAvg = n_GpuUsageAvg (figures zero_node), me_GpuMemUsed = n_GpuMemUsed (figures zero_node),
      me_GpuMemTotal = n_GpuMemTotal (figures zero_node),
      me_GpuDevices = (case mr_gpu r of None \<Rightarrow> [] | Some g \<Rightarrow> map (\<lambda>d. \<lparr>gp_Index = gd_index d, gp_Name = gd_name d,
        gp_UUID = gd_uuid d, gp_UsagePercent = gd_usage_percent d, gp_MemUsedBytes = gd_mem_used_bytes d,
        gp_MemTotalBytes = gd_mem_total_bytes d\<rparr>) (gs_devices g)),
      me_Disks = map disk_sample_of (mr_disks r),
      me_TS = (if is_zero (sint (mr_ts_unix_ms r) * 1000000) then now else sint (mr_ts_unix_ms r) * 1000000)\<rparr>]"
proof -
  define n where "n = report_node (se_NodeID s) r"
  have n: "n = (figures zero_node)\<lparr>n_ID := se_NodeID s\<rparr>"
    by (simp add: n_def report_node_def figures_def Let_def zero_node_def split: option.split)
  have enc: "encodable n" using e by (simp add: n figures_def encodable_def high_bit_def split: option.split)
  have sr: "store_report now n x = (figures x)\<lparr>n_MetricsAt := now, n_LastHeartbeat := now\<rparr>" for x
    by (simp add: store_report_def n figures_def)
  have st: "mg_store m' = (mg_store m)\<lparr>st_nodes :=
      map (\<lambda>x. if n_ID x = se_NodeID s then store_report now n x else x) (st_nodes (mg_store m))\<rparr>"
    unfolding m'_def n_def by (rule handleMetrics_store [OF f]) (use enc in \<open>simp add: n_def\<close>)
  have u: "UpdateNodeMetrics now n (mg_store m) = (mg_store m', Inr ())"
    using f enc by (simp add: st UpdateNodeMetrics_def exec_no_faults encodable_def store_report_def n_def)
  define x where "x = metricFromReport now (se_NodeID s) (se_nodeName s) n (Some r) (UnixMilli (mr_ts_unix_ms r))"
  have m': "m' = enqueueMetric x (publish ((notice (se_NodeID s) ''metrics'' now)\<lparr>nu_Snapshot := Some n\<rparr>)
      (m\<lparr>mg_store := mg_store m'\<rparr>))"
    unfolding m'_def handleMetrics_def Let_def n_def [symmetric] x_def [symmetric] on_store_def
    using u by (simp add: m'_def)
  have "node_row (mg_store m') k = map_option (\<lambda>x. if k = se_NodeID s
      then (figures x)\<lparr>n_MetricsAt := now, n_LastHeartbeat := now\<rparr> else x) (node_row (mg_store m) k)" for k
    unfolding node_row_def st sr by (simp add: find_map_update [of n_ID] figures_def)
  moreover have "mg_updates m' = mg_updates m @ [\<lparr>nu_NodeID = se_NodeID s, nu_Kind = ''metrics'', nu_At = now,
      nu_Snapshot = Some ((figures zero_node)\<lparr>n_ID := se_NodeID s\<rparr>)\<rparr>]"
    using room by (subst m') (simp add: publish_def updates_cap_def notice_def n)
  moreover have "mg_sinkCh m' = mg_sinkCh m @ [x]"
    using room by (subst m') (simp add: enqueueMetric_def sink_cap_def)
  moreover have "me_Disks x = map disk_sample_of (mr_disks r)"
    unfolding x_def n_def by (rule metric_disks) (use d in auto)
  moreover have sample: "(case mr_gpu r of None \<Rightarrow> [] | Some g \<Rightarrow> map (\<lambda>d. \<lparr>gp_Index = gd_index d, gp_Name = gd_name d,
        gp_UUID = gd_uuid d, gp_UsagePercent = gd_usage_percent d, gp_MemUsedBytes = gd_mem_used_bytes d,
        gp_MemTotalBytes = gd_mem_total_bytes d\<rparr>) (gs_devices g)) =
      (case mr_gpu r of None \<Rightarrow> [] | Some g \<Rightarrow> map gpu_sample_of (gs_devices g))"
    by (simp add: gpu_sample_of_def split: option.split)
  ultimately show ?thesis using st
    by (simp add: x_def metricFromReport_def UnixMilli_def n sample)
qed

definition ex_report :: metric_report where
  "ex_report = \<lparr>mr_ts_unix_ms = 0, mr_cpu = Some \<lparr>cs_usage_percent = Fin 12, cs_cores = 8, cs_per_core_percent = []\<rparr>,
     mr_memory = None, mr_disks = [], mr_gpu = None, mr_load = None\<rparr>"

lemma ex_report_encodable: "encodable (report_node nid ex_report)"
  by (simp add: encodable_def report_node_def ex_report_def Let_def zero_node_def high_bit_def)

lemma metrics_report_applied_witness:
  "\<exists>n x. mg_updates (handleMetrics 20 ex_session ex_report ex_mgr) =
     [\<lparr>nu_NodeID = ''n1'', nu_Kind = ''metrics'', nu_At = 20, nu_Snapshot = Some n\<rparr>] \<and>
     n_CPUPercent n = Fin 12 \<and> n_CPUCores n = 8 \<and>
     mg_sinkCh (handleMetrics 20 ex_session ex_report ex_mgr) = [x] \<and> me_CPUPercent x = Fin 12 \<and> me_CPUCores x = 8"
proof -
  have "st_faults (mg_store ex_mgr) = []" by (simp add: ex_store_def)
  then show ?thesis
    using metrics_report_applied [where m = ex_mgr and r = ex_report and s = ex_session and now = 20]
    by (simp add: ex_session_def newSession_def) (simp add: ex_report_def)
qed

text \<open>C29. A report with a NaN poisons its node: the value is stored as NULL, after which the list of
  nodes fails for every node, and the machine of that node cannot register again. The error names the
  first such column.\<close>

theorem nan_report_poisons_node:
  fixes m r s now
  defines "m' \<equiv> handleMetrics now s r m" and "n \<equiv> report_node (se_NodeID s) r"
  assumes h: "healthy (mg_store m)" and e: "encodable n"
    and k: "node_row (mg_store m) (se_NodeID s) = Some k" "n_MachineID k \<noteq> []"
    and nan: "is_nan (n_CPUPercent n) \<or> is_nan (n_Load1 n) \<or> is_nan (n_GpuUsageAvg n)"
    and reg: "rr_machine_id reg = n_MachineID k"
  shows "snd (ListNodes (mg_store m')) = Inl (null_error n) \<and>
    (\<exists>m2. resolveNodeID now' rnd reg m' = (m2, Inl (null_error n)))"
proof -
  have f: "st_faults (mg_store m) = []" and i: "integrity (mg_store m)" using h by (auto dest: healthyD)
  have st: "mg_store m' = (mg_store m)\<lparr>st_nodes :=
      map (\<lambda>x. if n_ID x = se_NodeID s then store_report now n x else x) (st_nodes (mg_store m))\<rparr>"
    unfolding m'_def n_def by (rule handleMetrics_store [OF f]) (use e in \<open>simp add: n_def\<close>)
  have f': "st_faults (mg_store m') = []" by (simp add: st f)
  have kin: "k \<in> set (st_nodes (mg_store m))" "n_ID k = se_NodeID s" using k(1) node_row_Some_iff [OF i] by auto
  have bad: "scanNode (store_report now n x) = Inl (null_error n)" for x
    using scanNode_null [of "store_report now n x"] nan by (simp add: store_report_def null_error_def)
  have good: "scanNode x = Inr x" if "x \<in> set (st_nodes (mg_store m))" for x
    using healthyD(3) [OF h] that by (simp add: scannable_def)
  have k': "store_report now n k \<in> set (st_nodes (mg_store m'))" using kin by (force simp: st)
  have "scan_all scanNode (sort_key (\<lambda>r. - n_RegisteredAt r) (st_nodes (mg_store m'))) = Inl (null_error n)"
    by (rule scan_all_fails [of "store_report now n k"]) (use k' bad in \<open>auto simp: st good\<close>)
  then have l: "snd (ListNodes (mg_store m')) = Inl (null_error n)"
    by (simp add: ListNodes_def query_no_faults [OF f'])
  have same: "x = k" if "x \<in> set (st_nodes (mg_store m))" "n_MachineID x = n_MachineID k" for x
  proof -
    have "inj_on n_MachineID {x \<in> set (st_nodes (mg_store m)). n_MachineID x \<noteq> []}"
      using i by (simp add: integrity_defs filter_map comp_def distinct_map)
    from inj_onD [OF this] that kin k(2) show ?thesis by simp
  qed
  have "first_row scanNode [x \<leftarrow> st_nodes (mg_store m'). n_MachineID x = n_MachineID k] = Inl (null_error n)"
  proof (rule first_row_fails)
    show "scanNode x = Inl (null_error n)" if "x \<in> set (st_nodes (mg_store m'))" "n_MachineID x = n_MachineID k" for x
      using that same kin bad by (auto simp: st store_report_def split: if_splits)
    show "\<exists>x \<in> set (st_nodes (mg_store m')). n_MachineID x = n_MachineID k"
      by (rule bexI [OF _ k']) (simp add: store_report_def)
  qed
  then have "on_store (GetNodeByMachineID (rr_machine_id reg)) m' = (m', Inl (null_error n))"
    using k(2) by (simp add: on_store_def GetNodeByMachineID_def query_no_faults [OF f'] reg)
  moreover have "null_error n \<noteq> ErrNoRows" by (simp add: null_error_def scan_null_msg_def)
  ultimately show ?thesis using l k(2) by (simp add: resolveNodeID_def reg)
qed

lemma nan_report_poisons_node_witness:
  "snd (ListNodes (mg_store (handleMetrics 20 ex_session (ex_report\<lparr>mr_load := Some
     \<lparr>la_load1 = NaN, la_load5 = Fin 0, la_load15 = Fin 0\<rparr>\<rparr>) ex_mgr))) = Inl (scan_null_msg 16 ''load1'')"
proof -
  let ?r = "ex_report\<lparr>mr_load := Some \<lparr>la_load1 = NaN, la_load5 = Fin 0, la_load15 = Fin 0\<rparr>\<rparr>"
  have "snd (ListNodes (mg_store (handleMetrics 20 ex_session ?r ex_mgr))) =
      Inl (null_error (report_node (se_NodeID ex_session) ?r))"
  proof (rule nan_report_poisons_node [THEN conjunct1])
  show "healthy (mg_store ex_mgr)" by (simp add: ex_healthy)
  show "encodable (report_node (se_NodeID ex_session) (ex_report\<lparr>mr_load := Some
     \<lparr>la_load1 = NaN, la_load5 = Fin 0, la_load15 = Fin 0\<rparr>\<rparr>))"
    by (simp add: encodable_def report_node_def ex_report_def Let_def zero_node_def high_bit_def)
  show "node_row (mg_store ex_mgr) (se_NodeID ex_session) = Some ex_node"
    by (simp add: node_row_def ex_session_def newSession_def) (simp add: ex_store_def ex_n1)
  show "rr_machine_id ex_register = n_MachineID ex_node" "n_MachineID ex_node \<noteq> []"
    by (simp_all add: ex_register_def ex_n1)
  qed (simp add: report_node_def ex_report_def Let_def zero_node_def)
  then show ?thesis by (simp add: null_error_def report_node_def ex_report_def Let_def zero_node_def)
qed

end
