(* ===== verification/Life_Props.thy ===== *)
theory Life_Props
  imports Create_Props MasterStart Message_Props
begin

text \<open>
  The properties of a container's life after its creation: deleting, stopping and starting it,
  what is reported about its GPUs, and the way of a connection to it through the proxy.
\<close>

section \<open>The columns read back\<close>

text \<open>What the create handler writes into a row as JSON is what the other handlers read from it:
  the reserved indices and the port mappings come back as they were, for all values.\<close>

lemma columns_roundtrip:
  "saved_indices (cc\<lparr>c_GPUIndicesJSON := indices_json idxs\<rparr>) = idxs \<and>
   first_host_port (new_container cid nid req ports name ext) = (case ports of [] \<Rightarrow> 0 | p # _ \<Rightarrow> pm_host_port p) \<and>
   json_column decode_port (c_PortsJSON (new_container cid nid req ports name ext)) = Some ports"
proof -
  have "unmarshal decode_u32 (render (JArr (map json_u32 idxs))) = Some idxs"
    by (rule unmarshal_render) auto
  then show ?thesis
    by (simp add: saved_indices_def first_host_port_def indices_json_def new_container_def json_column_def
        unmarshal_ports render_not_Nil del: render.simps split: list.split)
qed

lemma ex_saved: "saved_indices ex_container = [0]" "first_host_port ex_container = 8080"
proof -
  have "unmarshal decode_u32 (render (JArr (map json_u32 [0]))) = Some [0]"
    by (rule unmarshal_render) auto
  then show "saved_indices ex_container = [0]"
    unfolding saved_indices_def ex_container_def indices_json_def by (simp add: render_not_Nil del: render.simps list.map)
  show "first_host_port ex_container = 8080"
    unfolding first_host_port_def ex_container_def
    by (simp add: render_not_Nil unmarshal_ports del: render.simps list.map)
qed

lemma ex_row: "row ex_store ''c1'' = Some ex_container"
  by (simp add: row_def ex_defs)

lemma ex_container_fields [simp]:
  "c_ID ex_container = ''c1''" "c_NodeID ex_container = ''n1''" "c_ExternalPort ex_container = 30000"
  "c_DockerID ex_container = ''d1''" "c_State ex_container = ''running''"
  by (simp_all add: ex_container_def)

section \<open>Deleting\<close>

lemma holder_forget:
  "integrity s \<Longrightarrow> holder (forget cid e s) = (\<lambda>k. if holder s k = Some cid then None else holder s k)"
  using holder_free [of s cid] holder_gpus [of "forget cid e s" "s\<lparr>st_gpus := [g \<leftarrow> st_gpus s. g_container g \<noteq> cid]\<rparr>"]
  by (simp add: forget_def)

text \<open>C13. Deleting a container of a connected node forgets it everywhere: its row, all its GPUs, and,
  when it has an external port, the entry of that port in the port table, its route and its listener,
  whoever the port belongs to by then. The agent is told to stop and remove the container. No other row of
  any table changes, no other GPU, no other route and no other listener.\<close>

theorem delete_forgets_everything:
  assumes h: "healthy (sy_store y)" and r: "row (sy_store y) cid = Some cc"
    and a: "reachable_agent (c_NodeID cc) y sess"
  shows "\<exists>y'. deleteContainer cid y = (y', JSON 200 BOk) \<and> row (sy_store y') cid = None \<and>
    (\<forall>d. d \<noteq> cid \<longrightarrow> row (sy_store y') d = row (sy_store y) d) \<and>
    st_nodes (sy_store y') = st_nodes (sy_store y) \<and>
    holder (sy_store y') = (\<lambda>k. if holder (sy_store y) k = Some cid then None else holder (sy_store y) k) \<and>
    st_ports (sy_store y') = (if c_ExternalPort cc = 0 then st_ports (sy_store y)
      else [p \<leftarrow> st_ports (sy_store y). p_port p \<noteq> c_ExternalPort cc]) \<and>
    map_of (px_routes (sy_proxy y')) = (if c_ExternalPort cc = 0 then map_of (px_routes (sy_proxy y))
      else (map_of (px_routes (sy_proxy y)))(c_ExternalPort cc := None)) \<and>
    set (px_listeners (sy_proxy y')) = (if c_ExternalPort cc = 0 then set (px_listeners (sy_proxy y))
      else set (px_listeners (sy_proxy y)) - {c_ExternalPort cc}) \<and>
    mg_sent (sy_mgr y') = mg_sent (sy_mgr y) @ [(se_stream sess, MasterStopContainer cid (c_DockerID cc) True)]"
proof -
  let ?s = "sy_store y" and ?e = "c_ExternalPort cc"
  have i: "integrity ?s" using h by (rule healthyD)
  let ?y1 = "with_store (forget cid ?e ?s) (sent (se_stream sess) (MasterStopContainer cid (c_DockerID cc) True) y)"
  have d: "deleteContainer cid y = (if ?e \<noteq> 0 then unregister ?e ?y1 else ?y1, JSON 200 BOk)"
    using deleteContainer_ok [OF h r a] by (simp add: Let_def)
  have "row (forget cid ?e ?s) d = (if d = cid then None else row ?s d)" for d
    using find_filter_key [of c_ID d cid "st_containers ?s"] by (simp add: row_def forget_def)
  moreover note holder_forget [OF i, of cid ?e]
  ultimately show ?thesis unfolding d by (auto simp: forget_def unregister_def)
qed

lemma delete_forgets_everything_witness:
  "\<exists>y'. deleteContainer ''c1'' ex_sys = (y', JSON 200 BOk) \<and> row (sy_store y') ''c1'' = None"
  using delete_forgets_everything [of ex_sys "''c1''" ex_container ex_session]
  by (auto simp: ex_healthy ex_row ex_reachable)

text \<open>A delete that cannot be done changes nothing at all: neither for an unknown id, nor for a
  container whose node has no session or a broken stream.\<close>

lemma delete_refused_changes_nothing:
  assumes "healthy (sy_store y)"
    and "case row (sy_store y) cid of None \<Rightarrow> True | Some cc \<Rightarrow> \<forall>sess. \<not> reachable_agent (c_NodeID cc) y sess"
  shows "\<exists>code e. deleteContainer cid y = (y, JSON code (BError e)) \<and>
    code = (if row (sy_store y) cid = None then 404 else 500)"
  using deleteContainer_refused [OF assms(1), of cid] assms(2) by (cases "row (sy_store y) cid") auto

lemma delete_refused_changes_nothing_witness:
  "\<exists>code e. deleteContainer ''c1'' ex_broken = (ex_broken, JSON code (BError e)) \<and> code = 500"
proof -
  have "sy_store ex_broken = ex_store" by (simp add: ex_broken_def)
  moreover have "\<forall>sess. \<not> reachable_agent ''n1'' ex_broken sess"
    by (auto simp: reachable_agent_def ex_broken_def Get_def ex_session_def newSession_def)
  ultimately show ?thesis
    using delete_refused_changes_nothing [of ex_broken "''c1''"] by (auto simp: ex_healthy ex_row)
qed

section \<open>Stopping and starting\<close>

lemma row_stopping:
  "row s cid = Some cc \<Longrightarrow> c_ID cc = cid \<Longrightarrow>
     row (stopping now cc s) cid = Some (set_state now (c_DockerID cc) ''stopping'' ''stopping'' cc)"
  by (simp add: stopping_def row_update)

lemma healthy_stopping: "healthy s \<Longrightarrow> healthy (stopping now cc s)"
  unfolding stopping_def by (intro healthy_free_gpus healthy_set_state)

lemma saved_indices_set_state [simp]:
  "saved_indices (set_state now d st u r) = saved_indices r"
  "first_host_port (set_state now d st u r) = first_host_port r"
  by (simp_all add: saved_indices_def first_host_port_def)

text \<open>The holders while the container is stopped, and what can be reserved then.\<close>

lemma holder_stopping:
  "healthy s \<Longrightarrow> holder (stopping now cc s) = (\<lambda>k. if holder s k = Some (c_ID cc) then None else holder s k)"
  unfolding stopping_def by (subst holder_free_gpus) (auto intro: healthyD)

lemma reservable_stopping:
  assumes h: "healthy s" and r: "row s cid = Some cc" and d: "distinct (saved_indices cc)"
    and own: "\<forall>i \<in> set (saved_indices cc). holder s (c_NodeID cc, i) \<in> {None, Some cid}"
  shows "reservable (c_NodeID cc) cid (saved_indices cc) (stopping now cc s)"
proof -
  have i: "integrity s" using h by (rule healthyD)
  have c: "cc \<in> set (st_containers s)" "c_ID cc = cid" using r row_Some_iff [OF i] by auto
  have "(c_NodeID cc, i) \<notin> set (gpu_keys (stopping now cc s))" if "i \<in> set (saved_indices cc)" for i
  proof -
    have "holder s (c_NodeID cc, i) \<in> {None, Some cid}" using own that by blast
    then have "holder (stopping now cc s) (c_NodeID cc, i) = None"
      using c(2) holder_stopping [OF h, of now cc] by auto
    then show ?thesis by (simp add: holder_None_iff)
  qed
  moreover have "cid \<in> c_ID ` set (st_containers (stopping now cc s))"
    using row_stopping [OF r c(2)] row_None_iff [of "stopping now cc s" cid] by fastforce
  moreover have "c_NodeID cc \<in> n_ID ` set (st_nodes (stopping now cc s))"
    using i c(1) by (auto simp: integrity_defs stopping_def)
  ultimately show ?thesis using d by (simp add: reservable_def)
qed

lemma Get_sent [simp]: "Get n (sy_mgr (sent st x y)) = Get n (sy_mgr y)" "Get n (sy_mgr (unregister p y)) = Get n (sy_mgr y)"
  by (simp_all add: Get_def)

lemma reachable_after [simp]:
  "reachable_agent n (with_store s y) sess = reachable_agent n y sess"
  "reachable_agent n (sent st x y) sess = reachable_agent n y sess"
  "reachable_agent n (unregister p y) sess = reachable_agent n y sess"
  by (simp_all add: reachable_agent_def)

text \<open>C12. Stopping a container and starting it again gives it back what it had: both are answered with
  200, its saved GPUs are its again and every other holder is as before, its port leads to it again
  and is listened on, and no other route changes. Its row is the old one in every column but the state
  and the status, which are starting, and the time of the update; no other row and no other table
  changes. The agent has been sent the stop and then the start. In between the GPUs were free.\<close>

theorem stop_then_start:
  assumes h: "healthy (sy_store y)" and r: "row (sy_store y) cid = Some cc"
    and a: "reachable_agent (c_NodeID cc) y sess"
    and d: "distinct (saved_indices cc)"
    and own: "\<forall>k. holder (sy_store y) k = Some cid \<longleftrightarrow> fst k = c_NodeID cc \<and> snd k \<in> set (saved_indices cc)"
    and e: "c_ExternalPort cc \<noteq> 0" "ev_listen ev' (c_ExternalPort cc) = Inr (c_ExternalPort cc)"
  shows "\<exists>y1 y2. stopContainer ev cid y = (y1, JSON 200 BOk) \<and> startContainer ev' cid y1 = (y2, JSON 200 BOk) \<and>
    (\<forall>i \<in> set (saved_indices cc). holder (sy_store y1) (c_NodeID cc, i) = None) \<and>
    holder (sy_store y2) = holder (sy_store y) \<and>
    map_of (px_routes (sy_proxy y2)) = (map_of (px_routes (sy_proxy y)))(c_ExternalPort cc \<mapsto>
      \<lparr>rt_containerID = cid, rt_nodeID = c_NodeID cc, rt_hostPort = first_host_port cc\<rparr>) \<and>
    c_ExternalPort cc \<in> set (px_listeners (sy_proxy y2)) \<and>
    row (sy_store y2) cid = Some (cc\<lparr>c_State := ''starting'', c_Status := ''starting'', c_UpdatedAt := ev_now ev'\<rparr>) \<and>
    (\<forall>k. k \<noteq> cid \<longrightarrow> row (sy_store y2) k = row (sy_store y) k) \<and>
    st_nodes (sy_store y2) = st_nodes (sy_store y) \<and> st_ports (sy_store y2) = st_ports (sy_store y) \<and>
    mg_sent (sy_mgr y2) = mg_sent (sy_mgr y) @ [(se_stream sess, MasterStopContainer cid (c_DockerID cc) False),
      (se_stream sess, MasterStartContainer cid (c_DockerID cc))]"
proof -
  let ?s = "sy_store y" and ?p = "c_ExternalPort cc" and ?n = "c_NodeID cc" and ?g = "saved_indices cc"
  have i: "integrity ?s" using h by (rule healthyD)
  have id: "c_ID cc = cid" using r row_Some_iff [OF i] by auto
  define s1 where "s1 = stopping (ev_now ev) cc ?s"
  define y1 where "y1 = unregister ?p (with_store s1 (sent (se_stream sess) (MasterStopContainer cid (c_DockerID cc) False) y))"
  have stop: "stopContainer ev cid y = (y1, JSON 200 BOk)"
    using stopContainer_ok [OF h r a, of ev] e(1) by (simp add: y1_def s1_def Let_def)
  define cc1 where "cc1 = set_state (ev_now ev) (c_DockerID cc) ''stopping'' ''stopping'' cc"
  have cc1: "c_NodeID cc1 = ?n" "saved_indices cc1 = ?g" "c_ExternalPort cc1 = ?p" "first_host_port cc1 = first_host_port cc"
    "c_ID cc1 = cid" "c_GPUIndicesJSON cc1 = c_GPUIndicesJSON cc"
    by (simp_all add: cc1_def id)
  have dk: "c_DockerID cc1 = c_DockerID cc" by (simp add: cc1_def set_state_def)
  have y1: "sy_store y1 = s1" by (simp add: y1_def)
  have h1: "healthy s1" unfolding s1_def by (rule healthy_stopping [OF h])
  have r1: "row s1 cid = Some cc1" unfolding s1_def cc1_def by (rule row_stopping [OF r id])
  have g1: "reservable ?n cid ?g s1" unfolding s1_def by (rule reservable_stopping [OF h r d]) (use own in auto)
  define s2 where "s2 = starting (ev_now ev') cc1 s1"
  define y2 where "y2 = register_and_bind (ev_listen ev') ?p cid ?n (first_host_port cc)
    (with_store s2 (sent (se_stream sess) (MasterStartContainer cid (c_DockerID cc)) y1))"
  have start: "startContainer ev' cid y1 = (y2, JSON 200 BOk)"
    using startContainer_ok [of y1 cid cc1 sess ev'] h1 r1 a g1 e(1)
    by (simp add: y1 cc1 dk y2_def s2_def Let_def) (simp add: y1_def)
  have hold1: "holder s1 = (\<lambda>k. if holder ?s k = Some cid then None else holder ?s k)"
    using holder_stopping [OF h, of "ev_now ev" cc] by (simp add: s1_def id)
  have "holder s2 = (\<lambda>k. if fst k = ?n \<and> snd k \<in> set ?g then Some cid else holder s1 k)"
    using holder_add_gpus [OF g1] by (simp add: s2_def starting_def cc1)
  then have "holder s2 = holder ?s" using own unfolding hold1 by (intro ext) auto
  moreover have "row s2 cid = Some (cc\<lparr>c_State := ''starting'', c_Status := ''starting'', c_UpdatedAt := ev_now ev'\<rparr>)"
    using r1 by (simp add: s2_def starting_def cc1 row_update) (simp add: row_def cc1_def set_state_def)
  moreover have "row s2 k = row ?s k" if "k \<noteq> cid" for k
  proof -
    have u: "row (update_container cid (set_state now d st u) t) k = row t k" for now d st u t
      using that by (cases "row t k") (simp_all add: row_update)
    have "row (add_gpus g t) k = row t k" "row (free_gpus cid t) k = row t k" for g t
      by (simp_all add: row_def free_gpus_def)
    then show ?thesis by (simp add: s2_def s1_def starting_def stopping_def cc1 id u)
  qed
  moreover have "st_nodes s2 = st_nodes ?s" "st_ports s2 = st_ports ?s"
    by (simp_all add: s2_def s1_def starting_def stopping_def free_gpus_def update_container_def)
  moreover have "map_of (px_routes (sy_proxy y2)) = (map_of (px_routes (sy_proxy y)))(?p \<mapsto>
      \<lparr>rt_containerID = cid, rt_nodeID = ?n, rt_hostPort = first_host_port cc\<rparr>)"
    by (simp add: y2_def y1_def register_and_bind_def unregister_def)
  moreover have "?p \<in> set (px_listeners (sy_proxy y2))"
    unfolding y2_def register_and_bind_def using BindPort_listeners(2) [of "ev_listen ev'" ?p, OF e(2)] by simp
  moreover have "mg_sent (sy_mgr y2) = mg_sent (sy_mgr y) @ [(se_stream sess, MasterStopContainer cid (c_DockerID cc) False),
      (se_stream sess, MasterStartContainer cid (c_DockerID cc))]"
    by (simp add: y2_def y1_def register_and_bind_def unregister_def with_store_def)
  moreover have "sy_store y2 = s2" by (simp add: y2_def)
  ultimately show ?thesis
    using stop start hold1 own
    by (intro exI [of _ y1] exI [of _ y2]) (simp add: y1)
qed

lemma stop_then_start_witness:
  "\<exists>y1 y2. stopContainer ex_env ''c1'' ex_sys = (y1, JSON 200 BOk) \<and>
     startContainer ex_env ''c1'' y1 = (y2, JSON 200 BOk) \<and> holder (sy_store y2) = holder ex_store"
proof -
  have "\<forall>k. holder (sy_store ex_sys) k = Some ''c1'' \<longleftrightarrow> fst k = ''n1'' \<and> snd k \<in> set (saved_indices ex_container)"
    by (auto simp: ex_saved holder_def) (simp_all add: ex_store_def split: if_splits)
  moreover have "distinct (saved_indices ex_container)" by (simp add: ex_saved)
  moreover have "ev_listen ex_env 30000 = Inr 30000" by (simp add: ex_env_def)
  ultimately show ?thesis
    using stop_then_start [of ex_sys "''c1''" ex_container ex_session ex_env ex_env]
    by (auto simp: ex_healthy ex_row ex_reachable)
qed

text \<open>C31. A saved GPU that is held, by anyone, stops a start: the answer is 409 with the saved indices and
  the advice to create a new container, no table changes, nothing is sent and no route or listener is
  touched.\<close>

theorem start_conflict_reported:
  assumes h: "healthy (sy_store y)" and r: "row (sy_store y) cid = Some cc"
    and a: "Get (c_NodeID cc) (sy_mgr y) = Some sess"
    and k: "k \<in> set (saved_indices cc)" "holder (sy_store y) (c_NodeID cc, k) \<noteq> None"
  shows "\<exists>i s'. i \<in> set (saved_indices cc) \<and> startContainer ev cid y = (with_store s' y,
      JSON 409 (BErrorSaved (err_Error (ErrGPUTaken i (c_NodeID cc)))
        ''delete this container and create a new one to get fresh GPU assignment'' (saved_indices cc))) \<and>
    tables s' = tables (sy_store y)"
proof -
  have "\<not> reservable (c_NodeID cc) (c_ID cc) (saved_indices cc) (sy_store y)"
    using k by (auto simp: reservable_def holder_None_iff [symmetric])
  from startContainer_conflict [OF h r a this, of ev] show ?thesis by blast
qed

lemma start_conflict_reported_witness:
  "\<exists>s'. startContainer ex_env ''c1'' ex_sys = (with_store s' ex_sys, JSON 409 (BErrorSaved
      (err_Error (ErrGPUTaken 0 ''n1'')) ''delete this container and create a new one to get fresh GPU assignment'' [0]))"
proof -
  have "holder (sy_store ex_sys) (c_NodeID ex_container, 0) \<noteq> None" by (simp add: holder_def ex_defs)
  then show ?thesis
    using start_conflict_reported [of ex_sys "''c1''" ex_container ex_session 0 ex_env]
    by (auto simp: ex_healthy ex_row ex_saved)
qed

text \<open>C32. A container that exited by itself and is seen by the poll only (action poll, as on hosts without
  the event stream) keeps its GPUs, and is then refused a start by its own reservation: the master
  shows it as exited and answers 409.\<close>

theorem polled_exit_blocks_start:
  fixes y now se cid did
  defines "ev \<equiv> \<lparr>sc_container_id = cid, sc_docker_id = did, sc_action = ''poll'', sc_state = ''exited'',
    sc_status = ''exited'', sc_ts_unix_ms = 0\<rparr>"
  defines "y' \<equiv> y\<lparr>sy_mgr := handleIncoming now se (AgentContainerStateChanged ev) (sy_mgr y)\<rparr>"
  assumes h: "healthy (sy_store y)" and r: "row (sy_store y) cid = Some cc" "cid \<noteq> []"
    and a: "Get (c_NodeID cc) (sy_mgr y) = Some sess"
    and k: "k \<in> set (saved_indices cc)" "holder (sy_store y) (c_NodeID cc, k) = Some cid"
  shows "(\<exists>r. row (sy_store y') cid = Some r \<and> c_State r = ''exited'') \<and>
    holder (sy_store y') (c_NodeID cc, k) = Some cid \<and>
    (\<exists>y2 e. startContainer env cid y' = (y2, JSON 409 e))"
proof -
  let ?s = "sy_store y"
  have f: "st_faults ?s = []" and i: "integrity ?s" using h by (auto dest: healthyD)
  have id: "c_ID cc = cid" "cid \<in> c_ID ` set (st_containers ?s)"
    using r(1) row_Some_iff [OF i] by auto
  have s': "sy_store y' = update_container cid (set_state now did ''exited'' ''exited'') ?s"
    using no_fault_event [OF f, of now se ev] r(2) id(2)
    by (simp add: y'_def ev_def event_store_def isTerminalGPUAction_def Let_def del: handleIncoming.simps)
  let ?cc = "set_state now did ''exited'' ''exited'' cc"
  have h': "healthy (sy_store y')" unfolding s' by (rule healthy_set_state [OF h])
  have r': "row (sy_store y') cid = Some ?cc" using r(1) by (simp add: s' row_update)
  have a': "Get (c_NodeID ?cc) (sy_mgr y') = Some sess"
    using a by (simp add: y'_def Get_def sessions_incoming del: handleIncoming.simps)
  have hold: "holder (sy_store y') (c_NodeID cc, k) = Some cid" using k(2) by (simp add: s')
  have "\<not> reservable (c_NodeID ?cc) (c_ID ?cc) (saved_indices ?cc) (sy_store y')"
    using k(1) hold by (auto simp: reservable_def holder_None_iff [symmetric])
  from startContainer_conflict [OF h' r' a' this, of env] r' hold show ?thesis by auto
qed

lemma polled_exit_blocks_start_witness:
  "\<exists>y2 e. startContainer ex_env ''c1'' (ex_sys\<lparr>sy_mgr := handleIncoming 20 ex_session (AgentContainerStateChanged
     \<lparr>sc_container_id = ''c1'', sc_docker_id = ''d1'', sc_action = ''poll'', sc_state = ''exited'',
      sc_status = ''exited'', sc_ts_unix_ms = 0\<rparr>) (sy_mgr ex_sys)\<rparr>) = (y2, JSON 409 e)"
proof -
  have "holder (sy_store ex_sys) (c_NodeID ex_container, 0) = Some ''c1''" by (simp add: holder_def ex_defs)
  then show ?thesis
    using polled_exit_blocks_start [where y = ex_sys and cid = "''c1''" and cc = ex_container and sess = ex_session
      and k = 0 and now = 20 and se = ex_session and did = "''d1''" and env = ex_env]
    by (simp add: ex_healthy ex_row ex_saved del: handleIncoming.simps)
qed

text \<open>The GPU list of a node tells the truth: one entry for each device the node counts, in order, and
  each says who holds the device according to the reservations, with the name of that container.\<close>

lemma gpu_list_truthful:
  assumes "healthy (sy_store y)" and "node_row (sy_store y) nid = Some n"
  shows "\<exists>vs. listNodeGPUs nid y = (y, JSON 200 (BGpus vs)) \<and> length vs = unat (n_GpuCount n) \<and>
    (\<forall>i < n_GpuCount n. gv_index (vs ! unat i) = i \<and> gv_held_by (vs ! unat i) = held_by (sy_store y) (nid, i))"
  using assms by (rule listNodeGPUs_spec)

lemma gpu_list_truthful_witness:
  "\<exists>vs. listNodeGPUs ''n1'' ex_sys = (ex_sys, JSON 200 (BGpus vs)) \<and> gv_held_by (vs ! 0) = Some (''c1'', ''web'') \<and>
     gv_held_by (vs ! 1) = None"
proof -
  have n: "node_row (sy_store ex_sys) ''n1'' = Some ex_node" "n_GpuCount ex_node = 2"
    by (simp_all add: node_row_def ex_defs)
  have "held_by ex_store (''n1'', 0) = Some (''c1'', ''web'')" "held_by ex_store (''n1'', 1) = None"
    by (simp_all add: held_by_def ex_row holder_def) (simp_all add: ex_store_def ex_container_def ex_row)
  moreover obtain vs where l: "listNodeGPUs ''n1'' ex_sys = (ex_sys, JSON 200 (BGpus vs))"
    and v: "\<forall>i < n_GpuCount ex_node. gv_index (vs ! unat i) = i \<and>
      gv_held_by (vs ! unat i) = held_by (sy_store ex_sys) (''n1'', i)"
    using gpu_list_truthful [OF _ n(1)] by (auto simp: ex_healthy)
  moreover have "gv_held_by (vs ! 0) = held_by ex_store (''n1'', 0)" using v [rule_format, of 0] n(2) by simp
  moreover have "gv_held_by (vs ! 1) = held_by ex_store (''n1'', 1)" using v [rule_format, of 1] n(2) by simp
  ultimately show ?thesis by auto
qed

section \<open>Connections through the proxy\<close>

text \<open>C14. The external port of a freshly created container works end to end: if the system lets the
  port be listened on, then after the create the proxy has a listener there, and a connection it accepts is
  forwarded to the address the agent connected from, at the host port of the container's first
  mapping, and piped to that container.\<close>

theorem created_port_reaches_container:
  assumes c: "createContainer ev (Inr req) y = Some (y', JSON 200 (BCreated cc nid nm url g))"
    and p: "c_ExternalPort cc \<noteq> 0" "cq_PortMappings req \<noteq> []"
    and l: "ev_listen ev (c_ExternalPort cc) = Inr (c_ExternalPort cc)"
    and s: "Get nid (sy_mgr y) = Some sess" "se_remoteHost sess \<noteq> []"
    and "addr = joinHostPort (se_remoteHost sess) (itoa (unat (pm_host_port (hd (portMappingsToProto (cq_PortMappings req))))))"
    and "dial addr = None"
  shows "c_ExternalPort cc \<in> set (px_listeners (sy_proxy y')) \<and>
    acceptLoop dial (sy_mgr y') (c_ExternalPort cc) (sy_proxy y') = Some (Piped addr (c_ID cc))"
proof -
  obtain req' where q: "check_indices req = Inr req'"
    and r: "c_ExternalPort cc \<noteq> 0 \<and> cq_PortMappings req' \<noteq> [] \<longrightarrow> map_of (px_routes (sy_proxy y')) (c_ExternalPort cc) =
        Some (route_of (c_ID cc) nid (portMappingsToProto (cq_PortMappings req')))"
    and l': "c_ExternalPort cc \<noteq> 0 \<and> cq_PortMappings req' \<noteq> [] \<and> ev_listen ev (c_ExternalPort cc) = Inr (c_ExternalPort cc) \<longrightarrow>
        c_ExternalPort cc \<in> set (px_listeners (sy_proxy y'))"
    using createContainer_facts [OF c] by blast
  have "cq_PortMappings req' = cq_PortMappings req" using check_indices_Inr(1) [OF q] by auto
  with r l l' p have "map_of (px_routes (sy_proxy y')) (c_ExternalPort cc) =
      Some (route_of (c_ID cc) nid (portMappingsToProto (cq_PortMappings req)))"
    "c_ExternalPort cc \<in> set (px_listeners (sy_proxy y'))" by simp_all
  moreover have "Get nid (sy_mgr y') = Some sess"
    using s(1) hub_sessions [OF hub_create [OF c]] by (simp add: Get_def)
  ultimately show ?thesis using s(2) assms(7,8) by (simp add: acceptLoop_def forward_def route_of_def Let_def)
qed

lemma created_port_reaches_container_witness:
  "\<exists>y' cc url g. createContainer ex_env (Inr ex_req) ex_sys = Some (y', JSON 200 (BCreated cc ''n1'' ''alpha'' url g)) \<and>
     acceptLoop (\<lambda>_. None) (sy_mgr y') (c_ExternalPort cc) (sy_proxy y') =
       Some (Piped (joinHostPort ''10.0.0.5'' (itoa 80)) (c_ID cc))"
proof -
  obtain y' cc url g where c: "createContainer ex_env (Inr ex_req) ex_sys =
    Some (y', JSON 200 (BCreated cc ''n1'' ''alpha'' url g))" using ex_created by blast
  have r: "cq_PortMappings ex_req = [\<lparr>pj_ContainerPort = 80, pj_Protocol = [], pj_HostPort = 0\<rparr>]" "cq_ExternalPort ex_req = 0"
    by (simp_all add: ex_req_def)
  have "check_indices ex_req = Inr ex_req" by (simp add: check_indices_def ex_req_def)
  then have "30000 \<le> c_ExternalPort cc" using createContainer_facts [OF c] r by auto
  then have "c_ExternalPort cc \<noteq> 0" by auto
  moreover have "se_remoteHost ex_session = ''10.0.0.5''" by (simp add: ex_session_def newSession_def)
  moreover have "ev_listen ex_env (c_ExternalPort cc) = Inr (c_ExternalPort cc)" by (simp add: ex_env_def)
  ultimately have "acceptLoop (\<lambda>_. None) (sy_mgr y') (c_ExternalPort cc) (sy_proxy y') =
      Some (Piped (joinHostPort ''10.0.0.5'' (itoa 80)) (c_ID cc))"
    using created_port_reaches_container [OF c, of ex_session "joinHostPort ''10.0.0.5'' (itoa 80)" "\<lambda>_. None"]
    by (simp add: r portMappingsToProto_def)
  with c show ?thesis by blast
qed

lemma rebind_restores:
  assumes h: "healthy s" and d: "distinct (map c_ExternalPort [c \<leftarrow> st_containers s. routable c])"
  shows "\<exists>px. rebindExistingProxyRoutes listen s NewProxy = ((s, px), Inr ()) \<and>
    (\<forall>c \<in> set (st_containers s). routable c \<longrightarrow>
      map_of (px_routes px) (c_ExternalPort c) = Some (saved_route c) \<and>
      (listen (c_ExternalPort c) = Inr (c_ExternalPort c) \<longrightarrow> c_ExternalPort c \<in> set (px_listeners px))) \<and>
    (\<forall>p rt. map_of (px_routes px) p = Some rt \<longrightarrow>
      (\<exists>c \<in> set (st_containers s). routable c \<and> c_ExternalPort c = p \<and> rt = saved_route c))"
proof -
  obtain cs where l: "ListContainers s = (s, Inr cs)" and m: "set cs = set (st_containers s)"
    using healthy_queries(5) [OF h] by simp
  have r: "rebindExistingProxyRoutes listen s NewProxy = ((s, rebind_loop listen cs NewProxy), Inr ())"
    by (simp add: rebindExistingProxyRoutes_def l)
  have "\<exists>c \<in> set (st_containers s). routable c \<and> c_ExternalPort c = p \<and> rt = saved_route c"
    if "map_of (px_routes (rebind_loop listen cs NewProxy)) p = Some rt" for p rt
    using that rebind_routes [of listen cs NewProxy p] m
    by (auto simp: NewProxy_def find_Some_iff split: option.splits) (metis nth_mem length_rev set_rev)
  moreover have "map_of (px_routes (rebind_loop listen cs NewProxy)) (c_ExternalPort c) = Some (saved_route c) \<and>
      (listen (c_ExternalPort c) = Inr (c_ExternalPort c) \<longrightarrow> c_ExternalPort c \<in> set (px_listeners (rebind_loop listen cs NewProxy)))"
    if "c \<in> set (st_containers s)" "routable c" for c
    using rebind_unique [OF h d that, of listen] r by auto
  ultimately show ?thesis using r by blast
qed

text \<open>C18. A restarted master serves the URLs of the earlier run: when the configuration can be read, the
  database of that run opens and works, each of its ports belongs to one container and the gRPC
  address is free, the start succeeds; every saved port leads to its container again, it is listened on
  if the system lets it, and there is no other route. No row changes, and no agent is connected.\<close>

theorem restart_restores_routes:
  assumes "Load_master readFile yaml path = Inr (cfg, loaded)"
    and "Store.Open sqlOpen execSchema (mf_DB cfg) = Inr s" and h: "healthy s"
    and d: "distinct (map c_ExternalPort [c \<leftarrow> st_containers s. routable c])" and "listenGRPC (mf_GRPC cfg) = Inr ()"
  shows "\<exists>sink y. Run_master readFile yaml sqlOpen execSchema newClient listenGRPC listen path = Inr (sink, y) \<and>
    sy_mgr y = NewManager s \<and>
    (\<forall>c \<in> set (st_containers s). routable c \<longrightarrow>
      map_of (px_routes (sy_proxy y)) (c_ExternalPort c) = Some (saved_route c) \<and>
      (listen (c_ExternalPort c) = Inr (c_ExternalPort c) \<longrightarrow> c_ExternalPort c \<in> set (px_listeners (sy_proxy y)))) \<and>
    (\<forall>p rt. map_of (px_routes (sy_proxy y)) p = Some rt \<longrightarrow>
      (\<exists>c \<in> set (st_containers s). routable c \<and> c_ExternalPort c = p \<and> rt = saved_route c))"
proof -
  obtain px where px: "rebindExistingProxyRoutes listen s NewProxy = ((s, px), Inr ())"
    "\<forall>c \<in> set (st_containers s). routable c \<longrightarrow>
      map_of (px_routes px) (c_ExternalPort c) = Some (saved_route c) \<and>
      (listen (c_ExternalPort c) = Inr (c_ExternalPort c) \<longrightarrow> c_ExternalPort c \<in> set (px_listeners px))"
    "\<forall>p rt. map_of (px_routes px) p = Some rt \<longrightarrow>
      (\<exists>c \<in> set (st_containers s). routable c \<and> c_ExternalPort c = p \<and> rt = saved_route c)"
    using rebind_restores [OF h d, of listen] by blast
  have "Run_master readFile yaml sqlOpen execSchema newClient listenGRPC listen path =
      Inr (NewSink newClient (mf_Greptime cfg), \<lparr>sy_mgr = NewManager s, sy_proxy = px\<rparr>)"
    using assms(1,2,5) px(1) by (simp add: Run_master_def Let_def NewManager_def)
  with px(2,3) show ?thesis by (intro exI conjI) (assumption | simp)+
qed

lemma restart_restores_routes_witness:
  "\<exists>sink y. Run_master (\<lambda>_. NotExist) (\<lambda>_ c. Inr c) Inr (\<lambda>_. Inr ex_store) (\<lambda>_ _. Inr ()) (\<lambda>_. Inr ()) Inr [] = Inr (sink, y) \<and>
     map_of (px_routes (sy_proxy y)) 30000 = Some \<lparr>rt_containerID = ''c1'', rt_nodeID = ''n1'', rt_hostPort = 8080\<rparr>"
proof -
  have c: "st_containers ex_store = [ex_container]" by (simp add: ex_store_def)
  have r: "routable ex_container"
    unfolding routable_def ex_container_def by (simp add: render_not_Nil unmarshal_ports del: render.simps list.map)
  have "Load_master (\<lambda>_. NotExist) (\<lambda>_ c. Inr c) [] = Inr (defaults_master, False)" by (simp add: Load_master_def)
  moreover have "Store.Open Inr (\<lambda>_. Inr ex_store) (mf_DB defaults_master) = Inr ex_store" by (simp add: Store.Open_def)
  moreover have "distinct (map c_ExternalPort [c \<leftarrow> st_containers ex_store. routable c])" by (simp add: c r)
  ultimately obtain sink y where
    "Run_master (\<lambda>_. NotExist) (\<lambda>_ c. Inr c) Inr (\<lambda>_. Inr ex_store) (\<lambda>_ _. Inr ()) (\<lambda>_. Inr ()) Inr [] = Inr (sink, y)"
    "map_of (px_routes (sy_proxy y)) (c_ExternalPort ex_container) = Some (saved_route ex_container)"
    using restart_restores_routes [OF _ _ ex_healthy, of "\<lambda>_. NotExist" "\<lambda>_ c. Inr c" "[]" defaults_master False Inr
        "\<lambda>_. Inr ex_store" "\<lambda>_. Inr ()" "\<lambda>_ _. Inr ()" Inr] by (auto simp: c r)
  then show ?thesis by (auto simp: saved_route_def ex_saved)
qed

end
