(* ===== verification/Race_Props.thy ===== *)
theory Race_Props
  imports Interleaving Life_Props
begin

text \<open>
  The properties of the master whose requests, streams and background turns interleave call by
  call: what holds in every configuration, how many calls a request makes, what an answer of 200
  means whatever ran in between, and what one call does to the pool of GPUs.
\<close>

section \<open>Every configuration\<close>

lemma ex_conc: "conc_step\<^sup>*\<^sup>* (ex_sys, []) (fst (deleteContainer ''c1'' ex_sys),
  [Ret (Some (snd (deleteContainer ''c1'' ex_sys)))])"
proof -
  let ?k = "\<lambda>r. Ret (Some r) :: thread" and ?d = "deleteContainer ''c1'' ex_sys"
  have "conc_step (ex_sys, []) (ex_sys, [job_prog (Serve ex_env (Delete_container ''c1''))])"
    using conc_arrive [of ex_sys "[]"] by (metis append_Nil)
  moreover have "run (delete_prog ''c1'') ex_sys = Some (fst ?d, snd ?d)" by (simp add: run_delete)
  from thread_runs [OF this, where i = 0 and ts = "[Ret None]" and k = ?k]
  have "conc_step\<^sup>*\<^sup>* (ex_sys, [job_prog (Serve ex_env (Delete_container ''c1''))]) (fst ?d, [?k (snd ?d)])" by simp
  ultimately show ?thesis by (rule converse_rtranclp_into_rtranclp)
qed

text \<open>C1. Every configuration that any interleaving of requests, agent streams and background turns
  reaches satisfies the constraints of the schema: node, container and machine ids are unique, a
  container's node exists, a GPU has one holder, which is an existing container, and a port has one
  owner. The threads take their steps in any order, one call of the store, the manager or the proxy
  at a time, and any statement of the database may fail at any moment.\<close>

theorem concurrent_integrity:
  assumes "conc_step\<^sup>*\<^sup>* (y, []) (y', ts)" and "integrity (sy_store y)"
  shows "integrity (sy_store y')"
  using assms by (rule consistent.calls.threads.from_start [unfolded all_jobs])

lemma concurrent_integrity_witness: "integrity (sy_store (fst (deleteContainer ''c1'' ex_sys)))"
  using concurrent_integrity [OF ex_conc] by (simp add: ex_integrity)

text \<open>C2. The concurrent master refines the abstract GPU pool, step by step. In every configuration that
  any interleaving reaches, whatever single call of whatever thread, or failure of the database, comes
  next either leaves the set of containers and the map from GPUs to holders as they are or is exactly one
  step of the specification: a container that did not exist is added and holds nothing; GPUs that nobody
  holds are reserved, all at once, for one container that exists; everything one container holds is
  released and nothing else; or a container goes with everything it holds. So no call takes a GPU from
  one container to give it to another.\<close>

theorem concurrent_pool_refined:
  assumes "conc_step\<^sup>*\<^sup>* (y, []) (y1, ts1)" and "conc_step (y1, ts1) (y2, ts2)" and "integrity (sy_store y)"
  shows "(pool_of (sy_store y2) = pool_of (sy_store y1) \<or> pool_step (pool_of (sy_store y1)) (pool_of (sy_store y2))) \<and>
    (\<forall>k c. holder (sy_store y1) k = Some c \<longrightarrow> holder (sy_store y2) k = Some c \<or> holder (sy_store y2) k = None)"
proof -
  have "y2 = y1 \<or> pool_next (sy_store y1) (sy_store y2)"
    using pool_moves.threads.step_from_start [unfolded all_jobs, OF assms] by blast
  then have "pool_of (sy_store y2) = pool_of (sy_store y1) \<or> pool_step (pool_of (sy_store y1)) (pool_of (sy_store y2))"
    by (auto simp: pool_next_def)
  then show ?thesis using pool_step_no_steal by (fastforce simp: pool_of_def)
qed

text \<open>In a run that deletes a container, there is a call after which nobody holds its GPU.\<close>

lemma last_change:
  "R\<^sup>*\<^sup>* a b \<Longrightarrow> P a \<Longrightarrow> \<not> P b \<Longrightarrow> \<exists>c d. R\<^sup>*\<^sup>* a c \<and> R c d \<and> P c \<and> \<not> P d"
  by (induction rule: rtranclp_induct) blast+

lemma concurrent_pool_refined_witness:
  "\<exists>y1 ts1 y2 ts2. conc_step\<^sup>*\<^sup>* (ex_sys, []) (y1, ts1) \<and> conc_step (y1, ts1) (y2, ts2) \<and>
     holder (sy_store y1) (''n1'', 0) = Some ''c1'' \<and> holder (sy_store y2) (''n1'', 0) = None \<and>
     pool_step (pool_of (sy_store y1)) (pool_of (sy_store y2))"
proof -
  let ?P = "\<lambda>c :: sys \<times> thread list. holder (sy_store (fst c)) (''n1'', 0) = Some ''c1''"
  have a: "?P (ex_sys, [])" by (simp add: holder_def ex_defs)
  moreover have "holder (sy_store (fst (deleteContainer ''c1'' ex_sys))) k \<noteq> Some ''c1''" for k
    using deleteContainer_ok [of ex_sys "''c1''" ex_container ex_session] holder_forget [OF ex_integrity, of "''c1''"]
    by (simp add: ex_healthy ex_row ex_reachable Let_def)
  then have "\<not> ?P (fst (deleteContainer ''c1'' ex_sys), [Ret (Some (snd (deleteContainer ''c1'' ex_sys)))])" by simp
  ultimately obtain y1 ts1 y2 ts2 where p: "conc_step\<^sup>*\<^sup>* (ex_sys, []) (y1, ts1)" "conc_step (y1, ts1) (y2, ts2)"
    "?P (y1, ts1)" "\<not> ?P (y2, ts2)"
    using last_change [OF ex_conc, of ?P] by auto
  from concurrent_pool_refined [OF p(1,2)] p(3,4) show ?thesis
    using p(1,2) by (intro exI conjI) (assumption | auto simp: ex_integrity pool_of_def)+
qed

text \<open>The channels keep settles their capacities and a node has one session, in any company.\<close>

lemma concurrent_channels_bounded:
  "conc_step\<^sup>*\<^sup>* (y, []) (y', ts) \<Longrightarrow> channels_bounded (sy_mgr y) \<Longrightarrow> channels_bounded (sy_mgr y')"
  by (rule channels.threads.from_start [unfolded all_jobs])

lemma concurrent_one_session:
  "conc_step\<^sup>*\<^sup>* (y, []) (y', ts) \<Longrightarrow> sessions_ok (sy_mgr y) \<Longrightarrow> sessions_ok (sy_mgr y')"
  by (rule live.threads.from_start [unfolded all_jobs])

section \<open>Alone\<close>

text \<open>The programs are the handlers: a request or a stream that nothing interrupts does, call by
  call, exactly what the handler of the sequential model does in one step, with the same answer.\<close>

lemma handlers_alone:
  "run (handler ev q) y = handle ev q y \<and>
   run (connect_prog now rnd peer stream first) y =
     (case OnAgentConnect now rnd peer stream first (sy_mgr y) of (m, r) \<Rightarrow> Some (on_mgr (\<lambda>_. m) y, r)) \<and>
   run (message_prog now s msg) y = Some (on_mgr (handleIncoming now s msg) y, ()) \<and>
   run (disconnect_prog now nid e) y = Some (on_mgr (handleDisconnect now nid e) y, ())"
  by (intro conjI; rule run_handler run_connect run_message run_disconnect)

section \<open>How many calls a request makes\<close>

lemma settles_steps:
  "0 < N \<Longrightarrow> (\<And>a. settles (N - 1) (k a)) \<Longrightarrow> settles N (call f k)"
  "0 < N \<Longrightarrow> settles (N - 1) p \<Longrightarrow> settles N (act g p)"
  "0 < N \<Longrightarrow> settles (N - 1) p \<Longrightarrow> settles N (when_act b g p)"
  "0 < N \<Longrightarrow> (\<And>a. settles (N - 1) (k' a)) \<Longrightarrow> settles N (look_up nid k')"
  by (cases N; simp add: when_act_def look_up_def settles_mono)+

lemma settles_bind_port: "1 < N \<Longrightarrow> settles (N - 2) p \<Longrightarrow> settles N (bind_port b listen port p)"
  using settles_mono [of "N - 2" p "N - 1"] settles_mono [of "N - 2" p N] unfolding bind_port_def
  by (auto intro!: settles_steps split: sum.split simp: numeral_2_eq_2)

lemma settles_then:
  "settles n p \<Longrightarrow> n \<le> N \<Longrightarrow> (\<And>a. settles (N - n) (k a)) \<Longrightarrow> settles N (bind_prog p k)"
  using settles_bind [of n p "N - n" k] by simp

lemma settles_select: "settles 2 (select_prog rq)"
  unfolding select_prog_def by (intro settles_steps) (auto intro!: settles_steps split: sum.split)

lemma settles_pick: "settles 2 (pick_prog req)"
  unfolding pick_prog_def
  by (auto simp: Let_def intro!: settles_then [OF settles_select] settles_steps split: sum.split option.split)

lemma settles_port: "settles 1 (port_prog cid req ports)"
proof -
  have "map_option h (AllocPort 30000 32767 cid s) \<noteq> None" for s and h :: "_ \<Rightarrow> sys \<times> (err + u32)"
    using AllocPort_returns [of 32767 30000 cid s] by auto
  then show ?thesis
    unfolding port_prog_def One_nat_def by (simp add: settles_call_opt del: map_option_is_None)
qed

lemma settles_reserve: "settles 2 (reserve_prog now cid n req)"
  unfolding reserve_prog_def
  by (auto simp: Let_def simp del: render.simps intro!: settles_then [where n = 1] settles_steps split: sum.split)

lemma settles_place: "settles 4 (place_prog ev req n)"
  unfolding place_prog_def Let_def
  by (rule settles_then [OF settles_port])
    (auto intro!: settles_steps settles_then [OF settles_reserve] split: sum.split)

lemma settles_hand_off: "settles 7 (hand_off_prog ev req n sess placed)"
  unfolding hand_off_prog_def cleanup_prog_def Let_def
  by (auto intro!: settles_steps settles_bind_port split: sum.split prod.split)

lemma settles_create: "settles 14 (create_prog ev bound)"
proof -
  have "settles 11 (create_on_prog ev req n sess)" for req n sess
    unfolding create_on_prog_def
    by (rule settles_then [OF settles_place]) (auto simp: settles_hand_off split: sum.split)
  then show ?thesis unfolding create_prog_def
    by (auto intro!: settles_then [OF settles_pick] settles_steps split: sum.split option.split)
qed

lemma settles_stop_command: "settles 2 (stop_command cc remove)"
  unfolding stop_command_def by (auto intro!: settles_steps split: option.split)

text \<open>A program of a request makes at most fourteen calls, whatever the other threads and the
  environment do to the state between them. The calls are taken as atomic: that the stream's \<open>Send\<close> waits
  for flow control, or a statement for the database, is outside the model.\<close>

lemma request_bounded: "settles 14 (handler ev q)"
proof (cases q)
  case (Start_container i)
  then show ?thesis
    by (auto simp: start_prog_def set_state_prog_def Let_def settles_stop_command
        intro!: settles_then [where n = 1] settles_steps settles_bind_port split: sum.split option.split)
qed (auto simp: nodes_prog_def node_prog_def node_containers_prog_def node_gpus_prog_def containers_prog_def
    container_prog_def settles_create delete_prog_def stop_prog_def set_state_prog_def Let_def
    intro!: settles_then [OF settles_stop_command] settles_steps split: sum.split)

text \<open>So a thread that serves a request has a next step in every configuration until it has answered.\<close>

lemma request_never_stuck: "settles n (Call f) \<Longrightarrow> \<exists>y' p. f y = Some (y', p) \<and> settles (n - 1) p"
  by (cases n) (force dest: spec [of _ y] split: option.splits)+

section \<open>What an answer of 200 means in company\<close>

text \<open>The steps of a program are the pairs of states around its calls. A create that is answered
  with 200 has inserted a fresh row, reserved what it asked for when nobody held it, and sent the
  command last; what the others did between these calls is left open.\<close>

lemmas runs_elims = runs_RetE runs_callE runs_call_optE runs_actE

lemma runs_lookupE:
  assumes "runs (look_up nid k) tr r"
  obtains y tr' where "tr = (y, y) # tr'" "runs (k (Get nid (sy_mgr y))) tr' r"
  using assms by (auto simp: look_up_def elim!: runs_callE)

lemma runs_whenE:
  assumes "runs (when_act b f p) tr r"
  obtains t1 tr' where "tr = t1 @ tr'" "runs p tr' r"
proof (cases b)
  case True
  with assms obtain y tr' where "tr = [(y, f y)] @ tr'" "runs p tr' r"
    by (auto simp: when_act_def elim!: runs_actE)
  then show ?thesis by (rule that)
next
  case False
  with assms show ?thesis using that [of "[]" tr] by (simp add: when_act_def)
qed

lemma runs_bind_portE:
  assumes "runs (bind_port b listen port p) tr r"
  obtains t1 t2 where "tr = t1 @ t2" "runs p t2 r"
proof (cases b)
  case True
  with assms obtain y tr' where y: "tr = (y, y) # tr'" "runs (if port \<in> set (px_listeners (sy_proxy y)) then p
      else case listen port of Inl e \<Rightarrow> p | Inr actual \<Rightarrow> act (add_listener actual) p) tr' r"
    by (auto simp: bind_port_def elim!: runs_callE)
  then have "runs p tr' r \<or> (\<exists>z t. tr' = z # t \<and> runs p t r)"
    by (auto split: if_splits sum.splits elim!: runs_actE)
  with y(1) that [of "[(y, y)]"] that [of "[(y, y), _]"] show ?thesis by auto
next
  case False
  with assms that [of "[]"] show ?thesis by (simp add: bind_port_def)
qed

definition is_created :: "response \<Rightarrow> bool" where
  "is_created rsp \<longleftrightarrow> (\<exists>code cc nid nm url g. rsp = JSON code (BCreated cc nid nm url g))"

lemma is_created_simps [simp]:
  "is_created (JSON code (BCreated cc nid nm url g))" "\<not> is_created (JSON code (BError e))"
  "\<not> is_created (JSON code (BErrorHint e h))"
  by (auto simp: is_created_def JSON_def)

lemma pick_refuses: "runs (pick_prog req) tr (Inl rsp) \<Longrightarrow> \<not> is_created rsp"
  by (auto simp: pick_prog_def Let_def elim!: runs_elims runs_bindE split: if_splits sum.splits option.splits)

lemma reserve_refuses: "runs (reserve_prog now cid n req) tr (Inl rsp) \<Longrightarrow> \<not> is_created rsp"
  by (auto simp: reserve_prog_def Let_def simp del: render.simps elim!: runs_elims runs_bindE
      split: if_splits sum.splits)

lemma place_refuses: "runs (place_prog ev req n) tr (Inl rsp) \<Longrightarrow> \<not> is_created rsp"
  by (auto simp: place_prog_def Let_def elim!: runs_elims runs_bindE runs_whenE dest!: reserve_refuses
      split: if_splits sum.splits)

text \<open>The reservation, in one call.\<close>

definition reserves :: "string \<Rightarrow> string \<Rightarrow> u32 list \<Rightarrow> sys \<times> sys \<Rightarrow> bool" where
  "reserves nid cid idxs = (\<lambda>(y, y'). (\<forall>i \<in> set idxs. holder (sy_store y) (nid, i) = None) \<and>
     holder (sy_store y') = (\<lambda>k. if fst k = nid \<and> snd k \<in> set idxs then Some cid else holder (sy_store y) k))"

lemma reserves_add:
  assumes "reservable nid cid idxs (sy_store y)"
    and "tables (sy_store y') = tables (add_gpus (gpu_rows now nid cid idxs) (sy_store y))"
  shows "reserves nid cid idxs (y, y')"
  using assms holder_add_gpus [OF assms(1), of now] holder_cong [OF assms(2)]
  by (simp add: reserves_def reservable_def holder_None_iff)

lemma reserve_runs:
  assumes "runs (reserve_prog now cid n req) tr (Inr (idxs, j))"
  shows "asked_gpus req idxs \<and> j = indices_json idxs \<and> (idxs \<noteq> [] \<longrightarrow> (\<exists>x \<in> set tr. reserves (n_ID n) cid idxs x))"
proof (cases "cq_GPUCount req = 0")
  case True
  with assms show ?thesis by (auto simp: reserve_prog_def asked_gpus_def indices_json_def)
next
  case False
  then have pos: "0 < int (unat (cq_GPUCount req))" by (simp only: of_nat_0_less_iff unat_gt_0 not_False_eq_True)
  let ?ix = "cq_GPUIndices req"
  let ?p = "if ?ix \<noteq> [] then st (AllocSpecificGPUs now (n_ID n) cid ?ix)
      (\<lambda>r. Ret (case r of Inl e \<Rightarrow> Inl e | Inr _ \<Rightarrow> Inr ?ix))
    else st (AllocGPUs now (n_ID n) cid (int (unat (cq_GPUCount req))) (n_GpuCount n)) Ret :: (sys, err + u32 list) prog"
  have p: "\<exists>x. t1 = [x] \<and> distinct is \<and> reserves (n_ID n) cid is x \<and>
      (if ?ix \<noteq> [] then is = ?ix else length is = unat (cq_GPUCount req))"
    if r: "runs ?p t1 (Inr is)" for t1 "is"
  proof (cases "?ix = []")
    case True
    with r obtain y where y: "t1 = [(y, do_sys (AllocGPUs now (n_ID n) cid (int (unat (cq_GPUCount req))) (n_GpuCount n)) y)]"
      "snd (AllocGPUs now (n_ID n) cid (int (unat (cq_GPUCount req))) (n_GpuCount n) (sy_store y)) = Inr is"
      by (auto elim!: runs_callE simp del: int_nat_eq)
    have "AllocGPUs now (n_ID n) cid (int (unat (cq_GPUCount req))) (n_GpuCount n) (sy_store y) =
        (fst (AllocGPUs now (n_ID n) cid (int (unat (cq_GPUCount req))) (n_GpuCount n) (sy_store y)), Inr is)"
      using y(2) by (simp only: prod_eq_iff fst_conv snd_conv)
    note f = AllocGPUs_Inr [OF this pos]
    have "length is = unat (cq_GPUCount req)" using f(3) by (simp only: of_nat_eq_iff)
    moreover have "reserves (n_ID n) cid is (y, do_sys (AllocGPUs now (n_ID n) cid (int (unat (cq_GPUCount req))) (n_GpuCount n)) y)"
      using f(2) by (intro reserves_add [OF f(1)]) (simp add: on_sys_alt)
    ultimately show ?thesis using y(1) f(1) True by (auto simp: reservable_def)
  next
    case ix: False
    with r obtain y where y: "t1 = [(y, do_sys (AllocSpecificGPUs now (n_ID n) cid ?ix) y)]" "is = ?ix"
      "\<exists>u. snd (AllocSpecificGPUs now (n_ID n) cid ?ix (sy_store y)) = Inr u"
      by (auto elim!: runs_callE split: sum.splits)
    then obtain s' u where "AllocSpecificGPUs now (n_ID n) cid ?ix (sy_store y) = (s', Inr u)"
      by (metis prod.collapse)
    note f = AllocSpecificGPUs_Inr [OF this] this
    have "reserves (n_ID n) cid is (y, do_sys (AllocSpecificGPUs now (n_ID n) cid ?ix) y)"
      using f y(2) by (auto intro!: reserves_add simp: on_sys_alt)
    with f(1) y ix show ?thesis by (auto simp: reservable_def)
  qed
  from assms False obtain t1 t2 r where r: "tr = t1 @ t2" "runs ?p t1 r"
    "runs (case r of
            Inl e \<Rightarrow> Ret (Inl (JSON (if is_conflict e then 409 else 500) (BError (err_Error e))))
          | Inr idxs \<Rightarrow>
              if idxs = [] then Ret (Inr ([], []))
              else
                (let j = render (JArr (map json_u32 idxs)) in
                 st (UpdateContainerGPUIndices now cid j) (\<lambda>r. Ret (case r of
                    Inl e \<Rightarrow> Inl (JSON 500 (BError (''persist gpu indices: '' @ err_Error e)))
                  | Inr _ \<Rightarrow> Inr (idxs, j))))) t2 (Inr (idxs, j))"
    unfolding reserve_prog_def by (auto elim!: runs_bindE simp del: render.simps)
  then have "r = Inr idxs \<and> j = indices_json idxs"
    by (auto simp: Let_def indices_json_def simp del: render.simps elim!: runs_callE split: sum.splits if_splits)
  with p [of t1 idxs] r(1,2) False show ?thesis
    by (auto simp: asked_gpus_def)
qed

text \<open>The other calls: the port, the row, the route and the command.\<close>

definition takes_port :: "u32 \<Rightarrow> string \<Rightarrow> sys \<times> sys \<Rightarrow> bool" where
  "takes_port p cid = (\<lambda>(y, y'). p \<notin> p_port ` set (st_ports (sy_store y)) \<and>
     st_ports (sy_store y') = st_ports (sy_store y) @ [\<lparr>p_port = p, p_container = cid\<rparr>])"

definition inserts :: "container \<Rightarrow> sys \<times> sys \<Rightarrow> bool" where
  "inserts cc = (\<lambda>(y, y'). c_ID cc \<notin> c_ID ` set (st_containers (sy_store y)) \<and>
     c_NodeID cc \<in> n_ID ` set (st_nodes (sy_store y)) \<and>
     st_containers (sy_store y') = st_containers (sy_store y) @ [cc])"

definition routes_to :: "u32 \<Rightarrow> route \<Rightarrow> sys \<times> sys \<Rightarrow> bool" where
  "routes_to p r = (\<lambda>(y, y'). map_of (px_routes (sy_proxy y')) p = Some r)"

definition commands :: "nat \<Rightarrow> master_message \<Rightarrow> sys \<times> sys \<Rightarrow> bool" where
  "commands stream msg = (\<lambda>(y, y'). map_of (mg_broken (sy_mgr y)) stream = None \<and>
     mg_sent (sy_mgr y') = mg_sent (sy_mgr y) @ [(stream, msg)])"

lemma port_runs:
  assumes "runs (port_prog cid req ports) tr (Inr ext)"
  shows "if cq_ExternalPort req = 0 \<and> ports \<noteq> []
    then 30000 \<le> ext \<and> ext \<le> 32767 \<and> (\<exists>x \<in> set tr. takes_port ext cid x) else ext = cq_ExternalPort req"
proof (cases "cq_ExternalPort req = 0 \<and> ports \<noteq> []")
  case True
  with assms obtain y s where "tr = [(y, y\<lparr>sy_mgr := (sy_mgr y)\<lparr>mg_store := s\<rparr>\<rparr>)]"
    and a: "AllocPort 30000 32767 cid (sy_store y) = Some (s, Inr ext)"
    by (auto simp: port_prog_def elim!: runs_call_optE)
  moreover have "30000 \<le> ext" "ext \<le> 32767" "ext \<notin> p_port ` set (st_ports (sy_store y))"
    "tables s = tables (add_port ext cid (sy_store y))"
    using AllocPort_Inr [OF a] AllocPort_smallest [OF a] by auto
  ultimately show ?thesis using True by (simp add: takes_port_def tables_eq_iff)
qed (use assms in \<open>auto simp: port_prog_def\<close>)

lemma place_runs:
  assumes "runs (place_prog ev req n) tr (Inr (cc, idxs))"
  shows "\<exists>t1 x t2. tr = t1 @ x # t2 \<and> inserts (cc\<lparr>c_GPUIndicesJSON := []\<rparr>) x \<and>
    c_ID cc = newContainerID (ev_id ev) \<and> c_NodeID cc = n_ID n \<and> c_State cc = ''starting'' \<and>
    c_GPUIndicesJSON cc = indices_json idxs \<and> asked_gpus req idxs \<and>
    (idxs \<noteq> [] \<longrightarrow> (\<exists>z \<in> set t2. reserves (n_ID n) (c_ID cc) idxs z)) \<and>
    (if cq_ExternalPort req = 0 \<and> cq_PortMappings req \<noteq> []
     then 30000 \<le> c_ExternalPort cc \<and> c_ExternalPort cc \<le> 32767 \<and>
       (\<exists>z \<in> set t1. takes_port (c_ExternalPort cc) (c_ID cc) z)
     else c_ExternalPort cc = cq_ExternalPort req)"
proof -
  define cid where "cid = newContainerID (ev_id ev)"
  define ports where "ports = portMappingsToProto (cq_PortMappings req)"
  define new where "new ext = new_container cid (n_ID n) req ports (container_name ev req) ext" for ext
  have ports: "ports = [] \<longleftrightarrow> cq_PortMappings req = []" by (simp add: ports_def portMappingsToProto_def)
  from assms obtain t1 ext y t2 cc0 j where r: "runs (port_prog cid req ports) t1 (Inr ext)"
    "snd (InsertContainer (ev_now ev) (new ext) (sy_store y)) = Inr cc0"
    "runs (reserve_prog (ev_now ev) cid n req) t2 (Inr (idxs, j))" "cc = cc0\<lparr>c_GPUIndicesJSON := j\<rparr>"
    "tr = t1 @ (y, do_sys (InsertContainer (ev_now ev) (new ext)) y) # t2"
    unfolding place_prog_def Let_def cid_def [symmetric] ports_def [symmetric] new_def [symmetric]
    by (auto elim!: runs_bindE runs_callE runs_whenE split: sum.splits)
  have "InsertContainer (ev_now ev) (new ext) (sy_store y) =
      (fst (InsertContainer (ev_now ev) (new ext) (sy_store y)), Inr cc0)"
    using r(2) by (simp add: prod_eq_iff)
  note i = InsertContainer_Inr [OF this]
  have cc: "cc\<lparr>c_GPUIndicesJSON := []\<rparr> = cc0" "c_ID cc = newContainerID (ev_id ev)" "c_NodeID cc = n_ID n"
    "c_ExternalPort cc = ext" "c_State cc = ''starting''" "c_GPUIndicesJSON cc = j" "c_ID (new ext) = cid"
    "c_NodeID (new ext) = n_ID n"
    using i(1) r(4) by (simp_all add: new_def new_container_def filled_def cid_def)
  have "inserts cc0 (y, do_sys (InsertContainer (ev_now ev) (new ext)) y)"
    using i cc by (simp add: inserts_def on_sys_alt tables_eq_iff)
  then show ?thesis
    using reserve_runs [OF r(3)] port_runs [OF r(1)] r(5)
    unfolding cc cid_def [symmetric] ports
    by - (rule exI [of _ t1], rule exI [of _ "(y, do_sys (InsertContainer (ev_now ev) (new ext)) y)"],
      rule exI [of _ t2], simp only: simp_thms, auto)
qed

lemma hand_off_runs:
  assumes "runs (hand_off_prog ev req n sess (cc, idxs)) tr rsp" and "is_created rsp"
  shows "rsp = JSON 200 (BCreated cc (n_ID n) (n_Name n) (externalURL (ev_host ev) (c_ExternalPort cc))
      (if idxs \<noteq> [] then Some idxs else None)) \<and>
    (\<exists>t x. tr = t @ [x] \<and> commands (se_stream sess) (create_message (c_ID cc) req
        (portMappingsToProto (cq_PortMappings req)) (container_name ev req) idxs) x \<and>
      (c_ExternalPort cc \<noteq> 0 \<and> cq_PortMappings req \<noteq> [] \<longrightarrow> (\<exists>z \<in> set t. routes_to (c_ExternalPort cc)
        (route_of (c_ID cc) (n_ID n) (portMappingsToProto (cq_PortMappings req))) z)))"
proof -
  let ?ports = "portMappingsToProto (cq_PortMappings req)" and ?ext = "c_ExternalPort cc"
  let ?b = "?ext \<noteq> 0 \<and> ?ports \<noteq> []"
  let ?msg = "create_message (c_ID cc) req ?ports (container_name ev req) idxs"
  have ports: "?ports \<noteq> [] \<longleftrightarrow> cq_PortMappings req \<noteq> []" by (simp add: portMappingsToProto_def)
  define rest where "rest = call (sys_send sess ?msg) (\<lambda>r. case r of
               Inl e \<Rightarrow> cleanup_prog (cq_GPUCount req > 0) (c_ID cc) ?ext (JSON 500 (BError (''send create: '' @ err_Error e)))
             | Inr _ \<Rightarrow> Ret (JSON 200 (BCreated cc (n_ID n) (n_Name n)
                 (externalURL (ev_host ev) ?ext) (if idxs \<noteq> [] then Some idxs else None))))"
  let ?add = "add_route ?ext (c_ID cc) (n_ID n) (pm_host_port (hd ?ports))"
  have h: "runs (when_act ?b ?add (bind_port ?b (ev_listen ev) ?ext rest)) tr rsp"
    using assms(1) by (simp only: hand_off_prog_def Let_def rest_def prod.case)
  have "\<exists>t t2. tr = t @ t2 \<and> runs rest t2 rsp \<and> (?b \<longrightarrow> (\<exists>z \<in> set t. routes_to ?ext
      (route_of (c_ID cc) (n_ID n) ?ports) z))"
  proof (cases ?b)
    case True
    have "runs (act ?add (bind_port ?b (ev_listen ev) ?ext rest)) tr rsp" using h unfolding when_act_def if_P [OF True] .
    then obtain y tr' where "tr = (y, ?add y) # tr'" and b: "runs (bind_port ?b (ev_listen ev) ?ext rest) tr' rsp"
      by (rule runs_actE)
    moreover from b obtain t1 t2 where "tr' = t1 @ t2" "runs rest t2 rsp" by (rule runs_bind_portE)
    ultimately have "tr = ((y, ?add y) # t1) @ t2 \<and> runs rest t2 rsp" by simp
    moreover have "routes_to ?ext (route_of (c_ID cc) (n_ID n) ?ports) (y, ?add y)"
      by (simp add: routes_to_def add_route_def RegisterRoute_def route_of_def update_conv')
    then have "\<exists>x \<in> set ((y, ?add y) # t1). routes_to ?ext (route_of (c_ID cc) (n_ID n) ?ports) x" by simp
    ultimately show ?thesis by blast
  next
    case False
    have "runs rest tr rsp" using h unfolding when_act_def bind_port_def if_not_P [OF False] .
    with False show ?thesis by (intro exI [of _ "[]"] exI [of _ tr]) simp
  qed
  then obtain t t2 where t: "tr = t @ t2" "runs rest t2 rsp"
    "?b \<longrightarrow> (\<exists>z \<in> set t. routes_to ?ext (route_of (c_ID cc) (n_ID n) ?ports) z)" by blast
  from t(2) obtain y t3 where y: "t2 = (y, fst (sys_send sess ?msg y)) # t3"
    "runs (case snd (sys_send sess ?msg y) of
               Inl e \<Rightarrow> cleanup_prog (cq_GPUCount req > 0) (c_ID cc) ?ext (JSON 500 (BError (''send create: '' @ err_Error e)))
             | Inr _ \<Rightarrow> Ret (JSON 200 (BCreated cc (n_ID n) (n_Name n)
                 (externalURL (ev_host ev) ?ext) (if idxs \<noteq> [] then Some idxs else None)))) t3 rsp"
    unfolding rest_def by (rule runs_callE)
  show ?thesis
  proof (cases "map_of (mg_broken (sy_mgr y)) (se_stream sess)")
    case (Some m)
    with y(2) assms(2) show ?thesis
      by (auto simp: sys_send_broken cleanup_prog_def elim!: runs_whenE runs_actE)
  next
    case None
    with y have "commands (se_stream sess) ?msg (y, fst (sys_send sess ?msg y))" "t3 = []"
      "rsp = JSON 200 (BCreated cc (n_ID n) (n_Name n) (externalURL (ev_host ev) ?ext) (if idxs \<noteq> [] then Some idxs else None))"
      by (auto simp: sys_send_ok commands_def)
    with t(1,3) y(1) ports show ?thesis by blast
  qed
qed

text \<open>C3. What the answer 200 of a create means when any other threads run in between. Among the calls of
  its own there is one that inserted the row, fresh at that moment and on an existing node; before
  it, when the port was left open, one that took a free port of the range; after it, one that took
  exactly the GPUs asked for, together, at a moment when nobody held them; then one that set the
  route; and the last one sent the command, with the same indices, on the stream of the session that
  the node had when the request looked it up.\<close>

theorem create_in_company:
  assumes "runs (create_prog ev (Inr req0)) tr (JSON code (BCreated cc nid nm url g))"
  shows "\<exists>req idxs sess t1 t2 t3 ins fin. check_indices req0 = Inr req \<and> code = 200 \<and>
    g = (if idxs \<noteq> [] then Some idxs else None) \<and> tr = t1 @ ins # t2 @ t3 @ [fin] \<and>
    (\<exists>(y, y') \<in> set t1. Get nid (sy_mgr y) = Some sess) \<and>
    (cq_ExternalPort req = 0 \<and> cq_PortMappings req \<noteq> [] \<longrightarrow>
      30000 \<le> c_ExternalPort cc \<and> c_ExternalPort cc \<le> 32767 \<and> (\<exists>x \<in> set t1. takes_port (c_ExternalPort cc) (c_ID cc) x)) \<and>
    c_ID cc = newContainerID (ev_id ev) \<and> c_NodeID cc = nid \<and> c_State cc = ''starting'' \<and>
    inserts (cc\<lparr>c_GPUIndicesJSON := []\<rparr>) ins \<and>
    asked_gpus req idxs \<and> (idxs \<noteq> [] \<longrightarrow> (\<exists>x \<in> set t2. reserves nid (c_ID cc) idxs x)) \<and>
    (c_ExternalPort cc \<noteq> 0 \<and> cq_PortMappings req \<noteq> [] \<longrightarrow> (\<exists>x \<in> set t3. routes_to (c_ExternalPort cc)
      (route_of (c_ID cc) nid (portMappingsToProto (cq_PortMappings req))) x)) \<and>
    commands (se_stream sess) (create_message (c_ID cc) req
      (portMappingsToProto (cq_PortMappings req)) (container_name ev req) idxs) fin"
proof -
  let ?rsp = "JSON code (BCreated cc nid nm url g)"
  let ?go = "\<lambda>req n. look_up (n_ID n) (\<lambda>s. case s of
              None \<Rightarrow> Ret (JSON 400 (BError ''target node not online''))
            | Some sess \<Rightarrow> create_on_prog ev req n sess)"
  have "cq_Image req0 \<noteq> []" using assms by (auto simp: create_prog_def JSON_def)
  with assms obtain req where req: "check_indices req0 = Inr req"
    by (cases "check_indices req0") (auto simp: create_prog_def JSON_def)
  with assms \<open>cq_Image req0 \<noteq> []\<close>
  have "runs (bind_prog (pick_prog req) (\<lambda>r. case r of Inl rsp \<Rightarrow> Ret rsp | Inr n \<Rightarrow> ?go req n)) tr ?rsp"
    by (simp add: create_prog_def)
  then obtain t1 t2 r where r: "tr = t1 @ t2" "runs (pick_prog req) t1 r"
    "runs (case r of Inl rsp \<Rightarrow> Ret rsp | Inr n \<Rightarrow> ?go req n) t2 ?rsp" by (rule runs_bindE)
  then obtain n where "r = Inr n" by (cases r) (auto dest: pick_refuses)
  with r have "tr = t1 @ t2" "runs (?go req n) t2 ?rsp" by simp_all
  then obtain y sess t3 where t: "tr = t1 @ (y, y) # t3" "Get (n_ID n) (sy_mgr y) = Some sess"
    "runs (create_on_prog ev req n sess) t3 ?rsp"
    by (auto simp: JSON_def elim!: runs_lookupE split: option.splits)
  then obtain t4 cc0 idxs t5 where "t3 = t4 @ t5" "runs (place_prog ev req n) t4 (Inr (cc0, idxs))"
    "runs (hand_off_prog ev req n sess (cc0, idxs)) t5 ?rsp"
    unfolding create_on_prog_def by (auto elim!: runs_bindE dest!: place_refuses split: sum.splits)
  moreover have "cc0 = cc" "nid = n_ID n" "code = 200" "g = (if idxs \<noteq> [] then Some idxs else None)"
    using hand_off_runs [OF calculation(3) is_created_simps(1)] by (simp_all add: JSON_def)
  moreover obtain u1 ins u2 where "t4 = u1 @ ins # u2" "inserts (cc0\<lparr>c_GPUIndicesJSON := []\<rparr>) ins \<and>
    c_ID cc0 = newContainerID (ev_id ev) \<and> c_NodeID cc0 = n_ID n \<and> c_State cc0 = ''starting'' \<and>
    c_GPUIndicesJSON cc0 = indices_json idxs \<and> asked_gpus req idxs \<and>
    (idxs \<noteq> [] \<longrightarrow> (\<exists>z \<in> set u2. reserves (n_ID n) (c_ID cc0) idxs z)) \<and>
    (if cq_ExternalPort req = 0 \<and> cq_PortMappings req \<noteq> []
     then 30000 \<le> c_ExternalPort cc0 \<and> c_ExternalPort cc0 \<le> 32767 \<and>
       (\<exists>z \<in> set u1. takes_port (c_ExternalPort cc0) (c_ID cc0) z)
     else c_ExternalPort cc0 = cq_ExternalPort req)"
    using place_runs [OF calculation(2)] by blast
  moreover obtain u3 z where "t5 = u3 @ [z]" "commands (se_stream sess) (create_message (c_ID cc0) req
        (portMappingsToProto (cq_PortMappings req)) (container_name ev req) idxs) z"
      "c_ExternalPort cc0 \<noteq> 0 \<and> cq_PortMappings req \<noteq> [] \<longrightarrow> (\<exists>z \<in> set u3. routes_to (c_ExternalPort cc0)
        (route_of (c_ID cc0) (n_ID n) (portMappingsToProto (cq_PortMappings req))) z)"
    using hand_off_runs [OF calculation(3) is_created_simps(1)] by auto
  ultimately show ?thesis using req t(1,2)
    by - (rule exI [of _ req], rule exI [of _ idxs], rule exI [of _ sess], rule exI [of _ "t1 @ (y, y) # u1"],
      rule exI [of _ u2], rule exI [of _ u3], rule exI [of _ ins], rule exI [of _ z], auto)
qed

lemma create_in_company_witness:
  "\<exists>tr cc url g. runs (create_prog ex_env (Inr ex_req)) tr (JSON 200 (BCreated cc ''n1'' ''alpha'' url g)) \<and>
     (\<exists>x \<in> set tr. inserts (cc\<lparr>c_GPUIndicesJSON := []\<rparr>) x) \<and> c_State cc = ''starting''"
proof -
  obtain y' cc url g where "createContainer ex_env (Inr ex_req) ex_sys =
    Some (y', JSON 200 (BCreated cc ''n1'' ''alpha'' url g))" using ex_created by blast
  then have "run (create_prog ex_env (Inr ex_req)) ex_sys = Some (y', JSON 200 (BCreated cc ''n1'' ''alpha'' url g))"
    by (simp add: run_create)
  then obtain tr where tr: "runs (create_prog ex_env (Inr ex_req)) tr (JSON 200 (BCreated cc ''n1'' ''alpha'' url g))"
    by (rule runs_alone [THEN exE])
  from create_in_company [OF tr] obtain t1 ins t2 t3 fin where "tr = t1 @ ins # t2 @ t3 @ [fin]"
    "inserts (cc\<lparr>c_GPUIndicesJSON := []\<rparr>) ins" "c_State cc = ''starting''"
    by (elim exE conjE) (rule that; assumption)
  moreover from this(1) have "ins \<in> set tr" by simp
  ultimately show ?thesis using tr by blast
qed

end
