(* ===== verification/AgentStart.thy ===== *)
theory AgentStart
  imports Json
begin

text \<open>
  How the agent starts: its arguments and environment (\<open>internal/cmd/agent/agent.go\<close>), its
  configuration (\<open>internal/agent/config/config.go\<close>) and the machine id it keeps in its state
  directory (\<open>internal/agent/identity/identity.go\<close>). The YAML library is an argument; the state
  directory is a small file system in which every call can fail.
\<close>

section \<open>Paths\<close>

text \<open>\<open>filepath.Clean\<close> works on the elements between slashes: empty ones and \<open>.\<close> go, \<open>..\<close> removes
  the element before it, and the root's parent is the root.\<close>

fun split_slash :: "string \<Rightarrow> string \<Rightarrow> string list" where
  "split_slash acc [] = [rev acc]"
| "split_slash acc (c # cs) =
     (if c = CHR ''/'' then rev acc # split_slash [] cs else split_slash (c # acc) cs)"

fun clean_elems :: "bool \<Rightarrow> string list \<Rightarrow> string list \<Rightarrow> string list" where
  "clean_elems rooted out [] = rev out"
| "clean_elems rooted out (e # es) =
     (if e = [] \<or> e = ''.'' then clean_elems rooted out es
      else if e = ''..'' then
        (if out \<noteq> [] \<and> hd out \<noteq> ''..'' then clean_elems rooted (tl out) es
         else if rooted then clean_elems rooted out es
         else clean_elems rooted (e # out) es)
      else clean_elems rooted (e # out) es)"

fun sep_slash :: "string list \<Rightarrow> string" where
  "sep_slash [] = []"
| "sep_slash [e] = e"
| "sep_slash (e # es) = e @ ''/'' @ sep_slash es"

definition filepath_Clean :: "string \<Rightarrow> string" where
  "filepath_Clean p =
     (if p = [] then ''.''
      else
        (let rooted = hasPrefix p ''/''; es = clean_elems rooted [] (split_slash [] p)
         in if rooted then ''/'' @ sep_slash es else if es = [] then ''.'' else sep_slash es))"

definition filepath_Join :: "string list \<Rightarrow> string" where
  "filepath_Join elems =
     (case dropWhile (\<lambda>e. e = []) elems of
        [] \<Rightarrow> []
      | es \<Rightarrow> filepath_Clean (sep_slash [e \<leftarrow> es. e \<noteq> []]))"

section \<open>Configuration\<close>

datatype agent_file = AbsentFile | UnreadableFile string | FileText string

record agent_config =
  af_Master :: string
  af_Name :: string
  af_StateDir :: string
  af_DockerSock :: string
  af_ContainerPollInterval :: string
  af_DockerEvents :: "bool option"

definition DefaultPath_agent :: string where
  "DefaultPath_agent = ''/etc/pp/pp-agent.yaml''"

definition DefaultMaster :: string where
  "DefaultMaster = ''pp-master.internal:7000''"

definition defaults_agent :: agent_config where
  "defaults_agent = \<lparr>af_Master = DefaultMaster, af_Name = [], af_StateDir = [], af_DockerSock = [],
     af_ContainerPollInterval = [], af_DockerEvents = None\<rparr>"

definition applyDefaults_agent :: "agent_config \<Rightarrow> agent_config" where
  "applyDefaults_agent c = (if af_Master c = [] then c\<lparr>af_Master := DefaultMaster\<rparr> else c)"

definition Load_agent ::
  "(string \<Rightarrow> agent_file) \<Rightarrow> (string \<Rightarrow> agent_config \<Rightarrow> string + agent_config) \<Rightarrow> string \<Rightarrow>
     string + agent_config \<times> bool" where
  "Load_agent readFile yaml path =
     (let path = (if path = [] then DefaultPath_agent else path); cfg = defaults_agent in
      case readFile path of
        AbsentFile \<Rightarrow> Inr (cfg, False)
      | UnreadableFile e \<Rightarrow> Inl (''read '' @ path @ '': '' @ e)
      | FileText b \<Rightarrow>
          (case yaml b cfg of
             Inl e \<Rightarrow> Inl (''parse '' @ path @ '': '' @ e)
           | Inr cfg' \<Rightarrow> Inr (applyDefaults_agent cfg', True)))"

definition DockerEventsEnabled :: "agent_config \<Rightarrow> bool" where
  "DockerEventsEnabled c = (case af_DockerEvents c of None \<Rightarrow> True | Some b \<Rightarrow> b)"

section \<open>Arguments and environment\<close>

datatype agent_args = Fatal string | Help | ConfigPath string

fun agent_arg_loop :: "string \<Rightarrow> string list \<Rightarrow> agent_args" where
  "agent_arg_loop cfg [] = ConfigPath cfg"
| "agent_arg_loop cfg (a # args) =
     (if a = ''--config'' then
        (case args of
           [] \<Rightarrow> Fatal ''pp agent: --config requires a path argument''
         | p # rest \<Rightarrow> agent_arg_loop p rest)
      else if hasPrefix a ''--config='' then agent_arg_loop (trimPrefix a ''--config='') args
      else if a = ''-h'' \<or> a = ''--help'' then Help
      else Fatal (''pp agent: unknown argument '' @ quote a @ '' (the only flag is --config)''))"

text \<open>\<open>env\<close> is \<open>os.Getenv\<close>: an unset variable is the empty string.\<close>

definition agent_config_path :: "(string \<Rightarrow> string) \<Rightarrow> string list \<Rightarrow> agent_args" where
  "agent_config_path env args =
     (case agent_arg_loop (env ''PP_CONFIG'') args of
        ConfigPath p \<Rightarrow> ConfigPath (if p = [] then DefaultPath_agent else p)
      | r \<Rightarrow> r)"

definition resolveDockerSock :: "(string \<Rightarrow> string) \<Rightarrow> string \<Rightarrow> string" where
  "resolveDockerSock env fromYAML =
     (if fromYAML \<noteq> [] then fromYAML
      else if env ''DOCKER_SOCK'' \<noteq> [] then env ''DOCKER_SOCK''
      else if env ''DOCKER_HOST'' \<noteq> [] \<and> hasPrefix (env ''DOCKER_HOST'') ''unix://''
      then trimPrefix (env ''DOCKER_HOST'') ''unix://''
      else ''/var/run/docker.sock'')"

text \<open>\<open>home\<close> is \<open>os.UserHomeDir\<close> (\<open>None\<close>: it fails).\<close>

definition defaultStateDir :: "string \<Rightarrow> (string \<Rightarrow> string) \<Rightarrow> string option \<Rightarrow> string" where
  "defaultStateDir goos env home =
     (if goos = ''linux'' then ''/var/lib/pp-agent''
      else if env ''XDG_STATE_HOME'' \<noteq> [] then filepath_Join [env ''XDG_STATE_HOME'', ''pumpkinpie'']
      else case home of
             Some h \<Rightarrow> filepath_Join [h, ''.local'', ''state'', ''pumpkinpie'']
           | None \<Rightarrow> ''.pp-agent'')"

section \<open>Machine identity\<close>

text \<open>
  The state directory: its entries, and the script of failures, one entry per system call
  (\<open>Some m\<close> fails with text \<open>m\<close> and changes nothing, except \<open>WriteString\<close>, which may have written
  a part). Names are those inside the directory; \<open>CreateTemp\<close> picks a name that does not exist.
\<close>

record state_dir =
  sd_files :: "(string \<times> string) list"
  sd_faults :: "string option list"

definition syscall :: "state_dir \<Rightarrow> state_dir \<times> string option" where
  "syscall d = (case sd_faults d of [] \<Rightarrow> (d, None) | f # fs \<Rightarrow> (d\<lparr>sd_faults := fs\<rparr>, f))"

definition id_file :: string where "id_file = ''machine-id''"

definition put_file :: "string \<Rightarrow> string \<Rightarrow> state_dir \<Rightarrow> state_dir" where
  "put_file n t d = d\<lparr>sd_files := AList.update n t (sd_files d)\<rparr>"

definition remove_file :: "string \<Rightarrow> state_dir \<Rightarrow> state_dir" where
  "remove_file n d =
     (case syscall d of (d1, Some e) \<Rightarrow> d1 | (d1, None) \<Rightarrow> d1\<lparr>sd_files := AList.delete n (sd_files d1)\<rparr>)"

definition generate :: "string + byte list \<Rightarrow> string + string" where
  "generate rnd = (case rnd of Inl e \<Rightarrow> Inl (''rand: '' @ e) | Inr b \<Rightarrow> Inr (hex_encode b))"

text \<open>\<open>tmp\<close> is the temporary name and \<open>part\<close> how much of a failing write reaches the file. The result
  is the error, if any.\<close>

definition writeAtomic ::
  "string \<Rightarrow> nat \<Rightarrow> string \<Rightarrow> string \<Rightarrow> state_dir \<Rightarrow> state_dir \<times> string option" where
  "writeAtomic tmp part path content d =
     (case syscall d of
        (d1, Some e) \<Rightarrow> (d1, Some (''create temp: '' @ e))
      | (d1, None) \<Rightarrow>
     (let d1 = put_file tmp [] d1; text = content @ [CHR 0x0A] in
      case syscall d1 of
        (d2, Some e) \<Rightarrow>
          (remove_file tmp (fst (syscall (put_file tmp (take part text) d2))), Some (''write temp: '' @ e))
      | (d2, None) \<Rightarrow>
     (let d2 = put_file tmp text d2 in
      case syscall d2 of
        (d3, Some e) \<Rightarrow> (remove_file tmp (fst (syscall d3)), Some (''chmod temp: '' @ e))
      | (d3, None) \<Rightarrow>
     (case syscall d3 of
        (d4, Some e) \<Rightarrow> (remove_file tmp d4, Some (''close temp: '' @ e))
      | (d4, None) \<Rightarrow>
     (case syscall d4 of
        (d5, Some e) \<Rightarrow> (remove_file tmp d5, Some (''rename to '' @ path @ '': '' @ e))
      | (d5, None) \<Rightarrow>
          (d5\<lparr>sd_files := AList.update id_file text (AList.delete tmp (sd_files d5))\<rparr>, None))))))"

definition Load_identity ::
  "string \<Rightarrow> nat \<Rightarrow> string + byte list \<Rightarrow> string \<Rightarrow> state_dir \<Rightarrow> state_dir \<times> (string + string)" where
  "Load_identity tmp part rnd stateDir d =
     (if stateDir = [] then (d, Inl ''state dir is empty'')
      else
     (case syscall d of
        (d1, Some e) \<Rightarrow> (d1, Inl (''mkdir '' @ stateDir @ '': '' @ e))
      | (d1, None) \<Rightarrow>
     (let path = filepath_Join [stateDir, id_file];
          fresh = (\<lambda>d. case generate rnd of
             Inl e \<Rightarrow> (d, Inl e)
           | Inr mid \<Rightarrow>
               (case writeAtomic tmp part path mid d of
                  (d', Some e) \<Rightarrow> (d', Inl e)
                | (d', None) \<Rightarrow> (d', Inr mid)))
      in case syscall d1 of
           (d2, Some e) \<Rightarrow> (d2, Inl (''read '' @ path @ '': '' @ e))
         | (d2, None) \<Rightarrow>
             (case map_of (sd_files d2) id_file of
                Some b \<Rightarrow> if trimSpace b \<noteq> [] then (d2, Inr (trimSpace b)) else fresh d2
              | None \<Rightarrow> fresh d2))))"

section \<open>Facts\<close>

lemma syscall_files [simp]: "sd_files (fst (syscall d)) = sd_files d"
  by (simp add: syscall_def split: list.split)

lemma syscall_filesD: "syscall d = (d', r) \<Longrightarrow> sd_files d' = sd_files d"
  by (metis fst_conv syscall_files)

lemma remove_file_other: "n \<noteq> k \<Longrightarrow> map_of (sd_files (remove_file n d)) k = map_of (sd_files d) k"
  by (auto simp: remove_file_def split: prod.split option.split dest: syscall_filesD)

lemma put_file_files [simp]: "map_of (sd_files (put_file n t d)) = (map_of (sd_files d))(n \<mapsto> t)"
  by (simp add: put_file_def)

lemma writeAtomic_cases:
  assumes "tmp \<noteq> id_file" and "writeAtomic tmp part path content d = (d', r)"
  shows "map_of (sd_files d') id_file =
    (if r = None then Some (content @ [CHR 0x0A]) else map_of (sd_files d) id_file)"
proof -
  let ?text = "content @ [CHR 0x0A]"
  obtain d1 e1 where 1: "syscall d = (d1, e1)" by force
  obtain d2 e2 where 2: "syscall (put_file tmp [] d1) = (d2, e2)" by force
  obtain d3 e3 where 3: "syscall (put_file tmp ?text d2) = (d3, e3)" by force
  obtain d4 e4 where 4: "syscall d3 = (d4, e4)" by force
  obtain d5 e5 where 5: "syscall d4 = (d5, e5)" by force
  note f = 1 [THEN syscall_filesD] 2 [THEN syscall_filesD] 3 [THEN syscall_filesD] 4 [THEN syscall_filesD]
    5 [THEN syscall_filesD]
  note w = assms(2) [unfolded writeAtomic_def Let_def 1 prod.case]
  show ?thesis
  proof (cases e1)
    case None
    show ?thesis
    proof (cases e2)
      case None2: None
      show ?thesis
        using w assms(1) f None None2
        by (cases e3; cases e4; cases e5) (auto simp: 2 3 4 5 remove_file_other)
    next
      case (Some m)
      then show ?thesis using w assms(1) f None by (auto simp: 2 remove_file_other)
    qed
  next
    case (Some m)
    then show ?thesis using w f by auto
  qed
qed

lemma spaces_not_hex: "e \<in> set go_spaces \<Longrightarrow> e \<noteq> [] \<and> hd e \<notin> set hex_digits \<and> last e \<notin> set hex_digits"
  by (auto simp: go_spaces_def hex_digits_def)

lemma trimSpace_hex_line:
  assumes "b \<noteq> []" shows "trimSpace (hex_encode b @ [CHR 0x0A]) = hex_encode b"
proof -
  let ?h = "hex_encode b"
  have ne: "?h \<noteq> []" using assms by simp
  have hd: "hd ?h \<in> set hex_digits" and last: "last ?h \<in> set hex_digits"
    using set_hex_encode ne hd_in_set last_in_set by blast+
  have "\<not> hasPrefix (?h @ t) e" if "e \<in> set go_spaces" for e t
    using spaces_not_hex [OF that] hd ne by (metis hasPrefix_iff hd_append2)
  then have 1: "trim_left go_spaces (?h @ t) = ?h @ t" for t
    by (intro trim_left_idle) blast
  have "\<not> hasPrefix (rev ?h) (rev e)" if "e \<in> set go_spaces" for e
    using spaces_not_hex [OF that] last ne by (metis hasPrefix_iff hd_append2 hd_rev rev_is_Nil_conv)
  then have 2: "trim_left (map rev go_spaces) (rev ?h) = rev ?h"
    by (intro trim_left_idle) auto
  have "find (\<lambda>e. e \<noteq> [] \<and> hasPrefix (CHR 0x0A # rev ?h) e) (map rev go_spaces) = Some [CHR 0x0A]"
    by (simp add: go_spaces_def hasPrefix_def)
  then have 3: "trim_left (map rev go_spaces) (CHR 0x0A # rev ?h) = trim_left (map rev go_spaces) (rev ?h)"
    by (subst trim_left.simps) simp
  show ?thesis by (simp add: trimSpace_def 1 3) (simp add: 2)
qed

text \<open>What loading the identity leaves in the directory.\<close>

lemma Load_identity_ok:
  assumes "tmp \<noteq> id_file" and "b \<noteq> []" and "Load_identity tmp part (Inr b) dir d = (d', Inr mid)"
  shows "\<exists>t. map_of (sd_files d') id_file = Some t \<and> trimSpace t = mid \<and> mid \<noteq> []"
proof -
  obtain d1 e1 where 1: "syscall d = (d1, e1)" by force
  obtain d2 e2 where 2: "syscall d1 = (d2, e2)" by force
  obtain d3 r3 where 3: "writeAtomic tmp part (filepath_Join [dir, id_file]) (hex_encode b) d2 = (d3, r3)"
    by force
  note w = writeAtomic_cases [OF assms(1) 3] and l = assms(3) [unfolded Load_identity_def Let_def 1 prod.case 2]
  have "e1 = None" "e2 = None" using l by (auto split: if_splits option.splits)
  with l show ?thesis
    using w trimSpace_hex_line [OF assms(2)] assms(2)
    by (auto simp: generate_def 3 split: if_splits option.splits)
qed

lemma Load_identity_fails:
  assumes "tmp \<noteq> id_file" and "Load_identity tmp part rnd dir d = (d', Inl e)"
  shows "map_of (sd_files d') id_file = map_of (sd_files d) id_file"
proof -
  obtain d1 e1 where 1: "syscall d = (d1, e1)" by force
  obtain d2 e2 where 2: "syscall d1 = (d2, e2)" by force
  have w: "map_of (sd_files d3) id_file = map_of (sd_files d2) id_file"
    if "writeAtomic tmp part p c d2 = (d3, Some m)" for p c d3 m
    using writeAtomic_cases [OF assms(1) that] by simp
  have f: "sd_files d1 = sd_files d" "sd_files d2 = sd_files d"
    using syscall_filesD [OF 1] syscall_filesD [OF 2] by simp_all
  show ?thesis
    using assms(2) f w unfolding Load_identity_def Let_def 1 prod.case 2
    by (auto simp: generate_def split: if_splits option.splits sum.splits prod.splits)
qed

lemma Load_identity_known:
  assumes "sd_faults d = []" and "dir \<noteq> []" and "map_of (sd_files d) id_file = Some t" and "trimSpace t \<noteq> []"
  shows "Load_identity tmp part rnd dir d = (d, Inr (trimSpace t))"
  using assms by (simp add: Load_identity_def syscall_def Let_def)

lemma agent_arg_loop_Config:
  "agent_arg_loop cfg [''--config'', p] = ConfigPath p"
  "agent_arg_loop cfg [''--config='' @ p] = ConfigPath p"
  by (simp_all add: hasPrefix_def trimPrefix_def)

end
