(* ===== verification/Collector.thy ===== *)
theory Collector
  imports Proto "HOL-Library.List_Lexorder" "HOL-Library.Char_ord" "HOL-Library.Multiset"
begin

text \<open>
  The agent's metric collector, \<open>internal/agent/collector/collector.go\<close>: which partitions are
  reported, and what the output of \<open>nvidia-smi\<close> becomes. The values of \<open>gopsutil\<close> are arguments
  (\<open>None\<close>: the call failed), and so is the order in which Go visits a map.
\<close>

section \<open>The host\<close>

record host_stat =
  hs_Hostname :: string
  hs_OS :: string
  hs_KernelArch :: string

definition HostInfo :: "string + host_stat \<Rightarrow> string + string \<times> string \<times> string" where
  "HostInfo info =
     (case info of
        Inl e \<Rightarrow> Inl e
      | Inr h \<Rightarrow> Inr (hs_Hostname h, hs_OS h, hs_KernelArch h))"

section \<open>Partitions\<close>

record partition =
  pt_Device :: string
  pt_Mountpoint :: string
  pt_Fstype :: string

definition ignoredMountPrefixes :: "string list" where
  "ignoredMountPrefixes =
     [''/var/lib/kubelet'', ''/var/lib/docker'', ''/var/lib/containerd'', ''/var/lib/containers'',
      ''/var/lib/rancher'', ''/snap'', ''/var/snap'', ''/var/lib/snapd'', ''/boot'', ''/run'', ''/proc'',
      ''/sys'', ''/dev'', ''/System/Volumes/Preboot'', ''/System/Volumes/Update'',
      ''/System/Volumes/Update/SFR/mnt1'', ''/System/Volumes/VM'', ''/System/Volumes/Data'',
      ''/System/Volumes/xarts'', ''/System/Volumes/Hardware'', ''/System/Volumes/iSCPreboot'', ''/nix'']"

definition isIgnoredMount :: "string \<Rightarrow> bool" where
  "isIgnoredMount mp = list_ex (\<lambda>p. mp = p \<or> hasPrefix mp (p @ ''/'')) ignoredMountPrefixes"

definition ignoredFstypes :: "string list" where
  "ignoredFstypes =
     [''squashfs'', ''iso9660'', ''udf'', ''overlay'', ''overlay2'', ''aufs'', ''fuse.snapfuse'',
      ''fuse.portal'', ''fuse.gvfsd-fuse'', ''nfs'', ''nfs4'', ''cifs'', ''smbfs'', ''9p'']"

definition isIgnoredFstype :: "string \<Rightarrow> bool" where
  "isIgnoredFstype fs \<longleftrightarrow> (toLower fs \<in> set ignoredFstypes)"

definition kept :: "partition \<Rightarrow> bool" where
  "kept p \<longleftrightarrow> \<not> (isIgnoredMount (pt_Mountpoint p) \<or> isIgnoredFstype (pt_Fstype p))"

definition device_key :: "partition \<Rightarrow> string" where
  "device_key p =
     (if pt_Device p = [] then CHR 0x00 # ''mp:'' @ pt_Mountpoint p else pt_Device p)"

text \<open>The map \<open>best\<close> after the second loop.\<close>

fun best_mounts :: "(string \<times> partition) list \<Rightarrow> partition list \<Rightarrow> (string \<times> partition) list" where
  "best_mounts best [] = best"
| "best_mounts best (p # ps) =
     best_mounts
       (case map_of best (device_key p) of
          None \<Rightarrow> AList.update (device_key p) p best
        | Some cur \<Rightarrow>
            if length (pt_Mountpoint p) < length (pt_Mountpoint cur)
            then AList.update (device_key p) p best else best) ps"

text \<open>\<open>visit\<close> is the order in which the last loop ranges over the map (any permutation); together
  with it the stable sort covers every order \<open>sort.Slice\<close> may choose for equal mount points.\<close>

definition filterPartitions :: "(partition list \<Rightarrow> partition list) \<Rightarrow> partition list \<Rightarrow> partition list" where
  "filterPartitions visit parts =
     sort_key pt_Mountpoint (visit (map snd (best_mounts [] [p \<leftarrow> parts. kept p])))"

text \<open>\<open>usage m\<close> is \<open>disk.Usage\<close>: total and used bytes and the percentage.\<close>

definition diskStats ::
  "(partition list \<Rightarrow> partition list) \<Rightarrow> (string \<Rightarrow> (u64 \<times> u64 \<times> f64) option) \<Rightarrow> partition list option \<Rightarrow>
     disk_stats list" where
  "diskStats visit usage parts =
     (case parts of
        None \<Rightarrow> []
      | Some ps \<Rightarrow> List.map_filter (\<lambda>p. map_option (\<lambda>(t, u, x).
            \<lparr>ds_path = pt_Mountpoint p, ds_total_bytes = t, ds_used_bytes = u, ds_usage_percent = x\<rparr>)
            (usage (pt_Mountpoint p))) (filterPartitions visit ps))"

section \<open>CPU, memory, load\<close>

text \<open>\<open>uint32(n)\<close> of the core count keeps its low bits.\<close>

definition cpuStats :: "f64 list option \<Rightarrow> f64 list option \<Rightarrow> int option \<Rightarrow> cpu_stats" where
  "cpuStats pcts perCore counts =
     \<lparr>cs_usage_percent = (case pcts of Some (x # _) \<Rightarrow> x | _ \<Rightarrow> Fin 0),
      cs_cores = (case counts of Some n \<Rightarrow> of_int n | None \<Rightarrow> 0),
      cs_per_core_percent = (case perCore of Some xs \<Rightarrow> xs | None \<Rightarrow> [])\<rparr>"

definition memStats :: "(u64 \<times> u64 \<times> f64) option \<Rightarrow> memory_stats" where
  "memStats v =
     (case v of
        None \<Rightarrow> \<lparr>ms_total_bytes = 0, ms_used_bytes = 0, ms_usage_percent = Fin 0\<rparr>
      | Some (t, u, x) \<Rightarrow> \<lparr>ms_total_bytes = t, ms_used_bytes = u, ms_usage_percent = x\<rparr>)"

definition loadStats :: "(f64 \<times> f64 \<times> f64) option \<Rightarrow> load_avg" where
  "loadStats avg =
     (case avg of
        None \<Rightarrow> \<lparr>la_load1 = Fin 0, la_load5 = Fin 0, la_load15 = Fin 0\<rparr>
      | Some (a, b, c) \<Rightarrow> \<lparr>la_load1 = a, la_load5 = b, la_load15 = c\<rparr>)"

section \<open>GPUs\<close>

text \<open>\<open>strings.Split\<close> with a separator that is not empty.\<close>

function split_on :: "string \<Rightarrow> string \<Rightarrow> string \<Rightarrow> string list" where
  "split_on sep acc s =
     (if s = [] \<or> sep = [] then [rev acc @ s]
      else if hasPrefix s sep then rev acc # split_on sep [] (drop (length sep) s)
      else split_on sep (hd s # acc) (tl s))"
  by pat_completeness auto
termination by (relation "measure (\<lambda>(sep, acc, s). length s)") auto

declare split_on.simps [simp del]

text \<open>\<open>strconv.ParseUint(s, 10, w)\<close> with its error dropped: 0 for a text that is no number, the
  largest value for a number that does not fit.\<close>

definition parseUint :: "nat \<Rightarrow> string \<Rightarrow> nat" where
  "parseUint w s = (case atoi s of None \<Rightarrow> 0 | Some n \<Rightarrow> if n < 2 ^ w then n else 2 ^ w - 1)"

text \<open>\<open>strconv.ParseFloat\<close> with its error dropped, on decimal numbers and the special names
  (hexadecimal floats, which \<open>nvidia-smi\<close> does not print, count as no number here).\<close>

definition decimal :: "string \<Rightarrow> rat option" where
  "decimal s =
     (let (mant, ex) = split_at (\<lambda>c. c = CHR ''e'' \<or> c = CHR ''E'') s;
          (ip, fp) = split_at (\<lambda>c. c = CHR ''.'') mant;
          frac = (case fp of None \<Rightarrow> [] | Some f \<Rightarrow> f)
      in if ip @ frac = [] then None
         else case (digits_int 0 (ip @ frac), (case ex of None \<Rightarrow> Some 0 | Some x \<Rightarrow> signed_int x)) of
           (Some m, Some e) \<Rightarrow> Some (of_int m * pow10 (e - int (length frac)))
         | _ \<Rightarrow> None)"

definition parseFloat :: "string \<Rightarrow> f64" where
  "parseFloat s =
     (let neg = hasPrefix s ''-''; t = (if neg \<or> hasPrefix s ''+'' then drop 1 s else s); l = map lower_ascii t
      in if l = ''inf'' \<or> l = ''infinity'' then Inf (\<not> neg)
         else if map lower_ascii s = ''nan'' then NaN
         else case decimal t of None \<Rightarrow> Fin 0 | Some q \<Rightarrow> round64 (if neg then - q else q))"

text \<open>One line of the output (\<open>None\<close>: fewer than six fields).\<close>

definition gpu_line :: "string \<Rightarrow> gpu_device option" where
  "gpu_line line =
     (case split_on '', '' [] line of
        f0 # f1 # f2 # f3 # f4 # f5 # _ \<Rightarrow> Some
          \<lparr>gd_index = of_nat (parseUint 32 (trimSpace f0)), gd_name = trimSpace f1, gd_uuid = trimSpace f2,
           gd_usage_percent = parseFloat (trimSpace f3),
           gd_mem_used_bytes = of_nat (parseUint 64 (trimSpace f4)) * 1024 * 1024,
           gd_mem_total_bytes = of_nat (parseUint 64 (trimSpace f5)) * 1024 * 1024\<rparr>
      | _ \<Rightarrow> None)"

text \<open>The sums wrap at 64 bits; \<open>totalUsage\<close> is a signed \<open>int\<close>.\<close>

definition gpu_report :: "gpu_device list \<Rightarrow> gpu_stats" where
  "gpu_report ds =
     (let n = length ds;
          totalUsage = sint (sum_list (map (\<lambda>d. of_int (int_of_f64 (gd_usage_percent d)) :: u64) ds))
      in \<lparr>gs_count = of_nat n, gs_devices = ds,
          gs_usage_percent = (if n > 0 then f64_div (f64_of_int totalUsage) (f64_of_int (int n)) else Fin 0),
          gs_mem_used_bytes = sum_list (map gd_mem_used_bytes ds),
          gs_mem_total_bytes = sum_list (map gd_mem_total_bytes ds)\<rparr>)"

definition gpuStats :: "string option \<Rightarrow> gpu_stats" where
  "gpuStats out =
     (case out of
        None \<Rightarrow> gpu_report []
      | Some text \<Rightarrow> gpu_report (List.map_filter gpu_line (split_on [CHR 0x0A] [] (trimSpace text))))"

section \<open>The report\<close>

record host_readings =
  hr_now_ms :: int
  hr_cpu_percent :: "f64 list option"
  hr_per_core :: "f64 list option"
  hr_cpu_count :: "int option"
  hr_memory :: "(u64 \<times> u64 \<times> f64) option"
  hr_load :: "(f64 \<times> f64 \<times> f64) option"
  hr_partitions :: "partition list option"
  hr_visit :: "partition list \<Rightarrow> partition list"
  hr_usage :: "string \<Rightarrow> (u64 \<times> u64 \<times> f64) option"
  hr_nvidia_smi :: "string option"

definition Collect :: "host_readings \<Rightarrow> metric_report" where
  "Collect h =
     \<lparr>mr_ts_unix_ms = of_int (hr_now_ms h),
      mr_cpu = Some (cpuStats (hr_cpu_percent h) (hr_per_core h) (hr_cpu_count h)),
      mr_memory = Some (memStats (hr_memory h)),
      mr_disks = diskStats (hr_visit h) (hr_usage h) (hr_partitions h),
      mr_gpu = Some (gpuStats (hr_nvidia_smi h)),
      mr_load = Some (loadStats (hr_load h))\<rparr>"

section \<open>Facts on partitions\<close>

lemma best_mounts_distinct: "distinct (map fst b) \<Longrightarrow> distinct (map fst (best_mounts b ps))"
  by (induction b ps rule: best_mounts.induct) (auto simp: distinct_update split: option.splits)

lemma best_mounts_entries:
  assumes "\<And>k q. map_of b k = Some q \<Longrightarrow> P q \<and> device_key q = k" and "\<And>p. p \<in> set ps \<Longrightarrow> P p"
    and "map_of (best_mounts b ps) k = Some q"
  shows "P q \<and> device_key q = k"
  using assms
proof (induction b ps rule: best_mounts.induct)
  case (2 b p ps)
  show ?case
    by (rule "2.IH") (use "2.prems" in \<open>auto split: option.splits if_splits\<close>)
qed simp

definition covers :: "(string \<times> partition) list \<Rightarrow> partition \<Rightarrow> bool" where
  "covers b p \<longleftrightarrow> (\<exists>q. map_of b (device_key p) = Some q \<and> length (pt_Mountpoint q) \<le> length (pt_Mountpoint p))"

lemma best_mounts_covers:
  "covers b p \<or> p \<in> set ps \<Longrightarrow> covers (best_mounts b ps) p"
proof (induction b ps rule: best_mounts.induct)
  case (2 b q ps)
  let ?b = "case map_of b (device_key q) of None \<Rightarrow> AList.update (device_key q) q b
    | Some cur \<Rightarrow> if length (pt_Mountpoint q) < length (pt_Mountpoint cur)
        then AList.update (device_key q) q b else b"
  have "covers ?b q" by (auto simp: covers_def split: option.split)
  moreover have "covers b p \<Longrightarrow> covers ?b p"
    by (force simp: covers_def split: option.split)
  ultimately have "covers ?b p \<or> p \<in> set ps" using "2.prems" by auto
  then show ?case using "2.IH" by (simp only: best_mounts.simps)
qed simp

lemma best_mounts_set:
  assumes "distinct (map fst b)"
  shows "(k, q) \<in> set b \<longleftrightarrow> map_of b k = Some q"
  using assms by simp

lemma filterPartitions_facts:
  fixes visit parts
  assumes perm: "\<And>xs. mset (visit xs) = mset xs"
  defines "out \<equiv> filterPartitions visit parts"
  shows "sorted (map pt_Mountpoint out)" "distinct (map device_key out)"
    "set out \<subseteq> {p \<in> set parts. kept p}"
    "p \<in> set parts \<Longrightarrow> kept p \<Longrightarrow>
       \<exists>q \<in> set out. device_key q = device_key p \<and> length (pt_Mountpoint q) \<le> length (pt_Mountpoint p)"
proof -
  let ?ps = "[p \<leftarrow> parts. kept p]"
  let ?b = "best_mounts [] ?ps"
  have d: "distinct (map fst ?b)" by (rule best_mounts_distinct) simp
  have m: "mset out = mset (map snd ?b)" by (simp add: out_def filterPartitions_def perm)
  have e: "q \<in> set ?ps \<and> device_key q = k" if "(k, q) \<in> set ?b" for k q
  proof (rule best_mounts_entries [where b = "[]" and ps = ?ps and P = "\<lambda>q. q \<in> set ?ps"])
    show "map_of ?b k = Some q" using that d by (simp only: map_of_eq_Some_iff)
  qed simp_all
  then have e': "snd kv \<in> set ?ps \<and> device_key (snd kv) = fst kv" if "kv \<in> set ?b" for kv
    using that by (cases kv) (simp only: fst_conv snd_conv)
  have so: "set out = snd ` set ?b" using mset_eq_setD [OF m] by (simp only: set_map)
  have "map device_key (map snd ?b) = map fst ?b"
    unfolding map_map comp_def by (rule map_cong [OF refl]) (simp only: e')
  then have "distinct (map device_key (map snd ?b))" using d by (simp only:)
  then show "distinct (map device_key out)" 
    using mset_eq_imp_distinct_iff [of "map device_key out" "map device_key (map snd ?b)"] m
    by (simp only: mset_map)
  show "sorted (map pt_Mountpoint out)" by (simp add: out_def filterPartitions_def)
  show "set out \<subseteq> {p \<in> set parts. kept p}" 
  proof
    fix q assume "q \<in> set out"
    then obtain kv where "kv \<in> set ?b" "q = snd kv" unfolding so by (rule imageE)
    then show "q \<in> {p \<in> set parts. kept p}" using e' [of kv] by simp
  qed
  show "\<exists>q \<in> set out. device_key q = device_key p \<and> length (pt_Mountpoint q) \<le> length (pt_Mountpoint p)"
    if "p \<in> set parts" "kept p"
  proof -
    have "covers ?b p" by (rule best_mounts_covers) (use that in simp)
    then obtain q where q: "map_of ?b (device_key p) = Some q"
      and l: "length (pt_Mountpoint q) \<le> length (pt_Mountpoint p)" by (auto simp: covers_def)
    from q have b: "(device_key p, q) \<in> set ?b" by (rule map_of_SomeD)
    then have "q \<in> set out" unfolding so by (intro image_eqI [of _ snd]) simp_all
    with l e [OF b] show ?thesis by blast
  qed
qed

lemma filterPartitions_order:
  assumes "\<And>xs. mset (visit xs) = mset xs" "\<And>xs. mset (visit' xs) = mset xs"
    and "inj_on pt_Mountpoint {p \<in> set parts. kept p}"
  shows "filterPartitions visit parts = filterPartitions visit' parts"
proof -
  let ?b = "map snd (best_mounts [] [p \<leftarrow> parts. kept p])"
  have "set (visit ?b) = set (filterPartitions visit parts)" by (simp add: filterPartitions_def)
  then have "inj_on pt_Mountpoint (set (visit ?b))"
    using filterPartitions_facts(3) [OF assms(1), of parts] assms(3) by (metis inj_on_subset)
  then show ?thesis
    unfolding filterPartitions_def
    by (intro sort_key_inj_key_eq) (simp_all add: assms)
qed

lemma isIgnoredMount_iff:
  "isIgnoredMount mp \<longleftrightarrow> (\<exists>p \<in> set ignoredMountPrefixes. mp = p \<or> (\<exists>r. mp = p @ ''/'' @ r))"
  by (simp add: isIgnoredMount_def list_ex_iff hasPrefix_iff)

section \<open>Facts on GPUs\<close>

lemma split_on_field:
  assumes "CHR '','' \<notin> set f"
  shows "split_on '', '' acc (f @ '', '' @ r) = (rev acc @ f) # split_on '', '' [] r"
  using assms
proof (induction f arbitrary: acc)
  case Nil
  show ?case by (simp add: split_on.simps [of "'', ''" acc] hasPrefix_def)
next
  case (Cons c f)
  then show ?case
    by (simp add: split_on.simps [of "'', ''" acc "c # _"] hasPrefix_def) auto
qed

lemma split_on_last:
  assumes "CHR '','' \<notin> set f"
  shows "split_on '', '' acc f = [rev acc @ f]"
  using assms
proof (induction f arbitrary: acc)
  case Nil
  show ?case by (simp add: split_on.simps)
next
  case (Cons c f)
  then show ?case
    by (simp add: split_on.simps [of "'', ''" acc "c # f"] hasPrefix_def) auto
qed

lemma digits_no_comma: "CHR '','' \<notin> set (itoa n)"
  using set_itoa [of n] by (auto simp: digits_def)

lemma digit_not_space: "e \<in> set go_spaces \<Longrightarrow> e \<noteq> [] \<and> hd e \<notin> set digits \<and> last e \<notin> set digits"
  by (auto simp: go_spaces_def digits_def)

lemma trimSpace_itoa [simp]: "trimSpace (itoa n) = itoa n"
proof -
  have hd: "hd (itoa n) \<in> set digits" and last: "last (itoa n) \<in> set digits"
    using set_itoa hd_in_set last_in_set itoa_not_Nil by blast+
  have "\<not> hasPrefix (itoa n) e" if "e \<in> set go_spaces" for e
    using digit_not_space [OF that] hd by (metis hasPrefix_iff hd_append2)
  then have 1: "trim_left go_spaces (itoa n) = itoa n" by (intro trim_left_idle) blast
  have "\<not> hasPrefix (rev (itoa n)) (rev e)" if "e \<in> set go_spaces" for e
    using digit_not_space [OF that] last by (metis hasPrefix_iff hd_append2 hd_rev rev_is_Nil_conv)
  then have "trim_left (map rev go_spaces) (rev (itoa n)) = rev (itoa n)"
    by (intro trim_left_idle) auto
  with 1 show ?thesis by (simp add: trimSpace_def)
qed

text \<open>The line \<open>nvidia-smi\<close> prints for a device.\<close>

definition smi_line :: "nat \<Rightarrow> string \<Rightarrow> string \<Rightarrow> string \<Rightarrow> nat \<Rightarrow> nat \<Rightarrow> string" where
  "smi_line i name uuid util used tot = itoa i @ '', '' @ name @ '', '' @ uuid @ '', '' @ util @ '', '' @
     itoa used @ '', '' @ itoa tot"

lemma gpu_line_smi:
  assumes "CHR '','' \<notin> set name \<union> set uuid \<union> set util" "i < 2 ^ 32" "used < 2 ^ 64" "tot < 2 ^ 64"
  shows "gpu_line (smi_line i name uuid util used tot) = Some
    \<lparr>gd_index = of_nat i, gd_name = trimSpace name, gd_uuid = trimSpace uuid,
     gd_usage_percent = parseFloat (trimSpace util), gd_mem_used_bytes = of_nat used * 1048576,
     gd_mem_total_bytes = of_nat tot * 1048576\<rparr>"
  using assms
  by (simp add: gpu_line_def smi_line_def split_on_field split_on_last digits_no_comma parseUint_def
      del: append_Cons append.append_Cons)

end
