(* ===== verification/GoDuration.thy ===== *)
theory GoDuration
  imports GoStrings Float64
begin

text \<open>
  \<open>time.ParseDuration\<close> of Go's standard library: a sequence of decimal numbers with units, in
  nanoseconds, with its overflow checks. The loop consumes at least one character a round.
\<close>

datatype duration_error = InvalidDuration | MissingUnit | UnknownUnit string

definition is_digit :: "char \<Rightarrow> bool" where
  "is_digit c \<longleftrightarrow> c \<in> set digits"

definition is_unit_char :: "char \<Rightarrow> bool" where
  "is_unit_char c \<longleftrightarrow> c \<noteq> CHR ''.'' \<and> \<not> is_digit c"

text \<open>\<open>leadingInt\<close>: the value of the leading digits, unless it passes \<open>2 ^ 63\<close>.\<close>

definition leading_int :: "string \<Rightarrow> nat option" where
  "leading_int ds =
     (case atoi_from 0 ds of None \<Rightarrow> None | Some n \<Rightarrow> if n \<le> 2 ^ 63 then Some n else None)"

text \<open>\<open>leadingFraction\<close>: digits beyond what fits in 63 bits are dropped. The result is the value and
  the power of ten that scales it.\<close>

fun leading_fraction :: "nat \<Rightarrow> f64 \<Rightarrow> string \<Rightarrow> nat \<times> f64" where
  "leading_fraction x scl [] = (x, scl)"
| "leading_fraction x scl (c # cs) =
     (if x > (2 ^ 63 - 1) div 10 then (x, scl)
      else
        (case digit_val c of
           None \<Rightarrow> (x, scl)
         | Some v \<Rightarrow>
             if 10 * x + v > 2 ^ 63 then (x, scl)
             else leading_fraction (10 * x + v) (f64_mul scl (Fin 10)) cs))"

definition units :: "(string \<times> nat) list" where
  "units =
     [(''ns'', 1), (''us'', 1000), ([CHR 0xC2, CHR 0xB5, CHR ''s''], 1000),
      ([CHR 0xCE, CHR 0xBC, CHR ''s''], 1000), (''ms'', 1000000), (''s'', 1000000000),
      (''m'', 60000000000), (''h'', 3600000000000)]"

text \<open>One round: a number and its unit, in nanoseconds, and the rest of the text.\<close>

definition duration_round :: "string \<Rightarrow> duration_error + nat \<times> string" where
  "duration_round s =
     (let ip = takeWhile is_digit s; s1 = dropWhile is_digit s;
          dot = hasPrefix s1 ''.'';
          fp = (if dot then takeWhile is_digit (drop 1 s1) else []);
          s2 = (if dot then dropWhile is_digit (drop 1 s1) else s1);
          u = takeWhile is_unit_char s2; rest = dropWhile is_unit_char s2
      in if ip = [] \<and> fp = [] then Inl InvalidDuration
         else
        (case leading_int ip of
           None \<Rightarrow> Inl InvalidDuration
         | Some v \<Rightarrow>
             if u = [] then Inl MissingUnit
             else
            (case map_of units u of
               None \<Rightarrow> Inl (UnknownUnit u)
             | Some unit \<Rightarrow>
                 if v > 2 ^ 63 div unit then Inl InvalidDuration
                 else
                  (let (f, scl) = leading_fraction 0 (Fin 1) fp;
                       extra = (if f > 0 then nat (int_of_f64
                         (f64_mul (f64_of_int (int f)) (f64_div (f64_of_int (int unit)) scl))) else 0);
                       w = v * unit + extra
                   in if w > 2 ^ 63 then Inl InvalidDuration else Inr (w, rest)))))"

lemma duration_round_shorter: "duration_round s = Inr (w, r) \<Longrightarrow> length r < length s"
proof -
  assume a: "duration_round s = Inr (w, r)"
  let ?s1 = "dropWhile is_digit s"
  let ?s2 = "if hasPrefix ?s1 ''.'' then dropWhile is_digit (drop 1 ?s1) else ?s1"
  from a have r: "r = dropWhile is_unit_char ?s2" and u: "takeWhile is_unit_char ?s2 \<noteq> []"
    by (auto simp: duration_round_def Let_def split: if_splits option.splits prod.splits)
  have "length ?s2 \<le> length ?s1"
    using length_dropWhile_le [of is_digit "drop 1 ?s1"] by auto
  also have "\<dots> \<le> length s" by (rule length_dropWhile_le)
  finally have "length ?s2 \<le> length s" .
  moreover have "length ?s2 = length (takeWhile is_unit_char ?s2) + length r"
    unfolding r by (metis length_append takeWhile_dropWhile_id)
  ultimately show "length r < length s" using u by (cases "takeWhile is_unit_char ?s2") auto
qed

function duration_loop :: "nat \<Rightarrow> string \<Rightarrow> duration_error + nat" where
  "duration_loop d s =
     (if s = [] then Inr d
      else
        (case duration_round s of
           Inl e \<Rightarrow> Inl e
         | Inr (w, r) \<Rightarrow> if d + w > 2 ^ 63 then Inl InvalidDuration else duration_loop (d + w) r))"
  by pat_completeness auto
termination
  by (relation "measure (\<lambda>(d, s). length s)") (auto dest: duration_round_shorter)

declare duration_loop.simps [simp del]

definition ParseDuration :: "string \<Rightarrow> duration_error + int" where
  "ParseDuration s =
     (let neg = hasPrefix s ''-''; t = (if neg \<or> hasPrefix s ''+'' then drop 1 s else s)
      in if t = ''0'' then Inr 0
         else if t = [] then Inl InvalidDuration
         else
        (case duration_loop 0 t of
           Inl e \<Rightarrow> Inl e
         | Inr d \<Rightarrow>
             if neg then Inr (- int d)
             else if d > 2 ^ 63 - 1 then Inl InvalidDuration else Inr (int d)))"

lemma duration_loop_bound: "duration_loop d s = Inr n \<Longrightarrow> d \<le> 2 ^ 63 \<Longrightarrow> n \<le> 2 ^ 63"
proof (induction d s rule: duration_loop.induct)
  case (1 d s)
  show ?case
    using "1.prems" "1.IH" by (subst (asm) duration_loop.simps) (auto split: if_splits sum.splits prod.splits)
qed

lemma ParseDuration_bound:
  assumes "ParseDuration s = Inr d" shows "- (2 ^ 63) \<le> d \<and> d < 2 ^ 63"
proof -
  have b: "n \<le> 2 ^ 63" if "duration_loop 0 t = Inr n" for t n using duration_loop_bound [OF that] by simp
  show ?thesis
    using assms by (auto simp: ParseDuration_def Let_def split: if_splits sum.splits dest!: b)
qed

text \<open>Whole seconds, the form of the configuration's default.\<close>

lemma duration_round_seconds:
  assumes "n \<le> 9223372036" shows "duration_round (itoa n @ ''s'') = Inr (n * 1000000000, [])"
proof -
  have d: "is_digit c" if "c \<in> set (itoa n)" for c
    using set_itoa [of n] that by (auto simp: is_digit_def)
  have s: "\<not> is_digit CHR ''s''" by (simp add: is_digit_def digits_def)
  have t: "takeWhile is_digit (itoa n @ ''s'') = itoa n" "dropWhile is_digit (itoa n @ ''s'') = ''s''"
    using d s by (simp_all add: takeWhile_append2 dropWhile_append2)
  show ?thesis
    unfolding duration_round_def t Let_def using assms s
    by (simp add: hasPrefix_def is_unit_char_def leading_int_def atoi_from_itoa units_def)
qed

lemma ParseDuration_seconds:
  assumes "n \<le> 9223372036" shows "ParseDuration (itoa n @ ''s'') = Inr (int n * 1000000000)"
proof -
  have hd: "hd (itoa n) \<in> set digits" using set_itoa hd_in_set itoa_not_Nil by blast
  then have p: "\<not> hasPrefix (itoa n @ ''s'') ''-''" "\<not> hasPrefix (itoa n @ ''s'') ''+''"
    by (cases "itoa n"; auto simp: hasPrefix_def digits_def)+
  have l: "duration_loop 0 (itoa n @ ''s'') = Inr (n * 1000000000)"
    using assms by (simp add: duration_loop.simps duration_round_seconds)
  have ne: "itoa n @ ''s'' \<noteq> ''0''" by (cases "itoa n") auto
  show ?thesis unfolding ParseDuration_def Let_def using p l ne assms by simp
qed

end
