(* ===== verification/Agent.thy ===== *)
theory Agent
  imports Collector Docker GoDuration
begin

text \<open>
  The agent, \<open>internal/agent/agent.go\<close>: its session with the master, the three loops that send
  (metrics, Docker events, container poll) and the handlers of the master's commands. Each turn of
  a loop and each handler is one step on the agent's state; the loops of one session interleave
  these steps. The clock, the Docker daemon and what the stream does with a message are arguments
  or scripts in the state.
\<close>

section \<open>State\<close>

record 'd agent =
  ag_nodeName :: string
  ag_machineID :: string
  ag_pollInterval :: int
  ag_eventsEnabled :: bool
  ag_stream :: bool                          \<comment> \<open>\<open>stream\<close> is not nil\<close>
  ag_sent :: "agent_message list"            \<comment> \<open>what the stream accepted, oldest first\<close>
  ag_faults :: "string option list"          \<comment> \<open>one entry per \<open>Send\<close>, \<open>Some m\<close> fails\<close>
  ag_reverseIDs :: "(string \<times> string) list"
  ag_daemon :: 'd

definition stream_Send :: "agent_message \<Rightarrow> 'd agent \<Rightarrow> 'd agent \<times> string option" where
  "stream_Send msg a =
     (case ag_faults a of
        [] \<Rightarrow> (a\<lparr>ag_sent := ag_sent a @ [msg]\<rparr>, None)
      | None # fs \<Rightarrow> (a\<lparr>ag_faults := fs, ag_sent := ag_sent a @ [msg]\<rparr>, None)
      | Some e # fs \<Rightarrow> (a\<lparr>ag_faults := fs\<rparr>, Some e))"

definition agent_send :: "agent_message \<Rightarrow> 'd agent \<Rightarrow> 'd agent \<times> string option" where
  "agent_send msg a = (if \<not> ag_stream a then (a, Some ''no active stream'') else stream_Send msg a)"

abbreviation second :: int where "second \<equiv> 1000000000"

definition defaultContainerPollInterval :: int where
  "defaultContainerPollInterval = 10 * second"

datatype bad_duration = NotADuration duration_error | NegativeDuration string

definition parseDuration :: "string \<Rightarrow> int \<Rightarrow> bad_duration + int" where
  "parseDuration s def =
     (if s = [] then Inr def
      else
        (case ParseDuration s of
           Inl e \<Rightarrow> Inl (NotADuration e)
         | Inr d \<Rightarrow> if d < 0 then Inl (NegativeDuration s) else Inr d))"

definition New_agent :: "string \<Rightarrow> string \<Rightarrow> string \<Rightarrow> bool \<Rightarrow> 'd \<Rightarrow> bad_duration + 'd agent" where
  "New_agent nodeName machineID pollInterval eventsEnabled d =
     (case parseDuration pollInterval defaultContainerPollInterval of
        Inl e \<Rightarrow> Inl e
      | Inr i \<Rightarrow> Inr \<lparr>ag_nodeName = nodeName, ag_machineID = machineID, ag_pollInterval = i,
           ag_eventsEnabled = eventsEnabled, ag_stream = False, ag_sent = [], ag_faults = [],
           ag_reverseIDs = [], ag_daemon = d\<rparr>)"

section \<open>Session\<close>

definition normalizeAgentVersion :: "string \<Rightarrow> string" where
  "normalizeAgentVersion v = trimPrefix v ''v''"

text \<open>What a session runs: the metrics interval, and whether events and poll run.\<close>

record session_plan =
  pl_interval :: int
  pl_events :: bool
  pl_poll :: "int option"

definition metrics_interval :: "32 word \<Rightarrow> int" where
  "metrics_interval secs = (if sint secs * second \<le> 0 then 5 * second else sint secs * second)"

text \<open>\<open>serve\<close> up to its loops: \<open>dialled\<close> is the error of opening the stream, if any, \<open>first\<close> the
  first message received.\<close>

definition serve_start ::
  "string option \<Rightarrow> string + master_message \<Rightarrow> string \<Rightarrow> string \<Rightarrow> string \<Rightarrow> string \<Rightarrow> 'd agent \<Rightarrow>
     'd agent \<times> (string + session_plan)" where
  "serve_start dialled first hostname os arch version a =
     (case dialled of
        Some e \<Rightarrow> (a, Inl e)
      | None \<Rightarrow>
     (let a1 = a\<lparr>ag_stream := True\<rparr> in
      case stream_Send (AgentRegister \<lparr>rr_name = ag_nodeName a, rr_hostname = hostname, rr_os = os,
             rr_arch = arch, rr_agent_version = version, rr_machine_id = ag_machineID a\<rparr>) a1 of
        (a2, Some e) \<Rightarrow> (a2, Inl e)
      | (a2, None) \<Rightarrow>
          (case first of
             Inl e \<Rightarrow> (a2, Inl e)
           | Inr (MasterRegisterResp r) \<Rightarrow>
               if \<not> rs_ok r then (a2, Inl (''registration rejected: '' @ rs_error r))
               else (a2, Inr \<lparr>pl_interval = metrics_interval (rs_metrics_interval_sec r),
                 pl_events = ag_eventsEnabled a2,
                 pl_poll = (if ag_pollInterval a2 > 0 then Some (ag_pollInterval a2) else None)\<rparr>)
           | Inr _ \<Rightarrow> (a2, Inl ''expected RegisterResponse''))))"

text \<open>\<open>Run\<close>: the waits between sessions. A session ends with \<open>Canceled\<close> or another error, and the
  context can be cancelled during the wait.\<close>

datatype served = Canceled | ServeFailed string

definition next_backoff :: "int \<Rightarrow> int" where
  "next_backoff b = (if b < 30 * second then b * 2 else 5 * second)"

fun Run_loop :: "int \<Rightarrow> (served \<times> bool) list \<Rightarrow> int list" where
  "Run_loop backoff [] = []"
| "Run_loop backoff ((Canceled, c) # rs) = []"
| "Run_loop backoff ((ServeFailed e, c) # rs) =
     backoff # (if c then [] else Run_loop (next_backoff backoff) rs)"

text \<open>The whole of \<open>Run\<close>, over the host's description and the sessions that end when they are given the
  host's name, its system and the agent's version.\<close>

definition Run :: "string + host_stat \<Rightarrow> string \<Rightarrow> (string \<times> string \<times> string \<Rightarrow> string \<Rightarrow> (served \<times> bool) list) \<Rightarrow>
    string + int list" where
  "Run host version sessions =
     (case HostInfo host of
        Inl e \<Rightarrow> Inl (''host info: '' @ e)
      | Inr info \<Rightarrow> Inr (Run_loop second (sessions info (normalizeAgentVersion version))))"

section \<open>Metrics\<close>

text \<open>One tick; the loop ends when \<open>False\<close> comes back.\<close>

definition metrics_tick :: "host_readings \<Rightarrow> 'd agent \<Rightarrow> 'd agent \<times> bool" where
  "metrics_tick h a =
     (case agent_send (AgentMetrics (Collect h)) a of
        (a', Some e) \<Rightarrow> (a', False) | (a', None) \<Rightarrow> (a', True))"

section \<open>Docker events\<close>

definition mapDockerActionToState :: "string \<Rightarrow> string \<times> string" where
  "mapDockerActionToState action =
     (if action = ''start'' \<or> action = ''unpause'' \<or> action = ''restart'' then (''running'', ''running'')
      else if action = ''die'' \<or> action = ''stop'' then (''exited'', ''exited'')
      else if action = ''kill'' then (''exited'', ''killed'')
      else if action = ''pause'' then (''paused'', ''paused'')
      else if action = ''destroy'' then (''exited'', ''exited'')
      else ([], []))"

record events_state =
  es_backoff :: int
  es_lastSeen :: gotime
  es_recentFails :: "gotime list"
  es_quiet :: bool

definition events_init :: events_state where
  "events_init = \<lparr>es_backoff = second, es_lastSeen = zero_time, es_recentFails = [], es_quiet = False\<rparr>"

definition noteEventsFailure :: "gotime \<Rightarrow> int \<Rightarrow> nat \<Rightarrow> gotime list \<Rightarrow> bool \<Rightarrow> gotime list \<times> bool" where
  "noteEventsFailure now window threshold recentFails quiet =
     (let pruned = [t \<leftarrow> recentFails. t > now - window] @ [now]
      in (pruned, quiet \<or> length pruned \<ge> threshold))"

definition backoffFor :: "int \<Rightarrow> bool \<Rightarrow> int \<Rightarrow> int" where
  "backoffFor cur quiet quietBackoff = (if quiet then quietBackoff else min (cur * 2) (30 * second))"

definition event_message :: "string \<Rightarrow> container_event \<Rightarrow> agent_message" where
  "event_message cid ev = (case mapDockerActionToState (ev_Action ev) of (state, status) \<Rightarrow>
     AgentContainerStateChanged
       \<lparr>sc_container_id = cid, sc_docker_id = ev_ID ev, sc_action = ev_Action ev, sc_state = state,
        sc_status = status, sc_ts_unix_ms = of_int (ev_Time ev div 1000000)\<rparr>)"

definition event_cid :: "container_event \<Rightarrow> string" where
  "event_cid ev = (case map_of (ev_Attributes ev) ''pumpkinpie.container_id'' of None \<Rightarrow> [] | Some c \<Rightarrow> c)"

text \<open>The loop over one stream; \<open>False\<close> when a send failed and the whole loop returns.\<close>

fun forward_events :: "container_event list \<Rightarrow> 'd agent \<Rightarrow> gotime \<Rightarrow> 'd agent \<times> gotime \<times> bool" where
  "forward_events [] a lastSeen = (a, lastSeen, True)"
| "forward_events (ev # evs) a lastSeen =
     (if event_cid ev = [] then forward_events evs a lastSeen
      else if fst (mapDockerActionToState (ev_Action ev)) = [] then forward_events evs a lastSeen
      else
        (case agent_send (event_message (event_cid ev) ev) a of
           (a', Some e) \<Rightarrow> (a', lastSeen, False)
         | (a', None) \<Rightarrow> forward_events evs a' (if is_zero (ev_Time ev) then lastSeen else ev_Time ev)))"

datatype turn_end = Returned | AfterDelay int

text \<open>One turn of \<open>dockerEventsLoop\<close>; \<open>cancelled\<close> says that the context ended during it. A stream
  that closes is followed by the next turn at once.\<close>

definition events_turn ::
  "(string \<Rightarrow> 'd \<Rightarrow> 'd \<times> (string + nat \<times> string \<times> json list)) \<Rightarrow> gotime \<Rightarrow> bool \<Rightarrow> 'd agent \<Rightarrow>
     events_state \<Rightarrow> 'd agent \<times> events_state \<times> turn_end" where
  "events_turn poll now cancelled a es =
     (case Events poll (es_lastSeen es) (ag_daemon a) of
        (d, Inl e) \<Rightarrow>
          (let a1 = a\<lparr>ag_daemon := d\<rparr>;
               (fails, quiet) = noteEventsFailure now (30 * second) 3 (es_recentFails es) (es_quiet es);
               es1 = es\<lparr>es_recentFails := fails, es_quiet := quiet\<rparr>
           in (a1, es1, if cancelled then Returned
                        else AfterDelay (backoffFor (es_backoff es) quiet (60 * second))))
      | (d, Inr evs) \<Rightarrow>
          (let a1 = a\<lparr>ag_daemon := d\<rparr>;
               es1 = es\<lparr>es_backoff := second, es_recentFails := [], es_quiet := False\<rparr>
           in case forward_events evs a1 (es_lastSeen es) of
                (a2, seen, ok) \<Rightarrow>
                  (let es2 = es1\<lparr>es_lastSeen := seen\<rparr> in
                   if \<not> ok \<or> cancelled then (a2, es2, Returned)
                   else
                     (let (fails, quiet) = noteEventsFailure now (30 * second) 3 (es_recentFails es2) (es_quiet es2)
                      in (a2, es2\<lparr>es_recentFails := fails, es_quiet := quiet\<rparr>, AfterDelay 0)))))"

text \<open>\<open>dockerEventsLoop\<close> over the times of its turns, while its context lives: how each turn ended.\<close>

fun events_turns ::
  "(string \<Rightarrow> 'd \<Rightarrow> 'd \<times> (string + nat \<times> string \<times> json list)) \<Rightarrow> gotime list \<Rightarrow> 'd agent \<Rightarrow>
     events_state \<Rightarrow> 'd agent \<times> events_state \<times> turn_end list" where
  "events_turns poll [] a es = (a, es, [])"
| "events_turns poll (now # ts) a es =
     (case events_turn poll now False a es of
        (a1, es1, Returned) \<Rightarrow> (a1, es1, [Returned])
      | (a1, es1, AfterDelay d) \<Rightarrow>
          (case events_turns poll ts a1 es1 of (a2, es2, rs) \<Rightarrow> (a2, es2, AfterDelay d # rs)))"

section \<open>Container poll\<close>

definition mapDockerListState :: "string \<Rightarrow> string \<times> string" where
  "mapDockerListState state =
     (if state = ''running'' then (''running'', ''running'')
      else if state = ''exited'' then (''exited'', ''exited'')
      else if state = ''paused'' then (''paused'', ''paused'')
      else if state = ''restarting'' then (''running'', ''restarting'')
      else if state = ''dead'' then (''exited'', ''dead'')
      else if state = ''created'' then (''exited'', ''created'')
      else if state = ''removing'' then (''exited'', ''removing'')
      else ([], []))"

definition containerReverseID :: "string \<Rightarrow> 'd agent \<Rightarrow> string option" where
  "containerReverseID dockerID a = map_of (ag_reverseIDs a) dockerID"

definition poll_message :: "int \<Rightarrow> string \<Rightarrow> string \<Rightarrow> string \<Rightarrow> string \<Rightarrow> string \<Rightarrow> agent_message" where
  "poll_message now cid did action state status = AgentContainerStateChanged
     \<lparr>sc_container_id = cid, sc_docker_id = did, sc_action = action, sc_state = state,
      sc_status = status, sc_ts_unix_ms = of_int (now div 1000000)\<rparr>"

text \<open>The first loop of a tick. \<open>pushed\<close> is the map \<open>lastState\<close>; \<open>False\<close>: the loop returned.\<close>

fun poll_listed ::
  "int \<Rightarrow> container_info list \<Rightarrow> 'd agent \<Rightarrow> (string \<times> string) list \<Rightarrow> 'd agent \<times> (string \<times> string) list \<times> bool" where
  "poll_listed now [] a pushed = (a, pushed, True)"
| "poll_listed now (i # is) a pushed =
     (if ci_DockerId i = [] \<or> ci_ContainerId i = [] then poll_listed now is a pushed
      else
        (let a1 = a\<lparr>ag_reverseIDs := AList.update (ci_DockerId i) (ci_ContainerId i) (ag_reverseIDs a)\<rparr>;
             (state, status) = mapDockerListState (ci_State i)
         in if state = [] then poll_listed now is a1 pushed
            else if map_of pushed (ci_DockerId i) = Some state then poll_listed now is a1 pushed
            else
              (case agent_send (poll_message now (ci_ContainerId i) (ci_DockerId i) ''poll'' state status) a1 of
                 (a2, Some e) \<Rightarrow> (a2, AList.delete (ci_DockerId i) pushed, False)
               | (a2, None) \<Rightarrow> poll_listed now is a2 (AList.update (ci_DockerId i) state pushed))))"

definition seen_ids :: "container_info list \<Rightarrow> string list" where
  "seen_ids is = map ci_DockerId [i \<leftarrow> is. ci_DockerId i \<noteq> [] \<and> ci_ContainerId i \<noteq> []]"

text \<open>The second loop, over the entries of \<open>lastState\<close> in some order.\<close>

fun poll_vanished ::
  "int \<Rightarrow> string list \<Rightarrow> (string \<times> string) list \<Rightarrow> 'd agent \<Rightarrow> (string \<times> string) list \<Rightarrow>
     'd agent \<times> (string \<times> string) list \<times> bool" where
  "poll_vanished now seen [] a pushed = (a, pushed, True)"
| "poll_vanished now seen ((did, prev) # es) a pushed =
     (if did \<in> set seen then poll_vanished now seen es a pushed
      else if prev = ''exited'' \<or> prev = ''removed'' then poll_vanished now seen es a (AList.delete did pushed)
      else
        (case containerReverseID did a of
           None \<Rightarrow> poll_vanished now seen es a (AList.delete did pushed)
         | Some cid \<Rightarrow>
             (case agent_send (poll_message now cid did ''destroy'' ''exited'' ''exited'') a of
                (a', Some e) \<Rightarrow> (a', AList.delete did pushed, False)
              | (a', None) \<Rightarrow> poll_vanished now seen es a' (AList.delete did pushed))))"

text \<open>One tick of \<open>containerPollLoop\<close>; \<open>visit\<close> is the order in which Go ranges over the map.\<close>

definition poll_tick ::
  "'d daemon \<Rightarrow> ((string \<times> string) list \<Rightarrow> (string \<times> string) list) \<Rightarrow> int \<Rightarrow> 'd agent \<Rightarrow>
     (string \<times> string) list \<Rightarrow> 'd agent \<times> (string \<times> string) list \<times> bool" where
  "poll_tick http visit now a pushed =
     (case ListAgent http (ag_daemon a) of
        (d, Inl e) \<Rightarrow> (a\<lparr>ag_daemon := d\<rparr>, pushed, True)
      | (d, Inr infos) \<Rightarrow>
          (case poll_listed now infos (a\<lparr>ag_daemon := d\<rparr>) pushed of
             (a1, pushed1, False) \<Rightarrow> (a1, pushed1, False)
           | (a1, pushed1, True) \<Rightarrow> poll_vanished now (seen_ids infos) (visit pushed1) a1 pushed1))"

section \<open>Commands of the master\<close>

definition ack_of :: "string \<Rightarrow> string \<Rightarrow> string option \<Rightarrow> container_ack" where
  "ack_of cid did e = \<lparr>ca_container_id = cid, ca_docker_id = did,
     ca_error = (case e of None \<Rightarrow> [] | Some m \<Rightarrow> m)\<rparr>"

definition handleCreate :: "'d daemon \<Rightarrow> create_command \<Rightarrow> 'd agent \<Rightarrow> 'd agent" where
  "handleCreate http cmd a =
     (case Create http cmd (ag_daemon a) of
        (d, r) \<Rightarrow>
          (let ack = (case r of Inl e \<Rightarrow> ack_of (cr_container_id cmd) [] (Some e)
                              | Inr did \<Rightarrow> ack_of (cr_container_id cmd) did None)
           in fst (agent_send (AgentContainerCreated ack) (a\<lparr>ag_daemon := d\<rparr>))))"

definition handleStop :: "'d daemon \<Rightarrow> string \<Rightarrow> string \<Rightarrow> bool \<Rightarrow> 'd agent \<Rightarrow> 'd agent" where
  "handleStop http cid did remove a =
     (case docker_Stop http did remove (ag_daemon a) of
        (d, e) \<Rightarrow> fst (agent_send (AgentContainerStopped (ack_of cid did e)) (a\<lparr>ag_daemon := d\<rparr>)))"

definition handleStart :: "'d daemon \<Rightarrow> string \<Rightarrow> string \<Rightarrow> 'd agent \<Rightarrow> 'd agent" where
  "handleStart http cid did a =
     (case docker_Start http did (ag_daemon a) of
        (d, e) \<Rightarrow> fst (agent_send (AgentContainerStarted (ack_of cid did e)) (a\<lparr>ag_daemon := d\<rparr>)))"

text \<open>What a command of the master does when its goroutine runs to the end with nothing in between. That each
  one is started in a goroutine of its own, and its single calls, are \<open>command_prog\<close> in
  \<open>Agent_Programs\<close>, of which this is proved to be the run alone.\<close>

fun handleMasterMessage :: "'d daemon \<Rightarrow> master_message \<Rightarrow> 'd agent \<Rightarrow> 'd agent" where
  "handleMasterMessage http (MasterCreateContainer cmd) a = handleCreate http cmd a"
| "handleMasterMessage http (MasterStopContainer cid did remove) a = handleStop http cid did remove a"
| "handleMasterMessage http (MasterStartContainer cid did) a = handleStart http cid did a"
| "handleMasterMessage http _ a = a"

end
