(* ===== verification/Entry.thy ===== *)
theory Entry
  imports AgentStart Agent
begin

text \<open>
  The entry points: \<open>cmd/pp/main.go\<close>, which picks the role, and \<open>internal/cmd/agent/agent.go\<close>'s
  \<open>Run\<close>, which turns arguments, environment, configuration file and state directory into a running
  agent. What the process prints is left out.
\<close>

section \<open>The binary\<close>

datatype role = RunMaster "string list" | RunAgent "string list" | ShowVersion | ShowUsage nat

text \<open>\<open>main\<close> on \<open>os.Args\<close>; the number is the exit status.\<close>

definition pp_main :: "string list \<Rightarrow> role" where
  "pp_main osArgs =
     (if length osArgs < 2 then ShowUsage 2
      else
        (let sub = osArgs ! 1; args = drop 2 osArgs in
         if sub = ''master'' then RunMaster args
         else if sub = ''agent'' then RunAgent args
         else if sub \<in> set [''version'', ''-v'', ''--version''] then ShowVersion
         else if sub \<in> set [''help'', ''-h'', ''--help''] then ShowUsage 0
         else ShowUsage 2))"

section \<open>The agent\<close>

datatype 'd launch =
    Exits
  | Dies string                  \<comment> \<open>\<open>log.Fatalf\<close>\<close>
  | Fails string
  | BadInterval bad_duration
  | Launches string string "'d agent"   \<comment> \<open>master address, socket, agent\<close>

text \<open>What the process finds: environment, file, platform, home and host name, the directories.\<close>

record host_env =
  he_getenv :: "string \<Rightarrow> string"
  he_readFile :: "string \<Rightarrow> agent_file"
  he_yaml :: "string \<Rightarrow> agent_config \<Rightarrow> string + agent_config"
  he_goos :: string
  he_home :: "string option"
  he_hostname :: "string + string"
  he_tmp :: string
  he_part :: nat
  he_rand :: "string + byte list"
  he_dirs :: "string \<Rightarrow> state_dir"

definition agent_state_dir :: "host_env \<Rightarrow> agent_config \<Rightarrow> string" where
  "agent_state_dir h cfg =
     (if af_StateDir cfg = [] then defaultStateDir (he_goos h) (he_getenv h) (he_home h) else af_StateDir cfg)"

definition Run_agent :: "host_env \<Rightarrow> string list \<Rightarrow> 'd \<Rightarrow> 'd launch" where
  "Run_agent h args daemon =
     (case agent_config_path (he_getenv h) args of
        Fatal m \<Rightarrow> Dies m
      | Help \<Rightarrow> Exits
      | ConfigPath p \<Rightarrow>
     (case Load_agent (he_readFile h) (he_yaml h) p of
        Inl e \<Rightarrow> Fails e
      | Inr (cfg, loaded) \<Rightarrow>
     (case (if af_Name cfg = [] then he_hostname h else Inr (af_Name cfg)) of
        Inl e \<Rightarrow> Fails e
      | Inr name \<Rightarrow>
     (let stateDir = agent_state_dir h cfg; sockPath = resolveDockerSock (he_getenv h) (af_DockerSock cfg) in
      case Load_identity (he_tmp h) (he_part h) (he_rand h) stateDir (he_dirs h stateDir) of
        (_, Inl e) \<Rightarrow> Fails e
      | (_, Inr machineID) \<Rightarrow>
     (case New_agent name machineID (af_ContainerPollInterval cfg) (DockerEventsEnabled cfg) daemon of
        Inl e \<Rightarrow> BadInterval e
      | Inr a \<Rightarrow> Launches (af_Master cfg) sockPath a)))))"

section \<open>Facts\<close>

lemma Load_identity_nonempty:
  assumes "Load_identity tmp part (Inr b) dir d = (d', Inr mid)" and "b \<noteq> []"
  shows "mid \<noteq> []"
proof -
  obtain d1 e1 where 1: "syscall d = (d1, e1)" by force
  obtain d2 e2 where 2: "syscall d1 = (d2, e2)" by force
  show ?thesis
    using assms(1) [unfolded Load_identity_def Let_def 1 prod.case 2] assms(2)
    by (auto simp: generate_def split: if_splits option.splits prod.splits)
qed

lemma Load_agent_master:
  "Load_agent rd yaml path = Inr (cfg, ex) \<Longrightarrow> af_Master cfg \<noteq> []"
  by (auto simp: Load_agent_def Let_def applyDefaults_agent_def defaults_agent_def DefaultMaster_def
      split: agent_file.splits sum.splits if_splits)

text \<open>An agent that starts is complete: it has a master to call and an identity, its poll interval
  is not negative, it is not connected yet.\<close>

lemma Run_agent_complete:
  assumes "Run_agent h args daemon = Launches master sock a" and "he_rand h = Inr b" "b \<noteq> []"
  shows "master \<noteq> []" "ag_machineID a \<noteq> []" "0 \<le> ag_pollInterval a"
    "\<not> ag_stream a" "ag_sent a = []"
proof -
  from assms(1) obtain p cfg ex name d' mid where
      l: "Load_agent (he_readFile h) (he_yaml h) p = Inr (cfg, ex)"
    and i: "Load_identity (he_tmp h) (he_part h) (he_rand h) (agent_state_dir h cfg)
      (he_dirs h (agent_state_dir h cfg)) = (d', Inr mid)"
    and n: "New_agent name mid (af_ContainerPollInterval cfg) (DockerEventsEnabled cfg) daemon = Inr a"
    and m: "master = af_Master cfg"
    by (auto simp: Run_agent_def Let_def split: agent_args.splits sum.splits prod.splits if_splits)
  show "master \<noteq> []" using Load_agent_master [OF l] m by simp
  show "ag_machineID a \<noteq> []" "0 \<le> ag_pollInterval a" "\<not> ag_stream a" "ag_sent a = []"
    using n Load_identity_nonempty [OF i [unfolded assms(2)] assms(3)]
    by (auto simp: New_agent_def parseDuration_def defaultContainerPollInterval_def split: sum.splits if_splits)
qed

end
