(* ===== verification/Agent_Thms.thy ===== *)
theory Agent_Thms
  imports Agent
begin

text \<open>
  What the agent's loops guarantee: the waits between sessions, the order and completeness of the
  events that are forwarded, what a poll reports, and what is lost when a send fails.
\<close>

section \<open>Sending\<close>

definition can_send :: "'d agent \<Rightarrow> bool" where
  "can_send a \<longleftrightarrow> ag_stream a \<and> ag_faults a = []"

lemma agent_send_cases:
  assumes "agent_send msg a = (a', r)"
  shows "ag_sent a' = ag_sent a @ (if r = None then [msg] else [])" "ag_daemon a' = ag_daemon a"
    "ag_reverseIDs a' = ag_reverseIDs a" "ag_stream a' = ag_stream a" "ag_nodeName a' = ag_nodeName a"
  using assms by (auto simp: agent_send_def stream_Send_def split: if_splits list.splits option.splits)

lemma agent_send_ok:
  "can_send a \<Longrightarrow> agent_send msg a = (a\<lparr>ag_sent := ag_sent a @ [msg]\<rparr>, None)"
  by (simp add: can_send_def agent_send_def stream_Send_def)

lemma can_send_update [simp]:
  "can_send (a\<lparr>ag_sent := s\<rparr>) = can_send a" "can_send (a\<lparr>ag_reverseIDs := m\<rparr>) = can_send a"
  "can_send (a\<lparr>ag_daemon := d\<rparr>) = can_send a"
  by (simp_all add: can_send_def)

section \<open>Waits between sessions\<close>

definition backoff_after :: "nat \<Rightarrow> int" where
  "backoff_after n = (next_backoff ^^ n) second"

lemma Run_loop_failures:
  "Run_loop b (map (\<lambda>e. (ServeFailed e, False)) es) = map (\<lambda>n. (next_backoff ^^ n) b) [0..<length es]"
proof (induction es arbitrary: b)
  case (Cons e es)
  have "map (\<lambda>n. (next_backoff ^^ n) b) [0..<Suc (length es)] =
      b # map (\<lambda>n. (next_backoff ^^ Suc n) b) [0..<length es]"
    by (subst upt_conv_Cons, simp, simp only: list.map funpow_0 flip: map_Suc_upt) (simp add: comp_def)
  then show ?case using Cons.IH [of "next_backoff b"] by (simp add: funpow_swap1)
qed simp

definition backoff_values :: "int list" where
  "backoff_values = map (\<lambda>k. k * second) [1, 2, 4, 8, 16, 32, 5, 10, 20, 40]"

lemma backoff_closed: "b \<in> set backoff_values \<Longrightarrow> next_backoff b \<in> set backoff_values"
  by (auto simp: backoff_values_def next_backoff_def)

lemma backoff_after_values: "backoff_after n \<in> set backoff_values"
  unfolding backoff_after_def
  by (induction n) (simp add: backoff_values_def, simp only: funpow.simps comp_apply backoff_closed)

lemma backoff_after_6: "backoff_after 6 = 5 * second"
  by (simp add: backoff_after_def next_backoff_def eval_nat_numeral)

lemma backoff_cycle: "6 \<le> n \<Longrightarrow> backoff_after (n + 4) = backoff_after n"
proof (induction n rule: dec_induct)
  case base
  have "backoff_after (6 + 4) = (next_backoff ^^ 4) (backoff_after 6)"
    unfolding backoff_after_def by (simp only: add.commute [of 6 4] funpow_add comp_apply)
  then show ?case unfolding backoff_after_6 by (simp add: next_backoff_def eval_nat_numeral)
next
  case (step n)
  have "backoff_after (Suc m) = next_backoff (backoff_after m)" for m by (simp add: backoff_after_def)
  then show ?case using step.IH by (metis add_Suc)
qed

section \<open>Docker events\<close>

definition relevant :: "container_event \<Rightarrow> bool" where
  "relevant ev \<longleftrightarrow> event_cid ev \<noteq> [] \<and> fst (mapDockerActionToState (ev_Action ev)) \<noteq> []"

lemma forward_events_spec:
  assumes "forward_events evs a seen = (a', seen', ok)"
  shows "\<exists>k. ag_sent a' = ag_sent a @ map (\<lambda>ev. event_message (event_cid ev) ev) (take k (filter relevant evs)) \<and>
    (ok \<longleftrightarrow> length (filter relevant evs) \<le> k) \<and>
    seen' \<in> insert seen (ev_Time ` set (take k (filter relevant evs))) \<and> ag_daemon a' = ag_daemon a"
  using assms
proof (induction evs a seen rule: forward_events.induct)
  case (1 a seen)
  then show ?case by simp
next
  case (2 ev evs a seen)
  show ?case
  proof (cases "relevant ev")
    case False
    then have "forward_events (ev # evs) a seen = forward_events evs a seen"
      and "filter relevant (ev # evs) = filter relevant evs" by (auto simp: relevant_def)
    then show ?thesis using "2.IH"(1,2) "2.prems" False by (cases "event_cid ev = []") (auto simp: relevant_def [of ev])
  next
    case True
    then have nt: "event_cid ev \<noteq> []" "fst (mapDockerActionToState (ev_Action ev)) \<noteq> []"
      by (simp_all add: relevant_def)
    obtain a1 r where s: "agent_send (event_message (event_cid ev) ev) a = (a1, r)" by force
    note c = agent_send_cases [OF s]
    show ?thesis
    proof (cases r)
      case None
      let ?seen = "if is_zero (ev_Time ev) then seen else ev_Time ev"
      have "forward_events evs a1 ?seen = (a', seen', ok)" using "2.prems" nt s None by simp
      from "2.IH"(3) [OF nt s [unfolded None, symmetric] refl this] obtain k where k:
        "ag_sent a' = ag_sent a1 @ map (\<lambda>ev. event_message (event_cid ev) ev) (take k (filter relevant evs))"
        "ok \<longleftrightarrow> length (filter relevant evs) \<le> k"
        "seen' \<in> insert ?seen (ev_Time ` set (take k (filter relevant evs)))" "ag_daemon a' = ag_daemon a1"
        by blast
      then show ?thesis
        using True c None by (intro exI [of _ "Suc k"]) (auto split: if_splits)
    next
      case (Some e)
      then show ?thesis using "2.prems" nt s c True by (intro exI [of _ 0]) auto
    qed
  qed
qed

lemma forward_events_ok: "can_send a \<Longrightarrow> forward_events evs a seen = (a', seen', ok) \<Longrightarrow> ok"
proof (induction evs arbitrary: a seen)
  case (Cons ev evs)
  let ?msg = "event_message (event_cid ev) ev"
  let ?a = "a\<lparr>ag_sent := ag_sent a @ [?msg]\<rparr>"
  have c: "can_send ?a" using Cons.prems(1) by simp
  show ?case
    using Cons.prems(2) Cons.IH [OF Cons.prems(1)] Cons.IH [OF c] agent_send_ok [OF Cons.prems(1), of ?msg]
    by (auto split: if_splits)
qed simp

lemma events_turn_states:
  assumes "events_turn poll now c a es = (a', es', r)" and "es_backoff es = second"
  shows "es_backoff es' = second" and "r = AfterDelay d \<Longrightarrow> d \<in> {0, 2 * second, 60 * second}"
  using assms
  by (auto simp: events_turn_def Let_def backoffFor_def split: prod.splits sum.splits if_splits)

lemma events_turn_failed:
  assumes "events_turn poll now False a es = (a', es', r)" and "es_backoff es = second"
    and "Events poll (es_lastSeen es) (ag_daemon a) = (d, Inl e)"
  shows "r = AfterDelay (if es_quiet es' then 60 * second else 2 * second)"
    and "es_quiet es' \<longleftrightarrow> es_quiet es \<or> length [t \<leftarrow> es_recentFails es. t > now - 30 * second] \<ge> 2"
  using assms(1,2) by (auto simp: events_turn_def Let_def assms(3) noteEventsFailure_def backoffFor_def)

lemma noteEventsFailure_single: "noteEventsFailure now w 3 [] False = ([now], False)"
  by (simp add: noteEventsFailure_def)

lemma events_turn_stream:
  assumes "Events poll (es_lastSeen es) (ag_daemon a) = (d, Inr evs)"
    and "events_turn poll now False a es = (a', es', AfterDelay w)"
  shows "w = 0 \<and> \<not> es_quiet es' \<and> es_recentFails es' = [now]"
  using assms
  by (auto simp: events_turn_def Let_def noteEventsFailure_single split: prod.splits if_splits)

lemma events_turn_returned:
  assumes "Events poll (es_lastSeen es) (ag_daemon a) = (d, Inr evs)"
    and "events_turn poll now False a es = (a', es', r)"
  shows "r = Returned \<longleftrightarrow> \<not> snd (snd (forward_events evs (a\<lparr>ag_daemon := d\<rparr>) (es_lastSeen es)))"
  using assms by (auto simp: events_turn_def Let_def split: prod.splits if_splits)

text \<open>A daemon that accepts every subscription and closes the stream at once.\<close>

lemma events_turns_spin:
  assumes "\<And>since d. \<exists>d'. Events poll since d = (d', Inr [])"
  shows "\<exists>a' es'. events_turns poll ts a es = (a', es', replicate (length ts) (AfterDelay 0)) \<and>
    (ts \<noteq> [] \<longrightarrow> \<not> es_quiet es' \<and> es_recentFails es' = [last ts])"
proof (induction ts arbitrary: a es)
  case (Cons t ts)
  obtain d where e: "Events poll (es_lastSeen es) (ag_daemon a) = (d, Inr [])" using assms by blast
  obtain a1 es1 r where t: "events_turn poll t False a es = (a1, es1, r)" by (metis prod.exhaust)
  with e have r: "r = AfterDelay 0" "\<not> es_quiet es1" "es_recentFails es1 = [t]"
    by (auto simp: events_turn_def Let_def noteEventsFailure_single)
  from Cons.IH [of a1 es1] t r show ?case by (cases ts) auto
qed simp

section \<open>Poll\<close>

definition listed :: "container_info \<Rightarrow> bool" where
  "listed i \<longleftrightarrow> ci_DockerId i \<noteq> [] \<and> ci_ContainerId i \<noteq> []"

abbreviation listed_state :: "container_info \<Rightarrow> string" where
  "listed_state i \<equiv> fst (mapDockerListState (ci_State i))"

definition changed :: "(string \<times> string) list \<Rightarrow> container_info \<Rightarrow> bool" where
  "changed pushed i \<longleftrightarrow> listed i \<and> listed_state i \<noteq> [] \<and> map_of pushed (ci_DockerId i) \<noteq> Some (listed_state i)"

definition listed_message :: "int \<Rightarrow> container_info \<Rightarrow> agent_message" where
  "listed_message now i = poll_message now (ci_ContainerId i) (ci_DockerId i) ''poll''
     (listed_state i) (snd (mapDockerListState (ci_State i)))"

text \<open>A listing without faults reports exactly the changes and remembers every state.\<close>

lemma poll_listed_spec:
  assumes "can_send a" and "distinct (map ci_DockerId (filter listed is))"
  shows "\<exists>a' pushed'. poll_listed now is a pushed = (a', pushed', True) \<and> can_send a' \<and>
    ag_sent a' = ag_sent a @ map (listed_message now) (filter (changed pushed) is) \<and>
    map_of pushed' = (\<lambda>d. case find (\<lambda>i. listed i \<and> listed_state i \<noteq> [] \<and> ci_DockerId i = d) is of
      Some i \<Rightarrow> Some (listed_state i) | None \<Rightarrow> map_of pushed d) \<and>
    map_of (ag_reverseIDs a') = (\<lambda>d. case find (\<lambda>i. listed i \<and> ci_DockerId i = d) is of
      Some i \<Rightarrow> Some (ci_ContainerId i) | None \<Rightarrow> map_of (ag_reverseIDs a) d) \<and>
    ag_daemon a' = ag_daemon a"
  using assms
proof (induction "is" arbitrary: a pushed)
  case Nil
  then show ?case by simp
next
  case (Cons i "is")
  have d: "distinct (map ci_DockerId (filter listed is))" using Cons.prems(2) by (cases "listed i") auto
  have other: "ci_DockerId j \<noteq> ci_DockerId i" if "listed i" "listed j" "j \<in> set is" for j
  proof
    assume "ci_DockerId j = ci_DockerId i"
    then have "ci_DockerId i \<in> ci_DockerId ` {x \<in> set is. listed x}" using that(2,3) by (intro image_eqI [of _ _ j]) simp_all
    then show False using Cons.prems(2) that(1) by simp
  qed
  have fresh: "find (\<lambda>j. listed j \<and> Q j \<and> ci_DockerId j = ci_DockerId i) is = None" if "listed i" for Q
    using other [OF that] by (auto simp: find_None_iff)
  have fresh1: "find (\<lambda>j. listed j \<and> ci_DockerId j = ci_DockerId i) is = None" if "listed i"
    using fresh [OF that, of "\<lambda>j. True"] by simp
  show ?case
  proof (cases "listed i")
    case False
    then show ?thesis
      using Cons.IH [OF Cons.prems(1) d, of pushed] by (auto simp: listed_def changed_def)
  next
    case True
    let ?a = "a\<lparr>ag_reverseIDs := AList.update (ci_DockerId i) (ci_ContainerId i) (ag_reverseIDs a)\<rparr>"
    show ?thesis
    proof (cases "changed pushed i")
      case False
      have "poll_listed now (i # is) a pushed = poll_listed now is ?a pushed"
        using True False by (cases "mapDockerListState (ci_State i)") (auto simp: listed_def changed_def Let_def)
      moreover have "listed_state i \<noteq> [] \<Longrightarrow> map_of pushed (ci_DockerId i) = Some (listed_state i)"
        using True False by (simp add: changed_def)
      ultimately show ?thesis
        using Cons.IH [of ?a pushed] Cons.prems(1) d True False fresh [OF True] fresh1 [OF True]
        by (auto simp: fun_eq_iff split: option.split)
    next
      case ch: True
      let ?b = "?a\<lparr>ag_sent := ag_sent a @ [listed_message now i]\<rparr>"
      let ?p = "AList.update (ci_DockerId i) (listed_state i) pushed"
      have eq: "poll_listed now (i # is) a pushed = poll_listed now is ?b ?p"
        using True ch Cons.prems(1)
        by (cases "mapDockerListState (ci_State i)")
          (auto simp: listed_def changed_def agent_send_ok listed_message_def Let_def)
      have fil: "filter (changed ?p) is = filter (changed pushed) is"
      proof (rule filter_cong [OF refl])
        fix j assume "j \<in> set is"
        then have "listed j \<Longrightarrow> ci_DockerId j \<noteq> ci_DockerId i" using fresh1 [OF True] by (auto simp: find_None_iff)
        then show "changed ?p j = changed pushed j" by (auto simp: changed_def)
      qed
      have "listed_state i \<noteq> []" using ch by (simp add: changed_def)
      then show ?thesis
        using Cons.IH [of ?b ?p, unfolded fil] Cons.prems(1) d True ch fresh [OF True] fresh1 [OF True]
        unfolding eq by (auto simp: fun_eq_iff split: option.split)
    qed
  qed
qed

definition terminal :: "string \<Rightarrow> bool" where
  "terminal prev \<longleftrightarrow> prev = ''exited'' \<or> prev = ''removed''"

definition destroyed :: "string list \<Rightarrow> 'd agent \<Rightarrow> string \<times> string \<Rightarrow> bool" where
  "destroyed seen a e \<longleftrightarrow> fst e \<notin> set seen \<and> \<not> terminal (snd e) \<and> map_of (ag_reverseIDs a) (fst e) \<noteq> None"

definition destroy_message :: "int \<Rightarrow> 'd agent \<Rightarrow> string \<times> string \<Rightarrow> agent_message" where
  "destroy_message now a e =
     poll_message now (the (map_of (ag_reverseIDs a) (fst e))) (fst e) ''destroy'' ''exited'' ''exited''"

lemma poll_vanished_spec:
  assumes "can_send a"
  shows "\<exists>a' pushed'. poll_vanished now seen es a pushed = (a', pushed', True) \<and> can_send a' \<and>
    ag_sent a' = ag_sent a @ map (destroy_message now a) (filter (destroyed seen a) es) \<and>
    map_of pushed' = (\<lambda>d. if d \<in> fst ` set es \<and> d \<notin> set seen then None else map_of pushed d) \<and>
    ag_reverseIDs a' = ag_reverseIDs a \<and> ag_daemon a' = ag_daemon a"
  using assms
proof (induction es arbitrary: a pushed)
  case Nil
  then show ?case by simp
next
  case (Cons e es)
  obtain did prev where e: "e = (did, prev)" by force
  show ?case
  proof (cases "destroyed seen a e")
    case False
    have "poll_vanished now seen (e # es) a pushed =
      poll_vanished now seen es a (if did \<in> set seen then pushed else AList.delete did pushed)"
      using False e by (auto simp: destroyed_def terminal_def containerReverseID_def split: option.split)
    then show ?thesis
      using Cons.IH [OF Cons.prems, of "if did \<in> set seen then pushed else AList.delete did pushed"] False e
      by (auto simp: fun_eq_iff)
  next
    case True
    let ?b = "a\<lparr>ag_sent := ag_sent a @ [destroy_message now a e]\<rparr>"
    have eq: "poll_vanished now seen (e # es) a pushed = poll_vanished now seen es ?b (AList.delete did pushed)"
      using True e Cons.prems
      by (auto simp: destroyed_def terminal_def containerReverseID_def agent_send_ok destroy_message_def)
    have inv: "destroyed seen ?b = destroyed seen a" "destroy_message now ?b = destroy_message now a"
      by (simp_all add: destroyed_def destroy_message_def fun_eq_iff)
    have "did \<notin> set seen" using True e by (simp add: destroyed_def)
    then show ?thesis
      using Cons.IH [of ?b "AList.delete did pushed", unfolded inv] Cons.prems True
      unfolding eq by (auto simp: fun_eq_iff e)
  qed
qed


text \<open>A whole tick: what it sends, and what it remembers.\<close>

lemma poll_listed_distinct:
  "poll_listed now is a pushed = (a', pushed', ok) \<Longrightarrow> distinct (map fst pushed) \<Longrightarrow> distinct (map fst pushed')"
proof (induction "is" arbitrary: a pushed)
  case (Cons i "is")
  obtain st su where m: "mapDockerListState (ci_State i) = (st, su)" by force
  let ?a = "a\<lparr>ag_reverseIDs := AList.update (ci_DockerId i) (ci_ContainerId i) (ag_reverseIDs a)\<rparr>"
  obtain a2 r where s: "agent_send (poll_message now (ci_ContainerId i) (ci_DockerId i) ''poll'' st su) ?a = (a2, r)"
    by force
  have d: "distinct (map fst (AList.update k v pushed))" "distinct (map fst (AList.delete k pushed))" for k v
    using Cons.prems(2) by (simp_all only: distinct_update distinct_delete)
  note prems = Cons.prems(1) [unfolded poll_listed.simps(2) Let_def m prod.case s]
  show ?case
  proof (cases "ci_DockerId i = [] \<or> ci_ContainerId i = [] \<or> st = [] \<or> map_of pushed (ci_DockerId i) = Some st")
    case True
    then show ?thesis using prems Cons.IH [OF _ Cons.prems(2)] by (auto split: if_splits)
  next
    case False
    then show ?thesis using prems Cons.IH [OF _ d(1)] d(2) by (cases r) auto
  qed
qed simp

lemma poll_vanished_distinct:
  "poll_vanished now ids es a pushed = (a', pushed', ok) \<Longrightarrow> distinct (map fst pushed) \<Longrightarrow> distinct (map fst pushed')"
proof (induction es arbitrary: a pushed)
  case (Cons e es)
  obtain did prev where e: "e = (did, prev)" by force
  have d: "distinct (map fst (AList.delete k pushed))" for k
    using Cons.prems(2) by (simp only: distinct_delete)
  show ?case
    using Cons.prems(1) Cons.IH [OF _ Cons.prems(2)] Cons.IH [OF _ d] d unfolding e
    by (auto split: if_splits option.splits prod.splits)
qed simp

definition vanished :: "string list \<Rightarrow> (string \<times> string) list \<Rightarrow> 'd agent \<Rightarrow> (string \<times> string) set" where
  "vanished ids pushed a = {(did, cid). did \<notin> set ids \<and> map_of (ag_reverseIDs a) did = Some cid \<and>
     (\<exists>prev. map_of pushed did = Some prev \<and> \<not> terminal prev)}"

definition destroy_report :: "int \<Rightarrow> string \<times> string \<Rightarrow> agent_message" where
  "destroy_report now e = poll_message now (snd e) (fst e) ''destroy'' ''exited'' ''exited''"

lemma distinct_if_map: "distinct (map f xs) \<Longrightarrow> distinct xs"
  by (simp add: distinct_map)

lemma find_listed_None: "d \<notin> set (seen_ids is) \<Longrightarrow> find (\<lambda>i. listed i \<and> Q i \<and> ci_DockerId i = d) is = None"
  by (auto simp: find_None_iff seen_ids_def listed_def)

lemma poll_tick_spec:
  assumes a: "can_send a" and l: "ListAgent http (ag_daemon a) = (d, Inr infos)"
    and u: "distinct (seen_ids infos)" and p: "distinct (map fst pushed)"
    and v: "\<And>xs. mset (visit xs) = mset xs"
  shows "\<exists>a' pushed' gone. poll_tick http visit now a pushed = (a', pushed', True) \<and> can_send a' \<and>
    ag_sent a' = ag_sent a @ map (listed_message now) (filter (changed pushed) infos) @ map (destroy_report now) gone \<and>
    distinct gone \<and> set gone = vanished (seen_ids infos) pushed a \<and> ag_daemon a' = d \<and>
    distinct (map fst pushed') \<and>
    map_of pushed' = (\<lambda>x. case find (\<lambda>i. listed i \<and> listed_state i \<noteq> [] \<and> ci_DockerId i = x) infos of
      Some i \<Rightarrow> Some (listed_state i) | None \<Rightarrow> if x \<in> set (seen_ids infos) then map_of pushed x else None)"
proof -
  let ?ids = "seen_ids infos" and ?a = "a\<lparr>ag_daemon := d\<rparr>"
  have u': "distinct (map ci_DockerId (filter listed infos))" using u by (simp add: seen_ids_def listed_def [abs_def])
  have rev: "ag_reverseIDs ?a = ag_reverseIDs a" by simp
  obtain a1 p1 where 1: "poll_listed now infos ?a pushed = (a1, p1, True)" "can_send a1"
    "ag_sent a1 = ag_sent a @ map (listed_message now) (filter (changed pushed) infos)"
    "map_of p1 = (\<lambda>d. case find (\<lambda>i. listed i \<and> listed_state i \<noteq> [] \<and> ci_DockerId i = d) infos of
      Some i \<Rightarrow> Some (listed_state i) | None \<Rightarrow> map_of pushed d)"
    "map_of (ag_reverseIDs a1) = (\<lambda>d. case find (\<lambda>i. listed i \<and> ci_DockerId i = d) infos of
      Some i \<Rightarrow> Some (ci_ContainerId i) | None \<Rightarrow> map_of (ag_reverseIDs a) d)" "ag_daemon a1 = d"
    using poll_listed_spec [of ?a infos now pushed] a u' unfolding rev by auto
  have dp: "distinct (map fst p1)" by (rule poll_listed_distinct [OF 1(1) p])
  have vs: "set (visit p1) = set p1" "distinct (visit p1)"
    using mset_eq_setD [OF v [of p1]] mset_eq_imp_distinct_iff [OF v [of p1]] dp
    by (simp_all add: distinct_map)
  obtain a2 p2 where 2: "poll_vanished now ?ids (visit p1) a1 p1 = (a2, p2, True)" "can_send a2"
    "ag_sent a2 = ag_sent a1 @ map (destroy_message now a1) (filter (destroyed ?ids a1) (visit p1))"
    "map_of p2 = (\<lambda>d. if d \<in> fst ` set (visit p1) \<and> d \<notin> set ?ids then None else map_of p1 d)"
    "ag_daemon a2 = ag_daemon a1"
    using poll_vanished_spec [OF 1(2), of now ?ids "visit p1" p1] by blast
  let ?es = "filter (destroyed ?ids a1) (visit p1)"
  let ?pair = "\<lambda>e. (fst e, the (map_of (ag_reverseIDs a1) (fst e)))"
  let ?gone = "map ?pair ?es"
  have out: "map_of p1 x = map_of pushed x" "map_of (ag_reverseIDs a1) x = map_of (ag_reverseIDs a) x"
    if "x \<notin> set ?ids" for x
    using find_listed_None [OF that, of "\<lambda>i. listed_state i \<noteq> []"] find_listed_None [OF that, of "\<lambda>i. True"]
    by (simp_all add: 1(4,5))
  have in_p1: "(x, y) \<in> set p1 \<longleftrightarrow> map_of p1 x = Some y" for x y using dp by simp
  have "set ?gone = vanished ?ids pushed a"
    unfolding vanished_def using vs(1) in_p1 out
    by (auto simp: destroyed_def image_iff)
  moreover have "distinct ?gone"
  proof -
    have "distinct (map fst (visit p1))" using dp v [of p1] by (metis mset_eq_imp_distinct_iff mset_map)
    then have "distinct (map fst ?es)" by (rule distinct_map_filter)
    moreover have "map fst ?gone = map fst ?es" by (simp only: map_map comp_def fst_conv)
    ultimately have "distinct (map fst ?gone)" by (simp only:)
    then show ?thesis by (rule distinct_if_map)
  qed
  moreover have "map (destroy_message now a1) ?es = map (destroy_report now) ?gone"
    by (simp add: destroy_message_def destroy_report_def)
  moreover have "map_of p2 x = (case find (\<lambda>i. listed i \<and> listed_state i \<noteq> [] \<and> ci_DockerId i = x) infos of
      Some i \<Rightarrow> Some (listed_state i) | None \<Rightarrow> if x \<in> set ?ids then map_of pushed x else None)" for x
  proof (cases "x \<in> set ?ids")
    case True
    then show ?thesis by (simp add: 2(4) 1(4) split: option.split)
  next
    case False
    have "x \<notin> fst ` set p1 \<Longrightarrow> map_of p1 x = None" by (simp add: map_of_eq_None_iff)
    then show ?thesis using False find_listed_None [OF False, of "\<lambda>i. listed_state i \<noteq> []"]
      by (auto simp: 2(4) vs(1))
  qed
  moreover have "distinct (map fst p2)"
    by (rule poll_vanished_distinct [OF 2(1) dp])
  moreover have "poll_tick http visit now a pushed = (a2, p2, True)"
    by (simp add: poll_tick_def l 1(1) 2(1))
  ultimately show ?thesis using 1(3,6) 2(2,3,5) by (intro exI [of _ a2] exI [of _ p2] exI [of _ ?gone]) auto
qed

end
