(* ===== verification/Agent_Props.thy ===== *)
theory Agent_Props
  imports Entry Agent_Thms Life_Props
begin

text \<open>
  The properties of the agent, and of master and agent together.
\<close>

section \<open>Identity\<close>

text \<open>C39. The machine identity survives restarts: once loading it succeeded, every later load from the
  directory it left gives the same id, whatever random bytes the later process draws; and a load that
  failed, at whichever system call, has left the identity file as it was.\<close>

theorem identity_stable:
  assumes "Load_identity tmp part (Inr b) dir d = (d', r)" and "tmp \<noteq> id_file" "b \<noteq> []"
  shows "case r of
      Inr mid \<Rightarrow> mid \<noteq> [] \<and> (\<forall>d2 tmp2 part2 rnd2. sd_faults d2 = [] \<and> sd_files d2 = sd_files d' \<longrightarrow>
        Load_identity tmp2 part2 rnd2 dir d2 = (d2, Inr mid))
    | Inl e \<Rightarrow> map_of (sd_files d') id_file = map_of (sd_files d) id_file"
proof (cases r)
  case (Inr mid)
  obtain t where t: "map_of (sd_files d') id_file = Some t" "trimSpace t = mid" "mid \<noteq> []"
    using Load_identity_ok [OF assms(2,3) assms(1) [unfolded Inr]] by blast
  have "dir \<noteq> []" using assms(1) Inr by (auto simp: Load_identity_def)
  with t have "Load_identity tmp2 part2 rnd2 dir d2 = (d2, Inr mid)"
    if "sd_faults d2 = []" "sd_files d2 = sd_files d'" for d2 tmp2 part2 rnd2
    using Load_identity_known [of d2 dir t tmp2 part2 rnd2] that by simp
  with Inr t show ?thesis by simp
next
  case (Inl e)
  then show ?thesis using Load_identity_fails [OF assms(2)] assms(1) by simp
qed

lemma identity_stable_witness:
  "\<exists>d mid. Load_identity ''t'' 0 (Inr [171]) ''/s'' \<lparr>sd_files = [], sd_faults = []\<rparr> = (d, Inr mid) \<and>
     Load_identity ''u'' 0 (Inr [205]) ''/s'' d = (d, Inr mid)"
proof -
  obtain d where l: "Load_identity ''t'' 0 (Inr [171]) ''/s'' \<lparr>sd_files = [], sd_faults = []\<rparr> = (d, Inr (hex_encode [171]))"
      "sd_faults d = []"
    by (simp add: Load_identity_def syscall_def generate_def writeAtomic_def put_file_def Let_def id_file_def)
  from identity_stable [OF l(1)] have "Load_identity ''u'' 0 (Inr [205]) ''/s'' d = (d, Inr (hex_encode [171]))"
    using l(2) by (simp add: id_file_def)
  with l show ?thesis by blast
qed

section \<open>Host metrics\<close>

text \<open>The disks of a report: sorted by mount point, one per device, none on an ignored mount or file
  system; and no device of the host is forgotten, each kept partition is represented by one of the
  same device whose mount point is not longer. The order in which Go ranges over the map does not
  matter when the kept mount points are distinct.\<close>

lemma partitions_filtered:
  assumes v: "\<And>xs. mset (visit xs) = mset xs" "\<And>xs. mset (visit' xs) = mset xs"
  shows "sorted (map pt_Mountpoint (filterPartitions visit parts)) \<and>
    distinct (map device_key (filterPartitions visit parts)) \<and>
    set (filterPartitions visit parts) \<subseteq> {p \<in> set parts. \<not> isIgnoredMount (pt_Mountpoint p) \<and> \<not> isIgnoredFstype (pt_Fstype p)} \<and>
    (\<forall>p \<in> set parts. kept p \<longrightarrow> (\<exists>q \<in> set (filterPartitions visit parts).
      device_key q = device_key p \<and> length (pt_Mountpoint q) \<le> length (pt_Mountpoint p))) \<and>
    (inj_on pt_Mountpoint {p \<in> set parts. kept p} \<longrightarrow> filterPartitions visit parts = filterPartitions visit' parts)"
proof (intro conjI ballI impI)
  note f = filterPartitions_facts [where visit = visit and parts = parts, OF v(1)]
  show "sorted (map pt_Mountpoint (filterPartitions visit parts))"
    "distinct (map device_key (filterPartitions visit parts))" by (rule f)+
  show "set (filterPartitions visit parts) \<subseteq>
      {p \<in> set parts. \<not> isIgnoredMount (pt_Mountpoint p) \<and> \<not> isIgnoredFstype (pt_Fstype p)}"
    using f(3) by (auto simp: kept_def)
  show "\<exists>q \<in> set (filterPartitions visit parts).
      device_key q = device_key p \<and> length (pt_Mountpoint q) \<le> length (pt_Mountpoint p)"
    if "p \<in> set parts" "kept p" for p using f(4) [OF that] .
  show "filterPartitions visit parts = filterPartitions visit' parts"
    if "inj_on pt_Mountpoint {p \<in> set parts. kept p}" by (rule filterPartitions_order [OF v that])
qed

definition ex_partition :: partition where
  "ex_partition = \<lparr>pt_Device = ''/dev/sda1'', pt_Mountpoint = ''/boot/efi'', pt_Fstype = ''vfat''\<rparr>"

lemma partitions_filtered_witness: "set (filterPartitions rev [ex_partition]) = {}"
proof (rule equals0I)
  fix p assume "p \<in> set (filterPartitions rev [ex_partition])"
  with partitions_filtered [of rev id "[ex_partition]"] have "p = ex_partition" "\<not> isIgnoredMount (pt_Mountpoint p)" by auto
  then show False
    by (simp add: ex_partition_def isIgnoredMount_def ignoredMountPrefixes_def hasPrefix_def)
qed

section \<open>The Docker client\<close>

text \<open>C38. What a create sends to Docker. If it succeeds: image requests, then the create request with the
  command's body, then the start of the container whose id Docker answered, both accepted. Whatever
  happens, nothing is ever deleted: a container that was created but could not be started stays on the
  host although the create is reported as failed.\<close>

theorem docker_create_requests:
  assumes "Create (logged http) cmd ([], d) = ((l, d'), r)"
  shows "(\<forall>x \<in> set l. hq_method (fst x) \<noteq> ''DELETE'') \<and>
    (case r of Inl e \<Rightarrow> True
     | Inr did \<Rightarrow> did \<noteq> [] \<and> (\<exists>pre a b v.
        l = pre @ [(request ''POST'' ''/containers/create'' (Some (render (create_body cmd))), Inr a),
          (request ''POST'' (''/containers/'' @ did @ ''/start'') None, Inr b)] \<and>
        (\<forall>x \<in> set pre. hasPrefix (hq_path (fst x)) ''/images/'') \<and>
        ha_status a < 400 \<and> ha_status b < 400 \<and> ha_json a = Inr v \<and> read_id v = Some did))"
proof (cases r)
  case (Inl e)
  then show ?thesis using Create_no_delete [OF assms] by simp
next
  case (Inr did)
  obtain pre a b where "l = [] @ pre @ [(request ''POST'' ''/containers/create'' (Some (render (create_body cmd))), Inr a),
       (request ''POST'' (''/containers/'' @ did @ ''/start'') None, Inr b)]"
    "\<forall>x \<in> set pre. image_request x" "ha_status a < 400" "ha_status b < 400" "did \<noteq> []"
    "\<exists>v. ha_json a = Inr v \<and> read_id v = Some did"
    by (rule Create_Inr [OF assms [unfolded Inr]])
  then show ?thesis using Create_no_delete [OF assms] Inr
    by (auto simp: image_request_def intro!: exI [of _ pre] exI [of _ a] exI [of _ b])
qed

definition ex_answer :: http_answer where
  "ex_answer = \<lparr>ha_status = 201, ha_text = [], ha_json = Inr (JObj [(''Id'', JStr ''d9'')])\<rparr>"

definition ex_daemon :: "'d daemon" where
  "ex_daemon q d = (d, Inr ex_answer)"

definition ex_cmd :: create_command where
  "ex_cmd = \<lparr>cr_container_id = ''c9'', cr_image = ''nginx'', cr_env = [], cr_cmd = [], cr_volume_binds = [],
     cr_ports = [], cr_resources = None, cr_name = [], cr_pull = False\<rparr>"

lemma ex_daemon_create: "Create ex_daemon cmd d = (d, Inr ''d9'')"
proof -
  have j: "doJSON ex_daemon m p b d = (d, Inr ex_answer)" for m p b
    by (simp add: doJSON_def ex_daemon_def ex_answer_def)
  have "image_ready ex_daemon cmd d = (d, None)"
    by (simp add: image_ready_def pull_def ImageExists_def docker_do_def j del: render.simps)
  moreover have "read_id (JObj [(''Id'', JStr ''d9'')]) = Some ''d9''"
    by (simp add: read_id_def same_key_def lower_ascii_def)
  moreover have "ha_json ex_answer = Inr (JObj [(''Id'', JStr ''d9'')])" by (simp add: ex_answer_def)
  ultimately show ?thesis by (simp add: Create_def docker_do_def j del: render.simps)
qed

lemma docker_create_requests_witness:
  "\<exists>l d r. Create (logged ex_daemon) ex_cmd ([], ()) = ((l, d), r) \<and> (\<forall>x \<in> set l. hq_method (fst x) \<noteq> ''DELETE'')"
proof -
  obtain l u r where c: "Create (logged ex_daemon) ex_cmd ([], ()) = ((l, u), r)" by (metis prod.exhaust)
  from docker_create_requests [OF this] have "\<forall>x \<in> set l. hq_method (fst x) \<noteq> ''DELETE''" by (rule conjunct1)
  with c show ?thesis by blast
qed

section \<open>The loops of a session\<close>

text \<open>The waits between failed sessions are 1, 2, 4, 8, 16 and 32 seconds and then repeat 5, 10, 20, 40:
  the agent never gives up and never waits longer than 40 seconds.\<close>

lemma reconnect_delays:
  "Run (Inr h) v (\<lambda>_ _. map (\<lambda>e. (ServeFailed e, False)) es) = Inr (map backoff_after [0..<length es]) \<and>
   map backoff_after [0..<10] = backoff_values \<and> backoff_after (n + 10) = backoff_after (n + 6) \<and>
   second \<le> backoff_after n \<and> backoff_after n \<le> 40 * second"
proof (intro conjI)
  show "Run (Inr h) v (\<lambda>_ _. map (\<lambda>e. (ServeFailed e, False)) es) = Inr (map backoff_after [0..<length es])"
    by (simp add: Run_def HostInfo_def Run_loop_failures backoff_after_def [abs_def])
  show "map backoff_after [0..<10] = backoff_values"
    by (simp add: backoff_after_def backoff_values_def next_backoff_def upt_rec eval_nat_numeral)
  show "backoff_after (n + 10) = backoff_after (n + 6)"
    using backoff_cycle [of "n + 6"] by (simp add: add.assoc)
  show "second \<le> backoff_after n" "backoff_after n \<le> 40 * second"
    using backoff_after_values [of n] by (auto simp: backoff_values_def)
qed

text \<open>C36. Docker events reach the master in order and exactly once: what one stream adds to the sent
  messages is, for a prefix of its relevant events, one message each; all of them when the session can
  send. When a send fails the loop ends there: the later events of the stream are lost.\<close>

theorem events_forwarded:
  assumes "forward_events evs a seen = (a', seen', ok)"
  shows "\<exists>k. ag_sent a' = ag_sent a @ map (\<lambda>ev. event_message (event_cid ev) ev) (take k (filter relevant evs)) \<and>
    (ok \<longleftrightarrow> length (filter relevant evs) \<le> k) \<and> (can_send a \<longrightarrow> ok) \<and>
    seen' \<in> insert seen (ev_Time ` set (take k (filter relevant evs))) \<and> ag_daemon a' = ag_daemon a"
  using forward_events_spec [OF assms] forward_events_ok [OF _ assms] by blast

definition ex_agent :: "unit agent" where
  "ex_agent = \<lparr>ag_nodeName = ''alpha'', ag_machineID = ''m1'', ag_pollInterval = 10 * second, ag_eventsEnabled = True,
     ag_stream = True, ag_sent = [], ag_faults = [], ag_reverseIDs = [(''d1'', ''c1'')], ag_daemon = ()\<rparr>"

lemma ex_agent_sends: "can_send ex_agent" "ag_sent ex_agent = []" "ag_daemon ex_agent = ()"
  by (simp_all add: can_send_def ex_agent_def)

definition ex_event :: container_event where
  "ex_event = \<lparr>ev_ID = ''d1'', ev_Action = ''die'', ev_Time = 7, ev_Attributes = [(''pumpkinpie.container_id'', ''c1'')]\<rparr>"

lemma events_forwarded_witness:
  "\<exists>a' seen'. forward_events [ex_event] ex_agent 0 = (a', seen', True) \<and> ag_sent a' = [event_message ''c1'' ex_event]"
proof -
  obtain a' seen' ok where f: "forward_events [ex_event] ex_agent 0 = (a', seen', ok)" by (metis prod.exhaust)
  have r: "filter relevant [ex_event] = [ex_event]" "event_cid ex_event = ''c1''"
    by (simp_all add: relevant_def ex_event_def event_cid_def mapDockerActionToState_def)
  obtain k where "ag_sent a' = map (\<lambda>ev. event_message (event_cid ev) ev) (take k [ex_event])" "ok" "1 \<le> k"
    using events_forwarded [OF f] unfolding r by (auto simp: ex_agent_sends)
  with f r show ?thesis by (cases k) auto
qed

text \<open>C37. What follows a turn of the events loop. A failed subscription is retried after two seconds, or
  after a minute once the loop is quiet: the wait never grows, because the loop never stores the longer
  one. After a subscription that succeeds the loop ends exactly if an event of the stream could not be
  sent; otherwise, when the stream closes, the next turn follows at once, with the failures and the quiet
  flag cleared but for this one failure. So a daemon that closes every stream at once is asked again at
  once, in any number of turns, and the loop never gets quiet.\<close>

theorem events_retry_delays:
  fixes poll a es now
  defines "x \<equiv> Events poll (es_lastSeen es) (ag_daemon a)"
  assumes t: "events_turn poll now False a es = (a', es', r)" and b: "es_backoff es = second"
  shows "es_backoff es' = second \<and>
    (case snd x of
       Inl e \<Rightarrow> r = AfterDelay (if es_quiet es' then 60 * second else 2 * second) \<and>
         (es_quiet es' \<longleftrightarrow> es_quiet es \<or> length [t \<leftarrow> es_recentFails es. t > now - 30 * second] \<ge> 2)
     | Inr evs \<Rightarrow>
         (r = Returned \<longleftrightarrow> \<not> snd (snd (forward_events evs (a\<lparr>ag_daemon := fst x\<rparr>) (es_lastSeen es)))) \<and>
         (can_send a \<longrightarrow> r \<noteq> Returned) \<and>
         (r \<noteq> Returned \<longrightarrow> r = AfterDelay 0 \<and> \<not> es_quiet es' \<and> es_recentFails es' = [now])) \<and>
    ((\<forall>since d. \<exists>d'. Events poll since d = (d', Inr [])) \<longrightarrow>
      (\<forall>ts. \<exists>a2 es2. events_turns poll ts a es = (a2, es2, replicate (length ts) (AfterDelay 0)) \<and>
        (ts \<noteq> [] \<longrightarrow> \<not> es_quiet es2)))"
proof -
  obtain d y where e: "Events poll (es_lastSeen es) (ag_daemon a) = (d, y)" by force
  have spin: "(\<forall>since d. \<exists>d'. Events poll since d = (d', Inr [])) \<longrightarrow>
      (\<forall>ts. \<exists>a2 es2. events_turns poll ts a es = (a2, es2, replicate (length ts) (AfterDelay 0)) \<and>
        (ts \<noteq> [] \<longrightarrow> \<not> es_quiet es2))"
    using events_turns_spin [of poll _ a es] by blast
  show ?thesis
  proof (cases y)
    case (Inl m)
    with events_turn_failed [OF t b e [unfolded Inl]] events_turn_states(1) [OF t b] e spin
    show ?thesis by (simp add: x_def)
  next
    case (Inr evs)
    note ret = events_turn_returned [OF e [unfolded Inr] t]
    have "r \<noteq> Returned" if "can_send a"
    proof -
      have "can_send (a\<lparr>ag_daemon := d\<rparr>)" using that by (simp add: can_send_def)
      then show ?thesis unfolding ret using forward_events_ok by (metis prod.collapse)
    qed
    moreover have "r = AfterDelay 0 \<and> \<not> es_quiet es' \<and> es_recentFails es' = [now]" if "r \<noteq> Returned"
    proof (cases r)
      case (AfterDelay w)
      with events_turn_stream [OF e [unfolded Inr] t [unfolded AfterDelay]] show ?thesis by simp
    qed (use that in simp)
    ultimately show ?thesis using e Inr ret spin events_turn_states(1) [OF t b] by (simp add: x_def)
  qed
qed

definition ex_no_events :: "string \<Rightarrow> unit \<Rightarrow> unit \<times> (string + nat \<times> string \<times> json list)" where
  "ex_no_events path d = (d, Inr (200, [], []))"

lemma events_retry_delays_witness:
  "(\<exists>es'. events_turn ex_no_events 20 False ex_agent events_init = (ex_agent, es', AfterDelay 0) \<and> \<not> es_quiet es') \<and>
   (\<exists>a2 es2. events_turns ex_no_events [20, 21, 22, 23] ex_agent events_init =
      (a2, es2, [AfterDelay 0, AfterDelay 0, AfterDelay 0, AfterDelay 0]) \<and> \<not> es_quiet es2)"
proof -
  have e: "Events ex_no_events since d = ((), Inr [])" for since d
    by (simp add: Events_def ex_no_events_def)
  obtain a' es' r where t: "events_turn ex_no_events 20 False ex_agent events_init = (a', es', r)" by (metis prod.exhaust)
  have "r \<noteq> Returned" "a' = ex_agent"
    using t e by (auto simp: events_turn_def Let_def ex_agent_def split: prod.splits)
  moreover have "es_backoff events_init = second" by (simp add: events_init_def)
  note f = events_retry_delays [OF t this]
  moreover have "\<exists>a2 es2. events_turns ex_no_events [20, 21, 22, 23] ex_agent events_init =
      (a2, es2, replicate (length [20, 21, 22, 23 :: gotime]) (AfterDelay 0)) \<and> \<not> es_quiet es2"
    using f e by (metis list.distinct(1))
  ultimately show ?thesis using t e by (simp add: numeral_eq_Suc)
qed

text \<open>C35. A poll over a working session reports exactly the changes: one message for each listed
  container whose state differs from the one last pushed, in the order of the list, then one destroy
  for each container that was listed before, is gone and was not already terminal. Afterwards the
  remembered states are those of the listing.\<close>

theorem poll_reports_changes:
  assumes "can_send a" and "ListAgent http (ag_daemon a) = (d, Inr infos)"
    and "distinct (seen_ids infos)" and "distinct (map fst pushed)"
    and "\<And>xs. mset (visit xs) = mset xs"
  shows "\<exists>a' pushed' gone. poll_tick http visit now a pushed = (a', pushed', True) \<and> can_send a' \<and>
    ag_sent a' = ag_sent a @ map (listed_message now) (filter (changed pushed) infos) @ map (destroy_report now) gone \<and>
    distinct gone \<and> set gone = vanished (seen_ids infos) pushed a \<and> ag_daemon a' = d \<and>
    distinct (map fst pushed') \<and>
    map_of pushed' = (\<lambda>x. case find (\<lambda>i. listed i \<and> listed_state i \<noteq> [] \<and> ci_DockerId i = x) infos of
      Some i \<Rightarrow> Some (listed_state i) | None \<Rightarrow> if x \<in> set (seen_ids infos) then map_of pushed x else None)"
  using assms by (rule poll_tick_spec)

lemma distinct_singleton:
  assumes "distinct xs" and "set xs = {x}"
  shows "xs = [x]"
proof -
  have "length xs = Suc 0" using distinct_card [OF assms(1)] by (simp add: assms(2))
  then obtain a where "xs = [a]" by (auto simp: length_Suc_conv)
  with assms(2) show ?thesis by simp
qed

definition ex_listing :: "unit daemon" where
  "ex_listing q d = (d, Inr \<lparr>ha_status = 200, ha_text = [], ha_json = Inr JNull\<rparr>)"

lemma poll_reports_changes_witness:
  "\<exists>a' pushed'. poll_tick ex_listing id 20 ex_agent [(''d1'', ''running'')] = (a', pushed', True) \<and>
     ag_sent a' = [destroy_report 20 (''d1'', ''c1'')]"
proof -
  have l: "ListAgent ex_listing (ag_daemon ex_agent) = ((), Inr [])"
    by (simp add: ListAgent_def doJSON_def ex_listing_def)
  obtain a' pushed' gone where p: "poll_tick ex_listing id 20 ex_agent [(''d1'', ''running'')] = (a', pushed', True)"
    "ag_sent a' = map (destroy_report 20) gone" "distinct gone"
    "set gone = vanished [] [(''d1'', ''running'')] ex_agent"
    using poll_reports_changes [of ex_agent ex_listing "()" "[]" "[(''d1'', ''running'')]" id 20] l
    by (auto simp: ex_agent_sends seen_ids_def)
  have "vanished [] [(''d1'', ''running'')] ex_agent = {(''d1'', ''c1'')}"
    by (auto simp: vanished_def terminal_def ex_agent_def split: if_splits)
  with p(3,4) have "gone = [(''d1'', ''c1'')]" using distinct_singleton by simp
  with p(1,2) show ?thesis by auto
qed

section \<open>Master and agent together\<close>

definition created_ack :: "string \<Rightarrow> string + string \<Rightarrow> container_ack" where
  "created_ack cid r = (case r of Inl e \<Rightarrow> ack_of cid [] (Some e) | Inr did \<Rightarrow> ack_of cid did None)"

lemma handleCreate_acks:
  assumes "can_send a" and "Create http cmd (ag_daemon a) = (d, r)"
  shows "ag_sent (handleMasterMessage http (MasterCreateContainer cmd) a) =
    ag_sent a @ [AgentContainerCreated (created_ack (cr_container_id cmd) r)]"
proof -
  have "agent_send m (a\<lparr>ag_daemon := d\<rparr>) = (a\<lparr>ag_daemon := d, ag_sent := ag_sent a @ [m]\<rparr>, None)" for m
    using assms(1) agent_send_ok [of "a\<lparr>ag_daemon := d\<rparr>" m] by simp
  then show ?thesis by (simp add: handleCreate_def assms(2) Let_def created_ack_def)
qed

lemma foreign_holder:
  assumes "integrity s" and "cid \<notin> c_ID ` set (st_containers s)"
  shows "holder s k \<noteq> Some cid"
proof (cases k)
  case (Pair n i)
  have "g_container ` set (st_gpus s) \<subseteq> c_ID ` set (st_containers s)" using assms(1) by (simp add: integrity_defs)
  with assms(2) show ?thesis unfolding Pair holder_Some_iff [OF assms(1)] by auto
qed

text \<open>C11. A create, end to end. The command that a successful create puts on the session's stream makes the
  agent, over a working stream, run one Docker create and answer with one acknowledgement; when
  the master, its database working, has handled it, the container is running under Docker's id and keeps its GPUs, or, if
  Docker failed, it is in the state error with Docker's message and the GPU table is as it was before
  the create.\<close>

theorem create_round_trip:
  assumes c: "createContainer ev (Inr req) y = Some (y', JSON 200 (BCreated cc nid nm url g))"
    and h: "integrity (sy_store y)" "st_faults (sy_store y') = []" and s: "Get nid (sy_mgr y) = Some sess"
    and a: "can_send a"
  shows "\<exists>cmd. mg_sent (sy_mgr y') = mg_sent (sy_mgr y) @ [(se_stream sess, MasterCreateContainer cmd)] \<and>
    (\<forall>http d r. Create http cmd (ag_daemon a) = (d, r) \<and> r \<noteq> Inl [] \<and> r \<noteq> Inr [] \<longrightarrow>
      (\<exists>ack. ag_sent (handleMasterMessage http (MasterCreateContainer cmd) a) = ag_sent a @ [ack] \<and>
        (case r of
           Inr did \<Rightarrow>
             row (mg_store (handleIncoming now sess ack (sy_mgr y'))) (c_ID cc) =
               Some (set_state now did ''running'' ''running'' cc) \<and>
             holder (mg_store (handleIncoming now sess ack (sy_mgr y'))) = holder (sy_store y')
         | Inl e \<Rightarrow>
             row (mg_store (handleIncoming now sess ack (sy_mgr y'))) (c_ID cc) =
               Some (set_state now [] ''error'' e cc) \<and>
             holder (mg_store (handleIncoming now sess ack (sy_mgr y'))) = holder (sy_store y))))"
proof -
  obtain req' idxs where f: "st_containers (sy_store y') = st_containers (sy_store y) @ [cc]"
      "c_ID cc \<notin> c_ID ` set (st_containers (sy_store y))"
      "\<forall>i \<in> set idxs. holder (sy_store y) (nid, i) = None"
      "holder (sy_store y') = (\<lambda>k. if fst k = nid \<and> snd k \<in> set idxs then Some (c_ID cc) else holder (sy_store y) k)"
      "mg_sent (sy_mgr y') = mg_sent (sy_mgr y) @ [(se_stream sess, create_message (c_ID cc) req'
        (portMappingsToProto (cq_PortMappings req')) (container_name ev req') idxs)]"
    using createContainer_facts [OF c] s by auto
  obtain cmd where cmd: "create_message (c_ID cc) req' (portMappingsToProto (cq_PortMappings req'))
      (container_name ev req') idxs = MasterCreateContainer cmd" "cr_container_id cmd = c_ID cc"
    by (simp add: create_message_def)
  have i: "integrity (sy_store y')" using sys_integrity.createContainer_keeps [OF c h(1)] .
  have row: "row (sy_store y') (c_ID cc) = Some cc"
    using row_Some_iff [OF i] f(1) by simp
  have foreign: "holder (sy_store y) k \<noteq> Some (c_ID cc)" for k
    using foreign_holder [OF h(1) f(2)] .
  have fail: "(\<lambda>k. if holder (sy_store y') k = Some (c_ID cc) then None else holder (sy_store y') k) = holder (sy_store y)"
    using f(3) foreign by (auto simp: f(4) fun_eq_iff)
  have ack: "row (mg_store (handleIncoming now sess (AgentContainerCreated k) (sy_mgr y'))) (c_ID cc) =
      Some (set_state now (ca_docker_id k) (if ca_error k = [] then ''running'' else ''error'')
        (if ca_error k = [] then ''running'' else ca_error k) cc)"
    "holder (mg_store (handleIncoming now sess (AgentContainerCreated k) (sy_mgr y'))) =
      (if ca_error k = [] then holder (sy_store y') else holder (sy_store y))"
    if "ca_container_id k = c_ID cc" for k
    using command_ack_facts(1) [where cid = "c_ID cc", OF h(2) i disjI1, OF refl, of now sess]
      command_ack_facts(2) [OF h(2) i disjI1, OF refl, of now sess]
      row fail that by (simp_all add: fun_eq_iff del: handleIncoming.simps)
  show ?thesis
    using ack f(5) cmd handleCreate_acks [OF a]
    by (auto simp: created_ack_def ack_of_def split: sum.split intro!: exI [of _ cmd])
qed

lemma created_keeps_working:
  assumes "creatable ev req n (sy_store y)" and "create_on ev req n sess y = Some (y', JSON code (BCreated cc nid nm url g))"
  shows "st_faults (sy_store y') = []"
proof (rule create_on_hand_off [OF assms(1), of sess], goal_cases)
  case (1 ext idxs cc0)
  note h = 1(4) [unfolded assms(2) option.inject, symmetric]
  have "st_faults (sy_store y) = []" using assms(1) by (auto simp: creatable_def dest: healthyD)
  then show ?case using hand_off_created(5) [OF h]
    by (simp add: give_gpus_def with_port_def add_port_def add_container_def add_gpus_def update_container_def)
qed

lemma create_round_trip_witness:
  "\<exists>y' cc url g cmd. createContainer ex_env (Inr ex_req) ex_sys = Some (y', JSON 200 (BCreated cc ''n1'' ''alpha'' url g)) \<and>
     mg_sent (sy_mgr y') = [(7, MasterCreateContainer cmd)] \<and>
     (\<exists>ack. ag_sent (handleMasterMessage ex_daemon (MasterCreateContainer cmd) ex_agent) = [ack] \<and>
        row (mg_store (handleIncoming 20 ex_session ack (sy_mgr y'))) (c_ID cc) =
          Some (set_state 20 ''d9'' ''running'' ''running'' cc))"
proof -
  obtain y' cc url g where c: "createContainer ex_env (Inr ex_req) ex_sys =
    Some (y', JSON 200 (BCreated cc ''n1'' ''alpha'' url g))" using ex_created by blast
  have "creatable ex_env ex_req ex_node (sy_store ex_sys)" by (simp add: ex_creatable)
  then have f: "st_faults (sy_store y') = []" using created_keeps_working c [unfolded ex_create_on] by blast
  have i: "integrity (sy_store ex_sys)" by (simp add: ex_integrity)
  have s: "Get ''n1'' (sy_mgr ex_sys) = Some ex_session" "se_stream ex_session = 7"
    by simp_all (simp add: ex_session_def newSession_def)
  obtain cmd where m: "mg_sent (sy_mgr y') = mg_sent (sy_mgr ex_sys) @ [(se_stream ex_session, MasterCreateContainer cmd)]"
    and k: "\<forall>http d r. Create http cmd (ag_daemon ex_agent) = (d, r) \<and> r \<noteq> Inl [] \<and> r \<noteq> Inr [] \<longrightarrow>
      (\<exists>ack. ag_sent (handleMasterMessage http (MasterCreateContainer cmd) ex_agent) = ag_sent ex_agent @ [ack] \<and>
        (case r of
           Inr did \<Rightarrow>
             row (mg_store (handleIncoming 20 ex_session ack (sy_mgr y'))) (c_ID cc) =
               Some (set_state 20 did ''running'' ''running'' cc) \<and>
             holder (mg_store (handleIncoming 20 ex_session ack (sy_mgr y'))) = holder (sy_store y')
         | Inl e \<Rightarrow>
             row (mg_store (handleIncoming 20 ex_session ack (sy_mgr y'))) (c_ID cc) =
               Some (set_state 20 [] ''error'' e cc) \<and>
             holder (mg_store (handleIncoming 20 ex_session ack (sy_mgr y'))) = holder (sy_store ex_sys)))"
    using create_round_trip [OF c i f s(1) ex_agent_sends(1), of 20] by blast
  from k [rule_format, of ex_daemon "()" "Inr ''d9''"]
  obtain ack where "ag_sent (handleMasterMessage ex_daemon (MasterCreateContainer cmd) ex_agent) = [ack]"
    "row (mg_store (handleIncoming 20 ex_session ack (sy_mgr y'))) (c_ID cc) =
      Some (set_state 20 ''d9'' ''running'' ''running'' cc)"
    by (auto simp: ex_daemon_create ex_agent_sends simp del: handleMasterMessage.simps handleIncoming.simps)
  moreover have "mg_sent (sy_mgr y') = [(7, MasterCreateContainer cmd)]" using m s(2) by simp
  ultimately show ?thesis using c by blast
qed

end
