(* ===== verification/Races.thy ===== *)
theory Races
  imports Race_Props Agent_Props
begin

text \<open>
  Three races the code leaves open. A container is deleted while its create request is still running:
  the handlers share no lock, so a delete can see the row and free the devices between the
  reservation and the command. A request uses a session that is registered but not answered yet. And
  the end of a stream that was replaced takes the session of its replacement.
\<close>

section \<open>Placing\<close>

text \<open>A request that pins its devices by index.\<close>

definition asks :: "env \<Rightarrow> create_req \<Rightarrow> node \<Rightarrow> u32 list \<Rightarrow> store \<Rightarrow> bool" where
  "asks ev req n idxs s \<longleftrightarrow> creatable ev req n s \<and> cq_Image req \<noteq> [] \<and> \<not> is_nan (cq_CPUCores req) \<and>
     cq_NodeID req = n_ID n \<and> n_ID n \<noteq> [] \<and> cq_GPUIndices req = idxs \<and> idxs \<noteq> [] \<and> distinct idxs \<and>
     cq_GPUCount req = of_nat (length idxs) \<and> cq_GPUCount req \<noteq> 0 \<and> (\<forall>i \<in> set idxs. i < n_GpuCount n)"

definition placed :: "env \<Rightarrow> node \<Rightarrow> u32 list \<Rightarrow> container \<Rightarrow> store \<Rightarrow> store" where
  "placed ev n idxs cc0 s = give_gpus (ev_now ev) (n_ID n) (c_ID cc0) idxs
     (add_container cc0 (with_port (c_ExternalPort cc0) (c_ID cc0) s))"

definition fresh_row :: "env \<Rightarrow> create_req \<Rightarrow> node \<Rightarrow> container \<Rightarrow> store \<Rightarrow> bool" where
  "fresh_row ev req n cc0 s \<longleftrightarrow> c_ID cc0 = newContainerID (ev_id ev) \<and> c_NodeID cc0 = n_ID n \<and>
     c_DockerID cc0 = [] \<and> c_CPUCores cc0 = cq_CPUCores req \<and>
     c_UpdatedAt cc0 = ev_now ev \<and> c_GPUIndicesJSON cc0 = [] \<and>
     (c_ExternalPort cc0 \<notin> p_port ` set (st_ports s) \<or> c_ExternalPort cc0 = 0) \<and>
     (c_ExternalPort cc0 = 0 \<longleftrightarrow> cq_PortMappings req = [])"

lemma place_ok:
  assumes a: "asks ev req n idxs (sy_store y)"
  obtains cc0 where "fresh_row ev req n cc0 (sy_store y)"
    "run (place_prog ev req n) y = Some (with_store (placed ev n idxs cc0 (sy_store y)) y,
       Inr (cc0\<lparr>c_GPUIndicesJSON := indices_json idxs\<rparr>, idxs))"
proof -
  let ?s = "sy_store y" and ?now = "ev_now ev" and ?name = "container_name ev req"
  let ?cid = "newContainerID (ev_id ev)" and ?ports = "portMappingsToProto (cq_PortMappings req)"
  have c: "creatable ev req n ?s" using a by (simp add: asks_def)
  then have i: "insertable ev req n ?s" and nf: "st_faults ?s = []"
    by (auto simp: creatable_iff insertable_def dest: healthyD)
  obtain ext where ext: "external_port ?cid req ?ports y = Some (with_store (with_port ext ?cid ?s) y, Inr ext)"
    "ext \<notin> p_port ` set (st_ports ?s) \<or> ext = 0" "ext = 0 \<longleftrightarrow> ?ports = []"
    by (rule external_port_ok [OF i])
  let ?new = "new_container ?cid (n_ID n) req ?ports ?name ext"
  let ?cc0 = "filled ?now ?new" and ?s1 = "with_port ext ?cid ?s"
  have f: "c_ID ?cc0 = ?cid" "c_NodeID ?cc0 = n_ID n" "c_DockerID ?cc0 = []" "c_ExternalPort ?cc0 = ext"
    "c_CPUCores ?cc0 = cq_CPUCores req" "c_UpdatedAt ?cc0 = ?now" "c_GPUIndicesJSON ?cc0 = []"
    by (simp_all add: filled_def new_container_def)
  have fn: "c_ID ?new = ?cid" "c_ExternalPort ?new = ext" by (simp_all add: new_container_def)
  have "InsertContainer ?now ?new ?s1 = (add_container ?cc0 ?s1, Inr ?cc0)"
    by (rule InsertContainer_no_faults)
      (use i nf in \<open>auto simp: insertable_def new_container_def with_port_def container_ids_def add_port_def\<close>)
  then have ins: "on_sys (InsertContainer ?now ?new) (with_store ?s1 y) = (with_store (add_container ?cc0 ?s1) y, Inr ?cc0)"
    by (simp add: on_sys_alt)
  let ?y2 = "with_store (add_container ?cc0 ?s1) y"
  have "st_gpus (sy_store ?y2) = st_gpus ?s" "st_faults (sy_store ?y2) = []" "n \<in> set (st_nodes (sy_store ?y2))"
    "?cid \<in> c_ID ` set (st_containers (sy_store ?y2))"
    using i nf f by (auto simp: with_port_def add_port_def insertable_def)
  moreover from this(1) have "gpus_available req n (sy_store ?y2)"
    using gpus_available_cong [of "sy_store ?y2" ?s] c by (simp add: creatable_def)
  ultimately obtain idxs' where r: "reserve_gpus ?now ?cid n req ?y2 =
      (with_store (give_gpus ?now (n_ID n) ?cid idxs' (sy_store ?y2)) ?y2, Inr (idxs', indices_json idxs'))"
    using reserve_gpus_ok [of ?y2 ?cid n req ?now] by blast
  have "cq_GPUCount req \<noteq> 0" "cq_GPUIndices req = idxs" "idxs \<noteq> []" using a by (auto simp: asks_def)
  then have "idxs' = idxs" using reserve_gpus_Inr(8) [OF r] by simp
  with r have "run (place_prog ev req n) y = Some (with_store (placed ev n idxs ?cc0 ?s) y,
       Inr (?cc0\<lparr>c_GPUIndicesJSON := indices_json idxs\<rparr>, idxs))"
    by (simp add: place_prog_def Let_def run_bind run_port ext(1) ins run_reserve placed_def fn)
  moreover have "fresh_row ev req n ?cc0 ?s"
    using f ext(2,3) by (simp add: fresh_row_def portMappingsToProto_def)
  ultimately show ?thesis by (rule that [rotated])
qed

text \<open>Deleting what was placed gives the store of before.\<close>

lemma forget_placed:
  assumes "fresh_row ev req n cc0 s" and "healthy s" "c_ID cc0 \<notin> set (container_ids s)"
  shows "forget (c_ID cc0) (c_ExternalPort cc0) (placed ev n idxs cc0 s) = s"
proof -
  let ?y = "\<lparr>sy_mgr = NewManager (placed ev n idxs cc0 s), sy_proxy = \<lparr>px_listeners = [], px_routes = []\<rparr>\<rparr>"
  have "st_faults (sy_store ?y) = []"
    using healthyD(1) [OF assms(2)]
    by (simp add: NewManager_def placed_def give_gpus_def add_gpus_def with_port_def add_port_def)
  from cleanup_store [OF this, of True "c_ID cc0" "c_ExternalPort cc0"]
  have "sy_store (create_cleanup True (c_ID cc0) (c_ExternalPort cc0) ?y) =
      forget (c_ID cc0) (c_ExternalPort cc0) (placed ev n idxs cc0 s)"
    by (simp add: forget_def NewManager_def)
  moreover have "sy_store (create_cleanup True (c_ID cc0) (c_ExternalPort cc0) ?y) = s"
    by (rule cleanup_restores [where cc = cc0 and now = "ev_now ev" and nid = "n_ID n" and idxs = idxs])
      (use assms in \<open>auto simp: fresh_row_def NewManager_def placed_def\<close>)
  ultimately show ?thesis by simp
qed

lemma placed_healthy:
  assumes a: "asks ev req n idxs (sy_store y)" and f: "fresh_row ev req n cc0 (sy_store y)"
    and r: "run (place_prog ev req n) y = Some (with_store (placed ev n idxs cc0 (sy_store y)) y, Inr x)"
  shows "healthy (placed ev n idxs cc0 (sy_store y))"
    and "row (placed ev n idxs cc0 (sy_store y)) (c_ID cc0) = Some (cc0\<lparr>c_GPUIndicesJSON := indices_json idxs\<rparr>)"
proof -
  let ?s = "sy_store y" and ?t = "placed ev n idxs cc0 (sy_store y)"
  have h: "healthy ?s" "c_ID cc0 \<notin> set (container_ids ?s)" and nan: "\<not> is_nan (c_CPUCores cc0)"
    using a f by (auto simp: asks_def creatable_def fresh_row_def)
  have "integrity (sy_store (with_store ?t y))"
    by (rule guarded_run [OF consistent.calls.place_kept r]) (rule healthyD(2) [OF h(1)])
  then have i: "integrity ?t" by simp
  have "st_containers ?t = st_containers (with_port (c_ExternalPort cc0) (c_ID cc0) ?s) @ [cc0\<lparr>c_GPUIndicesJSON := indices_json idxs\<rparr>]"
    unfolding placed_def
    by (rule give_gpus_containers) (use h(2) f in \<open>auto simp: with_port_def container_ids_def fresh_row_def\<close>)
  then have cs: "st_containers ?t = st_containers ?s @ [cc0\<lparr>c_GPUIndicesJSON := indices_json idxs\<rparr>]"
    by (simp add: with_port_def)
  have "st_faults ?t = []" "st_nodes ?t = st_nodes ?s"
    using healthyD(1) [OF h(1)] by (simp_all add: placed_def give_gpus_def add_gpus_def with_port_def add_port_def)
  then show "healthy ?t"
    using healthyD(3) [OF h(1)] i cs nan by (auto simp: healthy_def scannable_def scanContainer_def)
  show "row ?t (c_ID cc0) = Some (cc0\<lparr>c_GPUIndicesJSON := indices_json idxs\<rparr>)"
    using row_Some_iff [OF i, of "c_ID cc0" "cc0\<lparr>c_GPUIndicesJSON := indices_json idxs\<rparr>"] cs by simp
qed

section \<open>The interleaving\<close>

abbreviation answering :: "(sys, response) prog \<Rightarrow> thread" where
  "answering p \<equiv> bind_prog p (\<lambda>r. Ret (Some r))"

text \<open>A create runs up to the point where its devices are reserved.\<close>

lemma create_until_placed:
  assumes "cq_Image req \<noteq> []" "check_indices req = Inr req" "pick_node req y = (y, Inr n)"
    and "Get (n_ID n) (sy_mgr y) = Some sess" "run (place_prog ev req n) y = Some (y', Inr pl)" "i < length ts"
  shows "conc_step\<^sup>*\<^sup>* (y, ts[i := answering (create_prog ev (Inr req))])
    (y', ts[i := answering (hand_off_prog ev req n sess pl)])"
proof -
  let ?K = "\<lambda>r. Ret (Some r) :: thread"
  let ?on = "\<lambda>r. case r of Inl rsp \<Rightarrow> Ret rsp | Inr pl \<Rightarrow> hand_off_prog ev req n sess pl"
  let ?go = "\<lambda>n s. case s of None \<Rightarrow> Ret (JSON 400 (BError ''target node not online''))
    | Some sess \<Rightarrow> create_on_prog ev req n sess"
  let ?pick = "\<lambda>r. case r of Inl rsp \<Rightarrow> Ret rsp | Inr n \<Rightarrow> look_up (n_ID n) (?go n)"
  have "run (pick_prog req) y = Some (y, Inr n)" using assms(3) by (simp add: run_pick)
  from thread_runs [OF this assms(6), where k = "\<lambda>r. answering (?pick r)"]
  have 1: "conc_step\<^sup>*\<^sup>* (y, ts[i := answering (create_prog ev (Inr req))])
      (y, ts[i := look_up (n_ID n) (\<lambda>s. answering (?go n s))])"
    using assms(1,2) by (simp add: create_prog_def bind_assoc)
  have "run (look_up (n_ID n) Ret) y = Some (y, Some sess)" using assms(4) by simp
  from thread_runs [OF this assms(6), where k = "\<lambda>s. answering (?go n s)"]
  have 2: "conc_step\<^sup>*\<^sup>* (y, ts[i := look_up (n_ID n) (\<lambda>s. answering (?go n s))])
      (y, ts[i := answering (create_on_prog ev req n sess)])"
    by simp
  from thread_runs [OF assms(5,6), where k = "\<lambda>r. answering (?on r)"]
  have "conc_step\<^sup>*\<^sup>* (y, ts[i := answering (create_on_prog ev req n sess)])
      (y', ts[i := answering (hand_off_prog ev req n sess pl)])"
    by (simp add: create_on_prog_def bind_assoc)
  with 1 2 show ?thesis by (meson rtranclp_trans)
qed

lemma request_runs:
  assumes "run p y = Some (y', r)" "i < length ts"
  shows "conc_step\<^sup>*\<^sup>* (y, ts[i := answering p]) (y', ts[i := Ret (Some r)])"
  by (rule thread_runs [OF assms])

lemma request_served:
  assumes "handle ev q y = Some (y', r)"
  shows "conc_step\<^sup>*\<^sup>* (y, ts) (y', ts @ [Ret (Some r)])"
proof -
  have "conc_step (y, ts) (y, ts @ [answering (handler ev q)])"
    using conc_arrive [of y ts "Serve ev q"] by simp
  moreover have "conc_step\<^sup>*\<^sup>* (y, ts @ [answering (handler ev q)]) (y', ts @ [Ret (Some r)])"
    using request_runs [of "handler ev q" y y' r "length ts" "ts @ [Ret None]"] assms by (simp add: run_handler)
  ultimately show ?thesis by (rule converse_rtranclp_into_rtranclp)
qed

text \<open>A create up to its reservation, and a delete of its row served then.\<close>

lemma create_then_delete:
  assumes A: "asks ev req n idxs (sy_store y)" and u: "node_usage (n_ID n) (sy_store y) < 2 ^ 32"
    and a: "reachable_agent (n_ID n) y sess"
  obtains cc0 y2 where "fresh_row ev req n cc0 (sy_store y)" "sy_store y2 = sy_store y" "hub y2 = hub y"
    "mg_sent (sy_mgr y2) = mg_sent (sy_mgr y) @ [(se_stream sess, MasterStopContainer (newContainerID (ev_id ev)) [] True)]"
    "conc_step\<^sup>*\<^sup>* (y, []) (y2, [answering (hand_off_prog ev req n sess (cc0\<lparr>c_GPUIndicesJSON := indices_json idxs\<rparr>, idxs)),
       Ret (Some (JSON 200 BOk))])"
proof -
  let ?s = "sy_store y" and ?nid = "n_ID n" and ?st = "se_stream sess" and ?id = "newContainerID (ev_id ev)"
  have sess: "Get ?nid (sy_mgr y) = Some sess" using a by (simp add: reachable_agent_def)
  have hs: "healthy ?s" "?id \<notin> set (container_ids ?s)" using A by (auto simp: asks_def creatable_def)
  have pick: "check_indices req = Inr req" "pick_node req y = (y, Inr n)" "cq_Image req \<noteq> []"
    using A u pinned_node_ok [of y n req]
    by (auto simp: asks_def creatable_def pick_node_def intro!: check_indices_ok)
  obtain cc0 where cc0: "fresh_row ev req n cc0 ?s"
    and p: "run (place_prog ev req n) y = Some (with_store (placed ev n idxs cc0 ?s) y,
       Inr (cc0\<lparr>c_GPUIndicesJSON := indices_json idxs\<rparr>, idxs))" by (rule place_ok [OF A])
  let ?y1 = "with_store (placed ev n idxs cc0 ?s) y" and ?cc = "cc0\<lparr>c_GPUIndicesJSON := indices_json idxs\<rparr>"
  have id: "c_ID cc0 = ?id" "c_NodeID cc0 = ?nid" "c_DockerID cc0 = []" using cc0 by (simp_all add: fresh_row_def)
  let ?hand = "answering (hand_off_prog ev req n sess (?cc, idxs))"
  have 0: "conc_step (y, []) (y, [answering (create_prog ev (Inr req))])"
    using conc_arrive [of y "[]" "Serve ev (Create_container (Inr req))"] by simp
  have 1: "conc_step\<^sup>*\<^sup>* (y, [answering (create_prog ev (Inr req))]) (?y1, [?hand])"
    using create_until_placed [OF pick(3,1,2) sess p, of 0 "[Ret None]"] by simp
  define y2 where "y2 = fst (deleteContainer ?id ?y1)"
  have "reachable_agent (c_NodeID ?cc) ?y1 sess" using a id by (simp add: reachable_agent_def)
  note d = deleteContainer_ok [of ?y1 ?id ?cc, unfolded with_store_fields, OF _ _ this]
  have "forget ?id (c_ExternalPort cc0) (placed ev n idxs cc0 ?s) = ?s"
    using forget_placed [OF cc0 hs(1)] hs(2) id by simp
  then have y2: "sy_store y2 = ?s" "snd (deleteContainer ?id ?y1) = JSON 200 BOk"
    "mg_sent (sy_mgr y2) = mg_sent (sy_mgr y) @ [(?st, MasterStopContainer ?id [] True)]"
    using d placed_healthy [OF A cc0 p] id by (simp_all add: y2_def Let_def unregister_def)
  have "hub y2 = hub y" by (simp add: y2_def hub_requests)
  moreover have "deleteContainer ?id ?y1 = (y2, JSON 200 BOk)" using y2(2) by (simp add: y2_def prod_eq_iff)
  then have "conc_step\<^sup>*\<^sup>* (?y1, [?hand]) (y2, [?hand, Ret (Some (JSON 200 BOk))])"
    using request_served [of ev "Delete_container ?id" ?y1 y2 _ "[?hand]"] by simp
  then have "conc_step\<^sup>*\<^sup>* (y, []) (y2, [?hand, Ret (Some (JSON 200 BOk))])"
    using converse_rtranclp_into_rtranclp [OF 0 1] by (rule rtranclp_trans [rotated])
  ultimately show thesis using that [OF cc0 y2(1) _ y2(3)] by blast
qed

text \<open>A create with pinned devices, served whole.\<close>

lemma create_pinned_served:
  assumes B: "asks ev req n idxs (sy_store y)" and u: "node_usage (n_ID n) (sy_store y) < 2 ^ 32"
    and a: "reachable_agent (n_ID n) y sess"
  obtains y' cc url where
    "createContainer ev (Inr req) y = Some (y', JSON 200 (BCreated cc (n_ID n) (n_Name n) url (Some idxs)))"
    "hub y' = hub y" "st_containers (sy_store y') = st_containers (sy_store y) @ [cc]" "c_ID cc = newContainerID (ev_id ev)"
    "holder (sy_store y') = (\<lambda>k. if fst k = n_ID n \<and> snd k \<in> set idxs then Some (c_ID cc) else holder (sy_store y) k)"
    "mg_sent (sy_mgr y') = mg_sent (sy_mgr y) @ [(se_stream sess, create_message (c_ID cc) req
      (portMappingsToProto (cq_PortMappings req)) (container_name ev req) idxs)]"
proof -
  obtain y' cc url g where c: "createContainer ev (Inr req) y = Some (y', JSON 200 (BCreated cc (n_ID n) (n_Name n) url g))"
    using create_served [of ev req n y sess] B u a by (auto simp: asks_def)
  have ck: "check_indices req = Inr req" "Get (n_ID n) (sy_mgr y) = Some sess"
    using B a by (auto simp: asks_def reachable_agent_def intro!: check_indices_ok)
  obtain req' js sess' where F: "check_indices req = Inr req'" "Get (n_ID n) (sy_mgr y) = Some sess'"
    "st_containers (sy_store y') = st_containers (sy_store y) @ [cc]"
    "c_ID cc = newContainerID (ev_id ev)" "asked_gpus req' js" "g = (if js \<noteq> [] then Some js else None)"
    "holder (sy_store y') = (\<lambda>k. if fst k = n_ID n \<and> snd k \<in> set js then Some (c_ID cc) else holder (sy_store y) k)"
    "mg_sent (sy_mgr y') = mg_sent (sy_mgr y) @ [(se_stream sess', create_message (c_ID cc) req'
      (portMappingsToProto (cq_PortMappings req')) (container_name ev req') js)]"
    using createContainer_facts [OF c] by (elim exE conjE) (rule that; assumption)
  then have "req' = req" "sess' = sess" using ck by simp_all
  note f = F(3-8) [unfolded this]
  have js: "js = idxs" "g = Some idxs" using B f(3,4) by (auto simp: asks_def asked_gpus_def)
  show thesis by (rule that [OF c [unfolded js(2)] hub_create [OF c] f(1,2) f(5,6) [unfolded js(1)]])
qed

text \<open>C4. A delete can overtake the create it belongs to, and a GPU is then given to two containers: the
  first create has reserved its devices and is about to send its command when a delete of the new
  container is served; the delete frees the devices, a second create reserves the same ones and sends
  its command; then the first create goes on and sends its own. All three are answered with 200, the
  agent is told to create two containers on the same devices, and the first one, with a route when it
  has a port, has no row any more.\<close>

theorem delete_races_create:
  assumes A: "asks evA reqA n idxs (sy_store y)" and B: "asks evB reqB n idxs (sy_store y)"
    and new: "newContainerID (ev_id evA) \<noteq> newContainerID (ev_id evB)"
    and u: "node_usage (n_ID n) (sy_store y) < 2 ^ 32"
    and a: "reachable_agent (n_ID n) y sess"
  shows "\<exists>y' ccA ccB urlA urlB. conc_step\<^sup>*\<^sup>* (y, [])
      (y', [Ret (Some (JSON 200 (BCreated ccA (n_ID n) (n_Name n) urlA (Some idxs)))), Ret (Some (JSON 200 BOk)),
            Ret (Some (JSON 200 (BCreated ccB (n_ID n) (n_Name n) urlB (Some idxs))))]) \<and>
    c_ID ccA \<noteq> c_ID ccB \<and> row (sy_store y') (c_ID ccA) = None \<and> row (sy_store y') (c_ID ccB) = Some ccB \<and>
    (\<forall>i \<in> set idxs. holder (sy_store y') (n_ID n, i) = Some (c_ID ccB)) \<and>
    mg_sent (sy_mgr y') = mg_sent (sy_mgr y) @
      [(se_stream sess, MasterStopContainer (c_ID ccA) [] True),
       (se_stream sess, create_message (c_ID ccB) reqB (portMappingsToProto (cq_PortMappings reqB))
          (container_name evB reqB) idxs),
       (se_stream sess, create_message (c_ID ccA) reqA (portMappingsToProto (cq_PortMappings reqA))
          (container_name evA reqA) idxs)] \<and>
    (cq_PortMappings reqA \<noteq> [] \<longrightarrow> map_of (px_routes (sy_proxy y')) (c_ExternalPort ccA) =
       Some (route_of (c_ID ccA) (n_ID n) (portMappingsToProto (cq_PortMappings reqA))))"
proof -
  let ?s = "sy_store y" and ?nid = "n_ID n" and ?st = "se_stream sess" and ?ok = "Ret (Some (JSON 200 BOk)) :: thread"
  let ?idA = "newContainerID (ev_id evA)" and ?portsA = "portMappingsToProto (cq_PortMappings reqA)"
  have sess: "Get ?nid (sy_mgr y) = Some sess" "map_of (mg_broken (sy_mgr y)) ?st = None"
    using a by (simp_all add: reachable_agent_def)
  have hs: "healthy ?s" "?idA \<notin> set (container_ids ?s)" "idxs \<noteq> []" using A by (auto simp: asks_def creatable_def)
  obtain cc0 y2 where cc0: "fresh_row evA reqA n cc0 ?s" and y2: "sy_store y2 = ?s" "hub y2 = hub y"
    "mg_sent (sy_mgr y2) = mg_sent (sy_mgr y) @ [(?st, MasterStopContainer ?idA [] True)]"
    and 1: "conc_step\<^sup>*\<^sup>* (y, []) (y2, [answering (hand_off_prog evA reqA n sess (cc0\<lparr>c_GPUIndicesJSON := indices_json idxs\<rparr>, idxs)), ?ok])"
    by (rule create_then_delete [OF A u a])
  let ?cc = "cc0\<lparr>c_GPUIndicesJSON := indices_json idxs\<rparr>"
  let ?handA = "answering (hand_off_prog evA reqA n sess (?cc, idxs))"
  have id: "c_ID cc0 = ?idA" using cc0 by (simp add: fresh_row_def)
  have hub: "mg_broken (sy_mgr z) = mg_broken (sy_mgr y)" "mg_sessions (sy_mgr z) = mg_sessions (sy_mgr y)"
    if "hub z = hub y" for z using that by (simp_all add: hub_def)
  have a2: "reachable_agent ?nid y2 sess" using sess hub [OF y2(2)] by (simp add: reachable_agent_def Get_def)
  obtain y3 ccB urlB where c: "createContainer evB (Inr reqB) y2 =
      Some (y3, JSON 200 (BCreated ccB ?nid (n_Name n) urlB (Some idxs)))"
    and f: "hub y3 = hub y2" "st_containers (sy_store y3) = st_containers ?s @ [ccB]" "c_ID ccB = newContainerID (ev_id evB)"
    "holder (sy_store y3) = (\<lambda>k. if fst k = ?nid \<and> snd k \<in> set idxs then Some (c_ID ccB) else holder ?s k)"
    "mg_sent (sy_mgr y3) = mg_sent (sy_mgr y2) @ [(?st, create_message (c_ID ccB) reqB
      (portMappingsToProto (cq_PortMappings reqB)) (container_name evB reqB) idxs)]"
    by (rule create_pinned_served [of evB reqB n idxs y2 sess, unfolded y2(1), OF B u a2])
  let ?okB = "Ret (Some (JSON 200 (BCreated ccB ?nid (n_Name n) urlB (Some idxs)))) :: thread"
  have 2: "conc_step\<^sup>*\<^sup>* (y2, [?handA, ?ok]) (y3, [?handA, ?ok, ?okB])"
    using request_served [of evB "Create_container (Inr reqB)" y2 y3 _ "[?handA, ?ok]"] c by simp
  have "map_of (mg_broken (sy_mgr y3)) ?st = None" using hub(1) [OF trans [OF f(1) y2(2)]] sess(2) by simp
  from hand_off_ok [OF this, of evA reqA n ?portsA "container_name evA reqA" ?cc idxs] obtain y4 urlA where
    h: "hand_off evA reqA n sess ?portsA (container_name evA reqA) ?cc idxs y3 =
      (y4, JSON 200 (BCreated ?cc ?nid (n_Name n) urlA (if idxs \<noteq> [] then Some idxs else None)))" by blast
  let ?okA = "Ret (Some (JSON 200 (BCreated ?cc ?nid (n_Name n) urlA (Some idxs)))) :: thread"
  have "run (hand_off_prog evA reqA n sess (?cc, idxs)) y3 =
      Some (y4, JSON 200 (BCreated ?cc ?nid (n_Name n) urlA (Some idxs)))" using h hs(3) by (simp add: run_hand_off)
  from request_runs [OF this, of 0 "[Ret None, ?ok, ?okB]"]
  have 3: "conc_step\<^sup>*\<^sup>* (y3, [?handA, ?ok, ?okB]) (y4, [?okA, ?ok, ?okB])" by simp
  from 1 2 3 have path: "conc_step\<^sup>*\<^sup>* (y, []) (y4, [?okA, ?ok, ?okB])" by (meson rtranclp_trans)
  note e = hand_off_created [OF h]
  have "integrity (sy_store y4)"
    by (rule consistent.calls.threads.from_start [unfolded all_jobs, OF path]) (rule healthyD(2) [OF hs(1)])
  then have rows: "row (sy_store y4) ?idA = None" "row (sy_store y4) (c_ID ccB) = Some ccB"
    using f(2,3) hs(2) new e(5) row_None_iff [of "sy_store y4" ?idA] row_Some_iff [of "sy_store y4" "c_ID ccB" ccB]
    by (auto simp: container_ids_def)
  have "cq_PortMappings reqA \<noteq> [] \<longrightarrow> map_of (px_routes (sy_proxy y4)) (c_ExternalPort cc0) =
      Some (route_of ?idA ?nid ?portsA)"
    using e(7) cc0 id by (auto simp: fresh_row_def route_of_def portMappingsToProto_def)
  with path rows f(3-5) e(5,6) y2(3) id new show ?thesis
    by - (rule exI [of _ y4], rule exI [of _ ?cc], rule exI [of _ ccB], rule exI [of _ urlA], rule exI [of _ urlB], simp)
qed

definition ex_env2 :: env where
  "ex_env2 = ex_env\<lparr>ev_id := [6, 5, 4, 3, 2, 1]\<rparr>"

definition ex_pinned :: create_req where
  "ex_pinned = ex_req\<lparr>cq_GPUIndices := [1]\<rparr>"

lemma ex_asks: "asks ex_env ex_pinned ex_node [1] (sy_store ex_sys)" "asks ex_env2 ex_pinned ex_node [1] (sy_store ex_sys)"
proof -
  have i: "insertable ex_env ex_req ex_node ex_store" using ex_creatable by (simp add: creatable_iff)
  have "newContainerID [6, 5, 4, 3, 2, 1] \<noteq> ''c1''" by (simp add: newContainerID_def)
  moreover have "container_ids ex_store = [''c1'']" by (simp add: container_ids_def ex_defs)
  ultimately have "insertable ex_env2 ex_pinned ex_node ex_store" "insertable ex_env ex_pinned ex_node ex_store"
    using i by (simp_all add: insertable_def ex_env2_def ex_pinned_def)
  moreover have "gpus_available ex_pinned ex_node ex_store"
    by (simp add: gpus_available_def ex_pinned_def gpu_keys_def ex_defs)
  ultimately show "asks ex_env ex_pinned ex_node [1] (sy_store ex_sys)" "asks ex_env2 ex_pinned ex_node [1] (sy_store ex_sys)"
    by (simp_all add: asks_def creatable_iff) (simp_all add: ex_pinned_def ex_req_def ex_node_def)
qed

lemma delete_races_create_witness:
  "\<exists>y' ccA ccB urlA urlB. conc_step\<^sup>*\<^sup>* (ex_sys, [])
      (y', [Ret (Some (JSON 200 (BCreated ccA ''n1'' ''alpha'' urlA (Some [1])))), Ret (Some (JSON 200 BOk)),
            Ret (Some (JSON 200 (BCreated ccB ''n1'' ''alpha'' urlB (Some [1]))))]) \<and>
    row (sy_store y') (c_ID ccA) = None \<and> holder (sy_store y') (''n1'', 1) = Some (c_ID ccB)"
proof -
  have n: "n_ID ex_node = ''n1''" "n_Name ex_node = ''alpha''" by (simp_all add: ex_node_def)
  have "newContainerID (ev_id ex_env) \<noteq> newContainerID (ev_id ex_env2)"
    unfolding ex_env2_def ex_env_def by code_simp
  moreover have "node_usage (n_ID ex_node) (sy_store ex_sys) < 2 ^ 32" by (simp add: node_usage_def ex_defs)
  moreover have "reachable_agent (n_ID ex_node) ex_sys ex_session" by (simp add: n ex_reachable)
  ultimately show ?thesis using delete_races_create [OF ex_asks, of ex_session, unfolded n] by (simp add: n) blast
qed

section \<open>A command before the answer to the registration\<close>

lemma resolve_keeps:
  assumes "resolveNodeID now rnd reg m = (m', r)"
  shows "mg_sent m' = mg_sent m" "mg_broken m' = mg_broken m"
  using assms by (auto simp: resolveNodeID_def on_store_def split: if_splits prod.splits sum.splits)

lemma install_keeps:
  "mg_sent (install nid sess m) = mg_sent m" "mg_broken (install nid sess m) = mg_broken m"
  "Get nid (install nid sess m) = Some sess"
  by (simp_all add: install_def Let_def close_def Get_def update_conv' split: option.split)

text \<open>C8. The session is registered before the agent has its answer, so a request that arrives in
  between sends its command first. The command is answered with 200, but the agent, whose first
  message must be the answer to its registration, ends the session with an error, whatever its
  state.\<close>

theorem command_before_register_response:
  fixes y st nid reg peer m1 y2
  defines "sess \<equiv> newSession nid (rr_name reg) st (remoteHostFromContext peer)"
  assumes reg: "GetRegister msg = Some reg"
    and r: "resolveNodeID now rnd reg (sy_mgr y) = (m1, Inr nid)"
    and b: "map_of (mg_broken (sy_mgr y)) st = None"
    and c: "createContainer ev (Inr req0) (on_mgr (\<lambda>_. install nid sess m1) y) =
      Some (y2, JSON 200 (BCreated cc nid nm url g))"
    and f: "st_faults (sy_store y2) = []"
  shows "\<exists>y' p cmd. conc_step\<^sup>*\<^sup>* (y, []) (y', [p, Ret (Some (JSON 200 (BCreated cc nid nm url g)))]) \<and>
    mg_sent (sy_mgr y') = mg_sent (sy_mgr y) @ [(st, MasterCreateContainer cmd),
      (st, MasterRegisterResp \<lparr>rs_node_id = nid, rs_ok = True, rs_error = [], rs_metrics_interval_sec = 5\<rparr>)] \<and>
    (\<exists>e. snd (serve_start dialled (Inr (MasterCreateContainer cmd)) hostname os arch version a) = Inl e)"
proof -
  let ?resp = "MasterRegisterResp \<lparr>rs_node_id = nid, rs_ok = True, rs_error = [], rs_metrics_interval_sec = 5\<rparr>"
  let ?y1 = "on_mgr (\<lambda>_. m1) y" and ?yi = "on_mgr (\<lambda>_. install nid sess m1) y"
  let ?rsp = "Ret (Some (JSON 200 (BCreated cc nid nm url g))) :: thread"
  define K where "K = (\<lambda>r :: err + session \<times> string. bind_prog (case r of
        Inl e1 \<Rightarrow> Ret e1
      | Inr (sess, nodeID) \<Rightarrow> look_up nodeID (\<lambda>s. case s of
           None \<Rightarrow> Ret (ErrMsg ''session missing'')
         | Some sess \<Rightarrow> bind_prog (messages_prog sess []) (\<lambda>_.
             bind_prog (disconnect_prog now nodeID ErrNoRows) (\<lambda>_. Ret ErrNoRows)))) (\<lambda>_. Ret None :: thread))"
  let ?job = "job_prog (Stream now rnd peer st (Inr msg) [] now ErrNoRows)"
  have "?job = bind_prog (connect_prog now rnd peer st (Inr msg)) K"
    by (simp add: stream_prog_def bind_assoc K_def)
  then obtain C where job: "?job = bind_prog (resolve_prog now rnd reg) C"
    and C: "C (Inr nid) = act (on_mgr (install nid sess)) (bind_prog (answer_prog now nid sess st) K)"
    using reg by (simp add: connect_prog_def bind_assoc Let_def sess_def)
  have "run (resolve_prog now rnd reg) y = Some (?y1, Inr nid)" by (simp add: run_resolve r)
  from thread_runs [OF this, where i = 0 and ts = "[Ret None]" and k = C]
  have 1: "conc_step\<^sup>*\<^sup>* (y, [?job]) (?y1, [C (Inr nid)])" unfolding job by simp
  have 2: "conc_step\<^sup>*\<^sup>* (?y1, [C (Inr nid)]) (?yi, [bind_prog (answer_prog now nid sess st) K])"
    using thread_runs [of "act (on_mgr (install nid sess)) (Ret ())" ?y1 ?yi "()" 0 "[Ret None]" _ _
        "\<lambda>_. bind_prog (answer_prog now nid sess st) K"] by (simp add: C)
  have 3: "conc_step\<^sup>*\<^sup>* (?yi, [bind_prog (answer_prog now nid sess st) K])
      (y2, [bind_prog (answer_prog now nid sess st) K, ?rsp])"
    using request_served [of ev "Create_container (Inr req0)" ?yi y2 _ "[bind_prog (answer_prog now nid sess st) K]"] c
    by simp
  obtain req idxs where sent: "mg_sent (sy_mgr y2) = mg_sent (sy_mgr ?yi) @ [(se_stream sess,
      create_message (c_ID cc) req (portMappingsToProto (cq_PortMappings req)) (container_name ev req) idxs)]"
  proof -
    obtain req idxs sess' where "Get nid (sy_mgr ?yi) = Some sess'"
      "mg_sent (sy_mgr y2) = mg_sent (sy_mgr ?yi) @ [(se_stream sess', create_message (c_ID cc) req
        (portMappingsToProto (cq_PortMappings req)) (container_name ev req) idxs)]"
      using createContainer_facts [OF c] by (elim exE conjE) (rule that; assumption)
    then show ?thesis using that by (simp add: install_keeps)
  qed
  obtain cmd where cmd: "create_message (c_ID cc) req (portMappingsToProto (cq_PortMappings req))
      (container_name ev req) idxs = MasterCreateContainer cmd" by (simp add: create_message_def)
  have "map_of (mg_broken (sy_mgr y2)) st = None"
    using hub_create [OF c] b by (simp add: hub_def install_keeps resolve_keeps [OF r])
  then obtain y3 x where ran: "run (answer_prog now nid sess st) y2 = Some (y3, x)"
    and y3: "mg_sent (sy_mgr y3) = mg_sent (sy_mgr y2) @ [(st, ?resp)]"
    using f by (simp add: answer_prog_def run_notify on_sys_alt no_fault_updates respond_def stream_send_def)
  from thread_runs [OF ran, where i = 0 and ts = "[Ret None, ?rsp]" and k = K]
  have 4: "conc_step\<^sup>*\<^sup>* (y2, [bind_prog (answer_prog now nid sess st) K, ?rsp]) (y3, [K x, ?rsp])" by simp
  have "conc_step (y, []) (y, [?job])" using conc_arrive [of y "[]"] by (metis append_Nil)
  with 1 2 3 4 have path: "conc_step\<^sup>*\<^sup>* (y, []) (y3, [K x, ?rsp])"
    by (meson converse_rtranclp_into_rtranclp rtranclp_trans)
  have "mg_sent (sy_mgr y3) = mg_sent (sy_mgr y) @ [(st, MasterCreateContainer cmd), (st, ?resp)]"
    using y3 sent cmd by (simp add: install_keeps resolve_keeps [OF r] sess_def newSession_def)
  moreover have "\<exists>e. snd (serve_start dialled (Inr (MasterCreateContainer cmd)) hostname os arch version a) = Inl e"
    by (simp add: serve_start_def Let_def split: option.split prod.split)
  ultimately show ?thesis using path by blast
qed

definition ex_free_req :: create_req where
  "ex_free_req = ex_req\<lparr>cq_GPUCount := 0, cq_PortMappings := []\<rparr>"

lemma ex_registering:
  fixes rnd
  obtains m1 y2 cc nm url g where "resolveNodeID 20 rnd ex_register ex_mgr = (m1, Inr ''n1'')"
    "createContainer ex_env (Inr ex_free_req)
       (on_mgr (\<lambda>_. install ''n1'' (newSession ''n1'' ''alpha'' 8 []) m1) ex_sys) =
     Some (y2, JSON 200 (BCreated cc ''n1'' nm url g))" "st_faults (sy_store y2) = []"
proof -
  let ?n = "refreshed 20 ex_register ex_node" and ?ev = ex_env and ?req = ex_free_req
  let ?s = "ex_store\<lparr>st_nodes := map (\<lambda>r. if n_ID r = n_ID ex_node then refreshed 20 ex_register r else r) (st_nodes ex_store)\<rparr>"
  let ?m1 = "ex_mgr\<lparr>mg_store := ?s\<rparr>" and ?sess = "newSession ''n1'' ''alpha'' 8 []"
  let ?y = "on_mgr (\<lambda>_. install ''n1'' ?sess ?m1) ex_sys"
  have r: "resolveNodeID 20 rnd ex_register ex_mgr = (?m1, Inr ''n1'')"
    using resolveNodeID_known [of ex_mgr ex_node ex_register 20 rnd]
    by (simp add: ex_healthy ex_n1 ex_register_def) (simp add: ex_node_def is_zero_def zero_time_def)
  have st: "sy_store ?y = ?s" by (simp add: install_def Let_def close_def split: option.split)
  have s: "st_nodes ?s = [?n]" by (simp add: ex_store_def)
  have n: "n_ID ?n = ''n1''" "n_GpuCount ?n = 2" by (simp_all add: refreshed_def ex_node_def)
  have h: "healthy ?s"
    by (rule healthy_map_nodes [OF ex_healthy]) (simp_all add: refreshed_def scanNode_def split: if_splits)
  have id: "newContainerID (ev_id ?ev) \<notin> set (container_ids ?s)" "\<not> high_bit (cq_MemoryBytes ?req)"
    using ex_creatable by (simp_all add: creatable_def container_ids_def ex_free_req_def)
  have c: "creatable ?ev ?req ?n (sy_store ?y)"
    unfolding st creatable_def using h s id by (simp add: gpus_available_def) (simp add: ex_free_req_def ex_req_def)
  have q: "cq_NodeID ?req = n_ID ?n" "cq_GPUIndices ?req = []" "cq_Image ?req \<noteq> []" "cq_NodeID ?req \<noteq> []"
    by (simp_all add: ex_free_req_def ex_req_def n)
  have "node_usage (n_ID ?n) (sy_store ?y) < 2 ^ 32" unfolding st by (simp add: node_usage_def ex_defs)
  then have "pick_node ?req ?y = (?y, Inr ?n)"
    using pinned_node_ok [of ?y ?n ?req] c q by (simp add: pick_node_def creatable_def)
  moreover have g: "Get (n_ID ?n) (sy_mgr ?y) = Some ?sess" by (simp add: n install_keeps)
  moreover have "check_indices ?req = Inr ?req" by (simp add: check_indices_def q)
  ultimately have on: "createContainer ?ev (Inr ?req) ?y = create_on ?ev ?req ?n ?sess ?y"
    using q(3) by (simp add: createContainer_def)
  have "map_of (mg_broken (sy_mgr ?y)) (se_stream ?sess) = None" by (simp add: install_keeps)
  from create_on_ok [OF c this] obtain y2 cc url g where
    e: "create_on ?ev ?req ?n ?sess ?y = Some (y2, JSON 200 (BCreated cc (n_ID ?n) (n_Name ?n) url g))" by blast
  show ?thesis using created_keeps_working [OF c e] by (intro that [OF r]) (use on e n in simp_all)
qed

lemma command_before_register_response_witness:
  "\<exists>y' p rsp cmd resp. conc_step\<^sup>*\<^sup>* (ex_sys, []) (y', [p, Ret (Some (JSON 200 rsp))]) \<and>
     mg_sent (sy_mgr y') = [(8, MasterCreateContainer cmd), (8, MasterRegisterResp resp)]"
proof -
  obtain m1 y2 cc nm url g where r: "resolveNodeID 20 (Inl ErrNoRows) ex_register ex_mgr = (m1, Inr ''n1'')"
    and c: "createContainer ex_env (Inr ex_free_req)
       (on_mgr (\<lambda>_. install ''n1'' (newSession ''n1'' ''alpha'' 8 []) m1) ex_sys) =
     Some (y2, JSON 200 (BCreated cc ''n1'' nm url g))" and f: "st_faults (sy_store y2) = []" by (rule ex_registering)
  have reg: "rr_name ex_register = ''alpha''" "remoteHostFromContext None = []"
    by (simp_all add: ex_register_def remoteHostFromContext_def)
  have "GetRegister (AgentRegister ex_register) = Some ex_register" "map_of (mg_broken (sy_mgr ex_sys)) 8 = None" by simp_all
  from command_before_register_response [where peer = None and y = ex_sys, unfolded reg, OF this(1) _ this(2), unfolded reg,
      OF _ c f, of 20 "Inl ErrNoRows" None "[]" "[]" "[]" "[]" ex_agent] r
  show ?thesis by auto
qed

section \<open>A stream that ends after its agent has reconnected\<close>

text \<open>A thread of a stream in the loop of \<open>HandleMessages\<close>: the messages it is still to handle, and the
  error that then ends the stream.\<close>

definition waiting :: "session \<Rightarrow> (gotime \<times> agent_message) list \<Rightarrow> gotime \<Rightarrow> string \<Rightarrow> err \<Rightarrow> thread" where
  "waiting sess msgs later nid e = bind_prog (messages_prog sess msgs) (\<lambda>_.
     bind_prog (disconnect_prog later nid e) (\<lambda>_. Ret None))"

lemma stream_connects:
  assumes c: "OnAgentConnect now rnd peer stream first (sy_mgr y) = (m, Inr (sess, nid))" and g: "Get nid m = Some sess'"
  shows "conc_step\<^sup>*\<^sup>* (y, ts) (on_mgr (\<lambda>_. m) y, ts @ [waiting sess' msgs later nid e])"
proof -
  let ?p = "bind_prog (connect_prog now rnd peer stream first) (\<lambda>r. case r of
      Inl e1 \<Rightarrow> Ret (Inl e1) | Inr (_, n) \<Rightarrow> look_up n (\<lambda>s. Ret (Inr (n, s)))) :: (sys, err + string \<times> session option) prog"
  let ?k = "(\<lambda>r. case r of Inl _ \<Rightarrow> Ret None | Inr (n, None) \<Rightarrow> Ret None
    | Inr (n, Some se) \<Rightarrow> waiting se msgs later n e) :: err + string \<times> session option \<Rightarrow> thread"
  have "job_prog (Stream now rnd peer stream first msgs later e) = bind_prog ?p ?k"
    by (auto simp: stream_prog_def bind_assoc waiting_def look_up_def fun_eq_iff
        intro!: arg_cong2 [where f = bind_prog] arg_cong2 [where f = call] split: sum.split option.split prod.split)
  then have "conc_step (y, ts) (y, ts @ [bind_prog ?p ?k])"
    using conc_arrive [of y ts] by metis
  moreover have "run ?p y = Some (on_mgr (\<lambda>_. m) y, Inr (nid, Some sess'))"
    using c g by (simp add: run_bind run_connect look_up_def on_mgr_def)
  from thread_runs [OF this, where i = "length ts" and ts = "ts @ [Ret None]" and k = ?k]
  have "conc_step\<^sup>*\<^sup>* (y, ts @ [bind_prog ?p ?k]) (on_mgr (\<lambda>_. m) y, ts @ [waiting sess' msgs later nid e])" by simp
  ultimately show ?thesis by (rule converse_rtranclp_into_rtranclp)
qed

text \<open>C30. The end of a replaced stream takes the replacement down. An agent connects on stream \<open>a\<close>, and
  before the master notices that this stream is broken, again on stream \<open>b\<close>: the master has the
  session of \<open>b\<close> and shows the node online. Then the thread of \<open>a\<close> sees its error: it removes the session
  of \<open>b\<close> and marks the node offline, while \<open>b\<close> is still open and its thread still waits for the agent's
  messages. No container of the node can be started any more until the agent connects once more.\<close>

theorem stale_stream_kills_new_session:
  fixes nid :: string and a b :: nat and peer1 peer2 :: "string option" and reg1 reg2 :: register_request
  assumes h: "healthy (sy_store y)" and n: "node_row (sy_store y) nid = Some n" "n_MachineID n \<noteq> []"
      "\<not> is_zero (n_RegisteredAt n)"
    and reg: "rr_machine_id reg1 = n_MachineID n" "rr_machine_id reg2 = n_MachineID n"
    and ok: "map_of (mg_broken (sy_mgr y)) a = None" "map_of (mg_broken (sy_mgr y)) b = None" "a \<noteq> b"
  shows "\<exists>y1 y2 old sess.
    conc_step\<^sup>*\<^sup>* (y, []) (y1, [waiting old [] later1 nid e1, waiting sess msgs later2 nid e2]) \<and>
    se_stream old = a \<and> se_stream sess = b \<and> Get nid (sy_mgr y1) = Some sess \<and>
    (\<exists>r. node_row (sy_store y1) nid = Some r \<and> n_State r = ''online'') \<and>
    conc_step\<^sup>*\<^sup>* (y1, [waiting old [] later1 nid e1, waiting sess msgs later2 nid e2])
      (y2, [Ret None, waiting sess msgs later2 nid e2]) \<and>
    Get nid (sy_mgr y2) = None \<and> (\<exists>r. node_row (sy_store y2) nid = Some r \<and> n_State r = ''offline'') \<and>
    map_of (mg_broken (sy_mgr y2)) b = None \<and>
    (\<forall>ev cid cc. row (sy_store y2) cid = Some cc \<and> c_NodeID cc = nid \<longrightarrow>
      startContainer ev cid y2 = (y2, JSON 400 (BError ''node offline'')))"
proof -
  have i: "integrity (sy_store y)" using h by (rule healthyD)
  have n0: "n \<in> set (st_nodes (sy_store y))" "n_ID n = nid" using n(1) node_row_Some_iff [OF i] by auto
  define old where "old = newSession nid (rr_name reg1) a (remoteHostFromContext peer1)"
  obtain m1 n1 where 1: "OnAgentConnect now1 rnd1 peer1 a (Inr (AgentRegister reg1)) (sy_mgr y) = (m1, Inr (old, nid))"
    and h1: "healthy (mg_store m1)" and b1: "mg_broken m1 = mg_broken (sy_mgr y)"
    and s1: "mg_sessions m1 = AList.update nid old (mg_sessions (sy_mgr y))"
    and n1: "n1 \<in> set (st_nodes (mg_store m1))" "n_ID n1 = nid" "n_MachineID n1 = n_MachineID n" "\<not> is_zero (n_RegisteredAt n1)"
    by (rule known_connects [where m = "sy_mgr y" and n = n and reg = reg1 and stream = a and now = now1 and rnd = rnd1
        and peer = peer1]) (use h n0 n reg(1) ok(1) in \<open>simp_all add: old_def\<close>)
  define sess where "sess = newSession nid (rr_name reg2) b (remoteHostFromContext peer2)"
  obtain m2 n2 where 2: "OnAgentConnect now2 rnd2 peer2 b (Inr (AgentRegister reg2)) m1 = (m2, Inr (sess, nid))"
    and h2: "healthy (mg_store m2)" and b2: "mg_broken m2 = mg_broken m1"
    and s2: "mg_sessions m2 = AList.update nid sess (mg_sessions m1)"
    and n2: "n2 \<in> set (st_nodes (mg_store m2))" "n_ID n2 = nid" "n_State n2 = ''online''"
    by (rule known_connects [where m = m1 and n = n1 and reg = reg2 and stream = b and now = now2 and rnd = rnd2
        and peer = peer2]) (use h1 n1 n(2) reg(2) ok(2) b1 in \<open>simp_all add: sess_def\<close>)
  define y1 where "y1 = on_mgr (\<lambda>_. m2) y"
  define m3 where "m3 = handleDisconnect later1 nid e1 m2"
  define y2 where "y2 = on_mgr (\<lambda>_. m3) y"
  let ?old = "waiting old [] later1 nid e1" and ?new = "waiting sess msgs later2 nid e2"
  have g1: "Get nid m1 = Some old" and g2: "Get nid m2 = Some sess" by (simp_all add: Get_def s1 s2 update_conv')
  have "conc_step\<^sup>*\<^sup>* (y, []) (on_mgr (\<lambda>_. m1) y, [?old])" using stream_connects [OF 1 g1, of "[]"] by simp
  also have "conc_step\<^sup>*\<^sup>* (on_mgr (\<lambda>_. m1) y, [?old]) (y1, [?old, ?new])"
    using stream_connects [of now2 rnd2 peer2 b _ "on_mgr (\<lambda>_. m1) y" m2 sess nid sess "[?old]" msgs later2 e2] 2 g2
    by (simp add: y1_def on_mgr_def)
  finally have path: "conc_step\<^sup>*\<^sup>* (y, []) (y1, [?old, ?new])" .
  have "run (disconnect_prog later1 nid e1) y1 = Some (y2, ())"
    by (simp add: run_disconnect y1_def y2_def m3_def on_mgr_def)
  from thread_runs [OF this, where i = 0 and ts = "[?old, ?new]" and k = "\<lambda>_. Ret None"]
  have stale: "conc_step\<^sup>*\<^sup>* (y1, [?old, ?new]) (y2, [Ret None, ?new])" by (simp add: waiting_def)
  have "node_row (mg_store m2) nid = Some n2" using n2 node_row_Some_iff healthyD(2) [OF h2] by blast
  moreover have "Get nid m3 = None" by (simp add: m3_def Get_def handleDisconnect_sessions delete_conv')
  moreover have h3: "healthy (mg_store m3)" unfolding m3_def by (rule handleDisconnect_store(4) [OF h2])
  moreover have "startContainer ev cid y2 = (y2, JSON 400 (BError ''node offline''))"
    if "row (mg_store m3) cid = Some cc" "c_NodeID cc = nid" for ev cid cc
  proof -
    have "on_sys (GetContainer cid) y2 = (y2, Inr cc)"
      using GetContainer_healthy [OF h3, of cid] that(1) by (simp add: on_sys_alt y2_def on_mgr_def with_store_def)
    moreover have "Get (c_NodeID cc) (sy_mgr y2) = None" using \<open>Get nid m3 = None\<close> that(2) by (simp add: y2_def on_mgr_def)
    ultimately show ?thesis by (simp add: startContainer_def)
  qed
  moreover have "map_of (mg_broken m3) b = None" using ok(2) b1 b2 by (simp add: m3_def)
  moreover have "sy_mgr y1 = m2" "sy_mgr y2 = m3" by (simp_all add: y1_def y2_def on_mgr_def)
  moreover have "\<exists>r. node_row (mg_store m3) nid = Some r \<and> n_State r = ''offline''"
    using handleDisconnect_store(3) [OF h2, of later1 nid e1 nid] \<open>node_row (mg_store m2) nid = Some n2\<close>
    by (simp add: m3_def)
  ultimately show ?thesis using path stale g2 n2(3)
    by (intro exI [of _ y1] exI [of _ y2] exI [of _ old] exI [of _ sess]) (simp add: old_def sess_def newSession_def)
qed

lemma stale_stream_kills_new_session_witness:
  "\<exists>y1 y2 old sess. conc_step\<^sup>*\<^sup>* (ex_sys, []) (y1, [waiting old [] 30 ''n1'' (ErrMsg ''EOF''), waiting sess [] 40 ''n1'' (ErrMsg ''EOF'')]) \<and>
     se_stream sess = 9 \<and> Get ''n1'' (sy_mgr y1) = Some sess \<and>
     conc_step\<^sup>*\<^sup>* (y1, [waiting old [] 30 ''n1'' (ErrMsg ''EOF''), waiting sess [] 40 ''n1'' (ErrMsg ''EOF'')])
       (y2, [Ret None, waiting sess [] 40 ''n1'' (ErrMsg ''EOF'')]) \<and> Get ''n1'' (sy_mgr y2) = None"
proof -
  have "healthy (sy_store ex_sys)" "node_row (sy_store ex_sys) ''n1'' = Some ex_node" "n_MachineID ex_node \<noteq> []"
    "\<not> is_zero (n_RegisteredAt ex_node)" "rr_machine_id ex_register = n_MachineID ex_node"
    "map_of (mg_broken (sy_mgr ex_sys)) 8 = None" "map_of (mg_broken (sy_mgr ex_sys)) 9 = None" "(8 :: nat) \<noteq> 9"
    by (simp_all add: ex_healthy ex_n1 ex_register_def)
      (simp_all add: node_row_def ex_store_def ex_node_def is_zero_def zero_time_def)
  from stale_stream_kills_new_session [OF this(1-5) this(5-8), of 30 "ErrMsg ''EOF''" "[]" 40 "ErrMsg ''EOF''"]
  show ?thesis by blast
qed

end
