(* ===== verification/Agent_Programs.thy ===== *)
theory Agent_Programs
  imports Programs Agent_Props
begin

text \<open>
  A session of the agent as concurrent threads. \<open>handleMasterMessage\<close> starts a goroutine for every
  command, and the metrics, events and poll loops run beside them; each request to the Docker daemon
  and each send on the stream is one call. Alone, every program does what its function of the theory
  \<open>Agent\<close> does in one step.
\<close>

type_synonym ('d, 'r) act = "('d agent, 'r) prog"

definition on_daemon :: "('d \<Rightarrow> 'd \<times> 'a) \<Rightarrow> 'd agent \<Rightarrow> 'd agent \<times> 'a" where
  "on_daemon f a = (case f (ag_daemon a) of (d, r) \<Rightarrow> (a\<lparr>ag_daemon := d\<rparr>, r))"

section \<open>The Docker client\<close>

text \<open>Each of \<open>ImageExists\<close>, \<open>pull\<close>, \<open>docker_Start\<close> and \<open>ListAgent\<close> is a single request.\<close>

definition image_prog :: "'d daemon \<Rightarrow> create_command \<Rightarrow> ('d, string option) act" where
  "image_prog http cmd =
     (if cr_pull cmd then
        call (on_daemon (pull http (cr_image cmd))) (\<lambda>e. Ret (case e of
           Some e \<Rightarrow> Some (''pull '' @ cr_image cmd @ '': '' @ e) | None \<Rightarrow> None))
      else
        call (on_daemon (ImageExists http (cr_image cmd))) (\<lambda>r. case r of
           Inl e \<Rightarrow> Ret None
         | Inr True \<Rightarrow> Ret None
         | Inr False \<Rightarrow> call (on_daemon (pull http (cr_image cmd))) (\<lambda>e. Ret (case e of
              Some e \<Rightarrow> Some (''pull '' @ cr_image cmd @ '' (IfNotPresent): '' @ e) | None \<Rightarrow> None))))"

definition Create_prog :: "'d daemon \<Rightarrow> create_command \<Rightarrow> ('d, string + string) act" where
  "Create_prog http cmd = bind_prog (image_prog http cmd) (\<lambda>e. case e of
      Some e \<Rightarrow> Ret (Inl e)
    | None \<Rightarrow> call (on_daemon (doJSON http ''POST'' ''/containers/create'' (Some (render (create_body cmd))))) (\<lambda>r. case r of
        Inl e \<Rightarrow> Ret (Inl e)
      | Inr x \<Rightarrow>
     (case ha_json x of
        Inl e \<Rightarrow> Ret (Inl e)
      | Inr v \<Rightarrow>
     (case read_id v of
        None \<Rightarrow> Ret (Inl type_error)
      | Some did \<Rightarrow>
          if did = [] then Ret (Inl (''empty container id; response: '' @ ha_text x))
          else call (on_daemon (docker_do http ''POST'' (''/containers/'' @ did @ ''/start''))) (\<lambda>r. Ret (case r of
               Inl e \<Rightarrow> Inl e
             | Inr _ \<Rightarrow> Inr did))))))"

definition Stop_prog :: "'d daemon \<Rightarrow> string \<Rightarrow> bool \<Rightarrow> ('d, string option) act" where
  "Stop_prog http dockerID remove =
     (let finish = (if remove then
            call (on_daemon (docker_do http ''DELETE'' (''/containers/'' @ dockerID @ ''?v=1&force=1''))) (\<lambda>r. Ret (case r of
              Inl e \<Rightarrow> Some e | Inr _ \<Rightarrow> None))
          else Ret None)
      in call (on_daemon (docker_do http ''POST'' (''/containers/'' @ dockerID @ ''/stop?t=10''))) (\<lambda>r. case r of
           Inl e \<Rightarrow> if \<not> contains e ''is not running'' \<and> \<not> contains e ''No such container'' then Ret (Some e) else finish
         | Inr _ \<Rightarrow> finish))"

section \<open>Commands\<close>

definition created_msg :: "string \<Rightarrow> string + string \<Rightarrow> agent_message" where
  "created_msg cid r = AgentContainerCreated (case r of
     Inl e \<Rightarrow> ack_of cid [] (Some e) | Inr did \<Rightarrow> ack_of cid did None)"

text \<open>The goroutine of a command; other messages start none.\<close>

fun command_prog :: "'d daemon \<Rightarrow> master_message \<Rightarrow> ('d, unit) act" where
  "command_prog http (MasterCreateContainer cmd) =
     bind_prog (Create_prog http cmd) (\<lambda>r.
       call (agent_send (created_msg (cr_container_id cmd) r)) (\<lambda>_. Ret ()))"
| "command_prog http (MasterStopContainer cid did remove) =
     bind_prog (Stop_prog http did remove) (\<lambda>e.
       call (agent_send (AgentContainerStopped (ack_of cid did e))) (\<lambda>_. Ret ()))"
| "command_prog http (MasterStartContainer cid did) =
     call (on_daemon (docker_Start http did)) (\<lambda>e.
       call (agent_send (AgentContainerStarted (ack_of cid did e))) (\<lambda>_. Ret ()))"
| "command_prog http _ = Ret ()"

section \<open>Loops\<close>

text \<open>\<open>metricsLoop\<close> over the readings of its ticks.\<close>

primrec metrics_prog :: "host_readings list \<Rightarrow> ('d, unit) act" where
  "metrics_prog [] = Ret ()"
| "metrics_prog (h # hs) =
     call (agent_send (AgentMetrics (Collect h))) (\<lambda>e. if e = None then metrics_prog hs else Ret ())"

fun forward_prog :: "container_event list \<Rightarrow> gotime \<Rightarrow> ('d, gotime \<times> bool) act" where
  "forward_prog [] lastSeen = Ret (lastSeen, True)"
| "forward_prog (ev # evs) lastSeen =
     (if event_cid ev = [] then forward_prog evs lastSeen
      else if fst (mapDockerActionToState (ev_Action ev)) = [] then forward_prog evs lastSeen
      else call (agent_send (event_message (event_cid ev) ev)) (\<lambda>e. case e of
           Some e \<Rightarrow> Ret (lastSeen, False)
         | None \<Rightarrow> forward_prog evs (if is_zero (ev_Time ev) then lastSeen else ev_Time ev)))"

type_synonym 'd event_source = "string \<Rightarrow> 'd \<Rightarrow> 'd \<times> (string + nat \<times> string \<times> json list)"

definition events_turn_prog ::
  "'d event_source \<Rightarrow> gotime \<Rightarrow> bool \<Rightarrow> events_state \<Rightarrow> ('d, events_state \<times> turn_end) act" where
  "events_turn_prog source now cancelled es =
     call (on_daemon (Events source (es_lastSeen es))) (\<lambda>r. case r of
        Inl e \<Rightarrow> Ret
          (let (fails, quiet) = noteEventsFailure now (30 * second) 3 (es_recentFails es) (es_quiet es)
           in (es\<lparr>es_recentFails := fails, es_quiet := quiet\<rparr>, if cancelled then Returned
                 else AfterDelay (backoffFor (es_backoff es) quiet (60 * second))))
      | Inr evs \<Rightarrow>
          bind_prog (forward_prog evs (es_lastSeen es)) (\<lambda>(seen, ok).
            let es1 = es\<lparr>es_backoff := second, es_recentFails := [], es_quiet := False, es_lastSeen := seen\<rparr> in
            if \<not> ok \<or> cancelled then Ret (es1, Returned)
            else
              (let (fails, quiet) = noteEventsFailure now (30 * second) 3 (es_recentFails es1) (es_quiet es1)
               in Ret (es1\<lparr>es_recentFails := fails, es_quiet := quiet\<rparr>, AfterDelay 0))))"

text \<open>\<open>dockerEventsLoop\<close>: the time of each turn and whether the context is cancelled during it.\<close>

primrec events_prog :: "'d event_source \<Rightarrow> (gotime \<times> bool) list \<Rightarrow> events_state \<Rightarrow> ('d, unit) act" where
  "events_prog source [] es = Ret ()"
| "events_prog source (x # xs) es = bind_prog (events_turn_prog source (fst x) (snd x) es) (\<lambda>(es', t).
     case t of Returned \<Rightarrow> Ret () | AfterDelay _ \<Rightarrow> events_prog source xs es')"

definition remember :: "string \<Rightarrow> string \<Rightarrow> 'd agent \<Rightarrow> 'd agent" where
  "remember did cid a = a\<lparr>ag_reverseIDs := AList.update did cid (ag_reverseIDs a)\<rparr>"

fun listed_prog ::
  "int \<Rightarrow> container_info list \<Rightarrow> (string \<times> string) list \<Rightarrow> ('d, (string \<times> string) list \<times> bool) act" where
  "listed_prog now [] pushed = Ret (pushed, True)"
| "listed_prog now (i # is) pushed =
     (if ci_DockerId i = [] \<or> ci_ContainerId i = [] then listed_prog now is pushed
      else act (remember (ci_DockerId i) (ci_ContainerId i))
        (let (state, status) = mapDockerListState (ci_State i)
         in if state = [] then listed_prog now is pushed
            else if map_of pushed (ci_DockerId i) = Some state then listed_prog now is pushed
            else call (agent_send (poll_message now (ci_ContainerId i) (ci_DockerId i) ''poll'' state status)) (\<lambda>e. case e of
                Some e \<Rightarrow> Ret (AList.delete (ci_DockerId i) pushed, False)
              | None \<Rightarrow> listed_prog now is (AList.update (ci_DockerId i) state pushed))))"

fun vanished_prog ::
  "int \<Rightarrow> string list \<Rightarrow> (string \<times> string) list \<Rightarrow> (string \<times> string) list \<Rightarrow>
     ('d, (string \<times> string) list \<times> bool) act" where
  "vanished_prog now seen [] pushed = Ret (pushed, True)"
| "vanished_prog now seen ((did, prev) # es) pushed =
     (if did \<in> set seen then vanished_prog now seen es pushed
      else if prev = ''exited'' \<or> prev = ''removed'' then vanished_prog now seen es (AList.delete did pushed)
      else call (\<lambda>a. (a, containerReverseID did a)) (\<lambda>c. case c of
           None \<Rightarrow> vanished_prog now seen es (AList.delete did pushed)
         | Some cid \<Rightarrow> call (agent_send (poll_message now cid did ''destroy'' ''exited'' ''exited'')) (\<lambda>e. case e of
                Some e \<Rightarrow> Ret (AList.delete did pushed, False)
              | None \<Rightarrow> vanished_prog now seen es (AList.delete did pushed))))"

definition tick_prog ::
  "'d daemon \<Rightarrow> ((string \<times> string) list \<Rightarrow> (string \<times> string) list) \<Rightarrow> int \<Rightarrow>
     (string \<times> string) list \<Rightarrow> ('d, (string \<times> string) list \<times> bool) act" where
  "tick_prog http visit now pushed =
     call (on_daemon (ListAgent http)) (\<lambda>r. case r of
        Inl e \<Rightarrow> Ret (pushed, True)
      | Inr infos \<Rightarrow> bind_prog (listed_prog now infos pushed) (\<lambda>(pushed1, ok).
          if ok then vanished_prog now (seen_ids infos) (visit pushed1) pushed1 else Ret (pushed1, False)))"

text \<open>\<open>containerPollLoop\<close>: the time of each tick.\<close>

primrec poll_prog ::
  "'d daemon \<Rightarrow> ((string \<times> string) list \<Rightarrow> (string \<times> string) list) \<Rightarrow> int list \<Rightarrow>
     (string \<times> string) list \<Rightarrow> ('d, unit) act" where
  "poll_prog http visit [] pushed = Ret ()"
| "poll_prog http visit (t # ts) pushed = bind_prog (tick_prog http visit t pushed) (\<lambda>(pushed', ok).
     if ok then poll_prog http visit ts pushed' else Ret ())"

section \<open>Alone\<close>

lemma on_daemon_simps:
  "snd (on_daemon f a) = snd (f (ag_daemon a))" "fst (on_daemon f a) = a\<lparr>ag_daemon := fst (f (ag_daemon a))\<rparr>"
  by (simp_all add: on_daemon_def split: prod.split)

lemma run_image: "run (image_prog http cmd) a = Some (on_daemon (image_ready http cmd) a)"
  by (simp add: image_prog_def image_ready_def on_daemon_def split: prod.split option.split sum.split bool.split)

lemma run_Create: "run (Create_prog http cmd) a = Some (on_daemon (Create http cmd) a)"
proof -
  obtain d1 e where d1: "image_ready http cmd (ag_daemon a) = (d1, e)" by force
  obtain d2 r where d2: "doJSON http ''POST'' ''/containers/create'' (Some (render (create_body cmd))) d1 = (d2, r)"
    by force
  show ?thesis
    by (simp add: Create_prog_def Create_def run_bind run_image on_daemon_def d1 d2 del: render.simps
        split: option.split sum.split prod.split)
qed

lemma run_Stop: "run (Stop_prog http did remove) a = Some (on_daemon (docker_Stop http did remove) a)"
  by (simp add: Stop_prog_def docker_Stop_def on_daemon_def Let_def split: sum.split prod.split)

lemma run_command: "run (command_prog http msg) a = Some (handleMasterMessage http msg a, ())"
proof (cases msg)
  case (MasterCreateContainer cmd)
  obtain d r where "Create http cmd (ag_daemon a) = (d, r)" by force
  then show ?thesis
    by (simp add: MasterCreateContainer run_bind run_Create on_daemon_def handleCreate_def created_msg_def Let_def
        split: sum.split)
qed (simp_all add: run_bind run_Stop on_daemon_def handleStop_def handleStart_def split: prod.split)

lemma run_forward: "run (forward_prog evs seen) a = (case forward_events evs a seen of (a', x) \<Rightarrow> Some (a', x))"
  by (induction evs arbitrary: a seen) (simp_all split: option.split prod.split)

lemma run_events_turn:
  "run (events_turn_prog source now cancelled es) a =
     (case events_turn source now cancelled a es of (a', x) \<Rightarrow> Some (a', x))"
proof -
  obtain d r where e: "Events source (es_lastSeen es) (ag_daemon a) = (d, r)" by force
  show ?thesis
  proof (cases r)
    case (Inr evs)
    obtain a2 seen ok where "forward_events evs (a\<lparr>ag_daemon := d\<rparr>) (es_lastSeen es) = (a2, seen, ok)"
      by (metis prod_cases3)
    then show ?thesis
      by (simp add: events_turn_prog_def events_turn_def e Inr on_daemon_def run_bind run_forward Let_def
          split: prod.split)
  qed (simp add: events_turn_prog_def events_turn_def e on_daemon_def Let_def split: prod.split)
qed

lemma run_listed: "run (listed_prog now is pushed) a = (case poll_listed now is a pushed of (a', x) \<Rightarrow> Some (a', x))"
proof (induction "is" arbitrary: a pushed)
  case (Cons i "is")
  then show ?case
    by (simp add: remember_def Let_def split: prod.split option.split)
qed simp

lemma run_vanished:
  "run (vanished_prog now seen es pushed) a = (case poll_vanished now seen es a pushed of (a', x) \<Rightarrow> Some (a', x))"
  by (induction es arbitrary: a pushed) (auto split: prod.split option.split)

lemma run_tick: "run (tick_prog http visit now pushed) a = (case poll_tick http visit now a pushed of (a', x) \<Rightarrow> Some (a', x))"
proof -
  obtain d r where l: "ListAgent http (ag_daemon a) = (d, r)" by force
  show ?thesis
  proof (cases r)
    case (Inr infos)
    obtain a1 p1 ok where "poll_listed now infos (a\<lparr>ag_daemon := d\<rparr>) pushed = (a1, p1, ok)" by (metis prod_cases3)
    then show ?thesis
      by (cases ok) (simp_all add: tick_prog_def poll_tick_def l Inr on_daemon_def run_bind run_listed run_vanished)
  qed (simp add: tick_prog_def poll_tick_def l on_daemon_def)
qed

end
