(* ===== verification/Agent_Session.thy ===== *)
theory Agent_Session
  imports Agent_Programs
begin

text \<open>
  The configurations of a running agent: its loops and the goroutines of the commands it received,
  while the stream may fail or be replaced and the daemon's state may change by itself. What the
  agent says to the master in any of them, and in which order it executes commands.
\<close>

section \<open>Configurations\<close>

datatype 'd agent_job =
    Command master_message
  | Metrics_loop "host_readings list"
  | Events_loop "'d event_source" "(gotime \<times> bool) list"
  | Poll_loop "(string \<times> string) list \<Rightarrow> (string \<times> string) list" "int list"

primrec agent_job_prog :: "'d daemon \<Rightarrow> 'd agent_job \<Rightarrow> ('d, unit) act" where
  "agent_job_prog http (Command msg) = command_prog http msg"
| "agent_job_prog http (Metrics_loop hs) = metrics_prog hs"
| "agent_job_prog http (Events_loop source xs) = events_prog source xs events_init"
| "agent_job_prog http (Poll_loop visit ts) = poll_prog http visit ts []"

text \<open>Between the calls: sends start or stop failing, containers change on the host, and the agent
  reconnects. The goroutines of earlier sessions go on and then use the new stream.\<close>

inductive agent_env :: "'d agent \<Rightarrow> 'd agent \<Rightarrow> bool" where
  sends: "agent_env a (a\<lparr>ag_faults := fs\<rparr>)"
| host: "agent_env a (a\<lparr>ag_daemon := d\<rparr>)"
| reconnect: "agent_env a (fst (serve_start dialled first hostname os arch version (a\<lparr>ag_sent := []\<rparr>)))"

abbreviation agent_step :: "'d daemon \<Rightarrow> 'd agent \<times> ('d, unit) act list \<Rightarrow> 'd agent \<times> ('d, unit) act list \<Rightarrow> bool" where
  "agent_step http \<equiv> interleave (range (agent_job_prog http)) agent_env"

lemma agent_arrive: "agent_step http (a, ts) (a, ts @ [agent_job_prog http j])"
  by (rule interleave.arrive) simp

section \<open>What the agent says\<close>

definition reported_states :: "string set" where
  "reported_states = {''running'', ''exited'', ''paused''}"

fun sound_message :: "agent_message \<Rightarrow> bool" where
  "sound_message (AgentContainerStateChanged c) \<longleftrightarrow> sc_container_id c \<noteq> [] \<and> sc_state c \<in> reported_states"
| "sound_message (AgentHeartbeat _) = False"
| "sound_message AgentEmpty = False"
| "sound_message _ = True"

definition sound :: "'d agent \<Rightarrow> bool" where
  "sound a \<longleftrightarrow> (\<forall>m \<in> set (ag_sent a). sound_message m) \<and> (\<forall>(d, c) \<in> set (ag_reverseIDs a). c \<noteq> [])"

text \<open>An answer to a command of the master, and the command it answers.\<close>

fun is_answer :: "agent_message \<Rightarrow> bool" where
  "is_answer (AgentContainerCreated k) = True"
| "is_answer (AgentContainerStopped k) = True"
| "is_answer (AgentContainerStarted k) = True"
| "is_answer _ = False"

fun answers :: "master_message \<Rightarrow> agent_message \<Rightarrow> bool" where
  "answers (MasterCreateContainer cmd) (AgentContainerCreated k) \<longleftrightarrow> ca_container_id k = cr_container_id cmd"
| "answers (MasterStopContainer cid did remove) (AgentContainerStopped k) \<longleftrightarrow>
     ca_container_id k = cid \<and> ca_docker_id k = did"
| "answers (MasterStartContainer cid did) (AgentContainerStarted k) \<longleftrightarrow>
     ca_container_id k = cid \<and> ca_docker_id k = did"
| "answers _ _ = False"

lemma answers_is_answer: "answers c m \<Longrightarrow> is_answer m"
  by (cases c; cases m) simp_all

text \<open>A step that stays sound and says nothing new but messages of \<open>M\<close>.\<close>

definition says :: "(agent_message \<Rightarrow> bool) \<Rightarrow> 'd agent \<Rightarrow> 'd agent \<Rightarrow> bool" where
  "says M a a' \<longleftrightarrow> sound a' \<and> (\<forall>m \<in> set (ag_sent a'). m \<in> set (ag_sent a) \<or> M m)"

abbreviation other :: "agent_message \<Rightarrow> bool" where
  "other m \<equiv> \<not> is_answer m"

lemma sound_send: "sound a \<Longrightarrow> sound_message m \<Longrightarrow> M m \<Longrightarrow> says M a (fst (agent_send m a))"
  by (auto simp: says_def sound_def agent_send_def stream_Send_def split: list.split option.split)

lemma sound_daemon: "sound a \<Longrightarrow> says M a (fst (on_daemon f a))"
  by (simp add: says_def sound_def on_daemon_simps)

lemma set_alist_update: "set (AList.update k v al) \<subseteq> insert (k, v) (set al)"
  by (induction al) auto

lemma sound_remember: "sound a \<Longrightarrow> cid \<noteq> [] \<Longrightarrow> says M a (remember did cid a)"
  using set_alist_update [of did cid "ag_reverseIDs a"] by (auto simp: says_def sound_def remember_def)

lemma sound_reverse: "sound a \<Longrightarrow> containerReverseID did a = Some cid \<Longrightarrow> cid \<noteq> []"
  by (auto simp: sound_def containerReverseID_def dest!: map_of_SomeD)

lemma reported: "fst (mapDockerActionToState x) \<noteq> [] \<Longrightarrow> fst (mapDockerActionToState x) \<in> reported_states"
  "fst (mapDockerListState y) \<noteq> [] \<Longrightarrow> fst (mapDockerListState y) \<in> reported_states"
  by (simp_all add: mapDockerActionToState_def mapDockerListState_def reported_states_def split: if_splits)

lemma sound_steps:
  "sound_message m \<Longrightarrow> M m \<Longrightarrow> (\<And>e. guarded sound (says M) (k e)) \<Longrightarrow> guarded sound (says M) (call (agent_send m) k)"
  "(\<And>r. guarded sound (says M) (k' r)) \<Longrightarrow> guarded sound (says M) (call (on_daemon f) k')"
  "cid \<noteq> [] \<Longrightarrow> guarded sound (says M) p \<Longrightarrow> guarded sound (says M) (act (remember did cid) p)"
  by (rule guarded_call guarded_act; simp add: sound_send sound_daemon sound_remember)+

lemma sound_look:
  assumes "\<And>c. c \<noteq> Some [] \<Longrightarrow> guarded sound (says M) (k c)"
  shows "guarded sound (says M) (call (\<lambda>a. (a, containerReverseID did a)) k)"
  by (rule guarded_call_results) (use assms in \<open>auto simp: says_def dest: sound_reverse\<close>)

lemmas sound_rules = guarded_Ret guarded_bind sound_steps sound_look

lemma sound_command: "guarded sound (says (answers msg)) (command_prog http msg)"
  by (cases msg) (auto simp: Create_prog_def image_prog_def Stop_prog_def created_msg_def ack_of_def Let_def simp del: render.simps
      intro!: sound_rules split: sum.split option.split bool.split)

lemma sound_metrics: "guarded sound (says other) (metrics_prog hs)"
  by (induction hs) (auto intro!: sound_rules)

lemma sound_event: "event_cid ev \<noteq> [] \<Longrightarrow> fst (mapDockerActionToState (ev_Action ev)) \<noteq> [] \<Longrightarrow>
    sound_message (event_message (event_cid ev) ev)"
  using reported(1) [of "ev_Action ev"] by (auto simp: event_message_def split: prod.split)

lemma other_messages: "other (event_message cid ev)" "other (poll_message now cid did action state status)"
  by (simp_all add: event_message_def poll_message_def split: prod.split)

lemma sound_forward: "guarded sound (says other) (forward_prog evs seen)"
  by (induction evs arbitrary: seen) (auto intro!: sound_rules simp: sound_event other_messages split: option.split)

lemma sound_events: "guarded sound (says other) (events_prog source xs es)"
  by (induction xs arbitrary: es)
    (auto simp: events_turn_prog_def Let_def intro!: sound_rules sound_forward split: sum.split prod.split turn_end.split)

lemma sound_poll: "ci_ContainerId i \<noteq> [] \<Longrightarrow> mapDockerListState x = (state, status) \<Longrightarrow> state \<noteq> [] \<Longrightarrow>
    sound_message (poll_message now (ci_ContainerId i) did act' state status)"
  using reported(2) [of x] by (simp add: poll_message_def)

lemma sound_listed: "guarded sound (says other) (listed_prog now is pushed)"
  by (induction "is" arbitrary: pushed)
    (auto simp: Let_def sound_poll other_messages intro!: sound_rules split: option.split prod.split)

lemma sound_vanished: "guarded sound (says other) (vanished_prog now seen es pushed)"
  by (induction es arbitrary: pushed)
    (auto simp: poll_message_def reported_states_def intro!: sound_rules split: option.split)

lemma sound_polling: "guarded sound (says other) (poll_prog http visit ts pushed)"
  by (induction ts arbitrary: pushed)
    (auto simp: tick_prog_def intro!: sound_rules sound_listed sound_vanished split: sum.split prod.split)

text \<open>What a goroutine of each kind may say.\<close>

fun may_say :: "'d agent_job \<Rightarrow> agent_message \<Rightarrow> bool" where
  "may_say (Command msg) = answers msg"
| "may_say _ = other"

lemma sound_job: "guarded sound (says (may_say j)) (agent_job_prog http j)"
  by (cases j) (simp_all add: sound_command sound_metrics sound_events sound_polling)

lemma sound_serve_start: "sound a \<Longrightarrow> sound (fst (serve_start dialled first hostname os arch version (a\<lparr>ag_sent := []\<rparr>)))"
  by (auto simp: serve_start_def sound_def stream_Send_def Let_def
      split: option.split prod.splits sum.split master_message.split list.splits)

lemma sound_New: "New_agent name mid interval events daemon = Inr a \<Longrightarrow> sound a"
  by (auto simp: New_agent_def sound_def split: sum.splits)

interpretation agent: shared_invariant "range (agent_job_prog http)" agent_env sound "\<lambda>_. sound" for http
proof
  show "p \<in> range (agent_job_prog http) \<Longrightarrow> guarded sound (\<lambda>_. sound) p" for p
    using sound_job by (fastforce simp: says_def intro: guarded_weaken)
  show "sound a \<Longrightarrow> agent_env a a' \<Longrightarrow> sound a'" for a a'
    by (erule agent_env.cases) (simp_all add: sound_serve_start, simp_all add: sound_def)
qed simp

text \<open>C7. Whatever its loops and commands do and in whatever order, across reconnects and whatever
  happens to the containers of the host, the agent only sends messages the master acts on: a state
  change always names a container and one of the states running, exited and paused, and apart from
  registrations the rest are metrics and answers to commands.\<close>

theorem agent_messages_sound:
  assumes "New_agent name mid interval events daemon = Inr a" and "(agent_step http)\<^sup>*\<^sup>* (a, []) (a', ts)"
    and "m \<in> set (ag_sent a')"
  shows "case m of
      AgentContainerStateChanged c \<Rightarrow> sc_container_id c \<noteq> [] \<and> sc_state c \<in> {''running'', ''exited'', ''paused''}
    | AgentHeartbeat _ \<Rightarrow> False
    | AgentEmpty \<Rightarrow> False
    | _ \<Rightarrow> True"
proof -
  have "sound a'" by (rule agent.from_start [OF assms(2)]) (rule sound_New [OF assms(1)])
  with assms(3) have "sound_message m" by (simp add: sound_def)
  then show ?thesis by (cases m) (simp_all add: reported_states_def)
qed

definition ex_listing :: "unit daemon" where
  "ex_listing q d = (d, Inr \<lparr>ha_status = 200, ha_text = [], ha_json = Inr (JArr [JObj
     [(''Id'', JStr ''d1''), (''Labels'', JObj [(''pumpkinpie.container_id'', JStr ''c1'')]),
      (''State'', JStr ''paused'')]])\<rparr>)"

text \<open>An agent that has dialled and registered.\<close>

lemma ex_dialled:
  assumes "New_agent ''alpha'' ''m1'' [] True d = Inr a"
  defines "a1 \<equiv> fst (serve_start None (Inl []) ''h'' ''linux'' ''amd64'' ''1'' (a\<lparr>ag_sent := []\<rparr>))"
  shows "can_send a1" "ag_sent a1 = [AgentRegister \<lparr>rr_name = ''alpha'', rr_hostname = ''h'', rr_os = ''linux'',
      rr_arch = ''amd64'', rr_agent_version = ''1'', rr_machine_id = ''m1''\<rparr>]"
  using assms(1) by (auto simp: a1_def New_agent_def serve_start_def stream_Send_def can_send_def split: sum.splits)

text \<open>An agent that registers and polls once.\<close>

lemma ex_agent:
  obtains a a' where "New_agent ''alpha'' ''m1'' [] True () = Inr a" "(agent_step ex_listing)\<^sup>*\<^sup>* (a, []) (a', [Ret ()])"
    "ag_sent a' = [AgentRegister \<lparr>rr_name = ''alpha'', rr_hostname = ''h'', rr_os = ''linux'', rr_arch = ''amd64'',
       rr_agent_version = ''1'', rr_machine_id = ''m1''\<rparr>, poll_message 20 ''c1'' ''d1'' ''poll'' ''paused'' ''paused'']"
proof -
  obtain a where a: "New_agent ''alpha'' ''m1'' [] True () = Inr a"
    by (simp add: New_agent_def parseDuration_def)
  define a1 where "a1 = fst (serve_start None (Inl []) ''h'' ''linux'' ''amd64'' ''1'' (a\<lparr>ag_sent := []\<rparr>))"
  have 1: "agent_step ex_listing (a, []) (a1, [])" unfolding a1_def by (intro interleave.around agent_env.reconnect)
  have 2: "agent_step ex_listing (a1, []) (a1, [poll_prog ex_listing id [20] []])"
    using agent_arrive [of ex_listing a1 "[]" "Poll_loop id [20]"] by simp
  note s = ex_dialled [OF a, folded a1_def]
  have "ListAgent ex_listing d = (d, Inr [\<lparr>ci_ContainerId = ''c1'', ci_DockerId = ''d1'', ci_Name = [], ci_Image = [],
      ci_State = ''paused'', ci_Status = [], ci_Ports = []\<rparr>])" for d
    by (simp add: ListAgent_def doJSON_def ex_listing_def object_or_null_def info_of_def member_def as_string_def
        as_list_def List.map_filter_def)
  moreover have "agent_send m (a1\<lparr>ag_daemon := d, ag_reverseIDs := r\<rparr>) =
      (a1\<lparr>ag_daemon := d, ag_reverseIDs := r, ag_sent := ag_sent a1 @ [m]\<rparr>, None)" for m d r
    using s(1) agent_send_ok [of "a1\<lparr>ag_daemon := d, ag_reverseIDs := r\<rparr>" m] by (simp add: can_send_def)
  ultimately obtain a2 where a2: "run (poll_prog ex_listing id [20] []) a1 = Some (a2, ())"
    "ag_sent a2 = ag_sent a1 @ [poll_message 20 ''c1'' ''d1'' ''poll'' ''paused'' ''paused'']"
    by (auto simp: tick_prog_def on_daemon_def run_bind remember_def mapDockerListState_def seen_ids_def)
  have "(agent_step ex_listing)\<^sup>*\<^sup>* (a1, [poll_prog ex_listing id [20] []]) (a2, [Ret ()])"
    using thread_runs [OF a2(1), where i = 0 and ts = "[Ret ()]" and k = Ret] by (simp del: poll_prog.simps)
  with 1 2 have path: "(agent_step ex_listing)\<^sup>*\<^sup>* (a, []) (a2, [Ret ()])"
    by (meson converse_rtranclp_into_rtranclp)
  show thesis by (rule that [OF a path]) (simp add: a2(2) s(2))
qed

lemma agent_messages_sound_witness:
  "\<exists>a' c. (agent_step ex_listing)\<^sup>*\<^sup>* (projr (New_agent ''alpha'' ''m1'' [] True ()), []) (a', [Ret ()]) \<and>
     AgentContainerStateChanged c \<in> set (ag_sent a') \<and> sc_state c \<in> {''running'', ''exited'', ''paused''}"
proof (rule ex_agent)
  fix a a' assume a: "New_agent ''alpha'' ''m1'' [] True () = Inr a"
    and path: "(agent_step ex_listing)\<^sup>*\<^sup>* (a, []) (a', [Ret ()])"
    and "ag_sent a' = [AgentRegister \<lparr>rr_name = ''alpha'', rr_hostname = ''h'', rr_os = ''linux'', rr_arch = ''amd64'',
       rr_agent_version = ''1'', rr_machine_id = ''m1''\<rparr>, poll_message 20 ''c1'' ''d1'' ''poll'' ''paused'' ''paused'']"
  then obtain c where c: "AgentContainerStateChanged c \<in> set (ag_sent a')" by (auto simp: poll_message_def)
  from agent_messages_sound [OF a path c] c path a show ?thesis by auto
qed

section \<open>Commands\<close>

definition silent :: "('d agent \<times> 'd agent) list \<Rightarrow> bool" where
  "silent tr \<longleftrightarrow> list_all (\<lambda>(b, b'). ag_sent b' = ag_sent b) tr"

lemma silent_simps [simp]:
  "silent []" "silent ((b, b') # tr) \<longleftrightarrow> ag_sent b' = ag_sent b \<and> silent tr"
  "silent (t1 @ t2) \<longleftrightarrow> silent t1 \<and> silent t2"
  by (simp_all add: silent_def)

definition one_send :: "('d agent \<times> 'd agent) list \<Rightarrow> agent_message \<Rightarrow> bool" where
  "one_send tr m \<longleftrightarrow> (\<exists>t a. tr = t @ [(a, fst (agent_send m a))] \<and> silent t)"

lemma image_runs: "runs (image_prog http cmd) tr r \<Longrightarrow> length tr \<le> 2 \<and> silent tr"
  by (auto simp: image_prog_def on_daemon_simps elim!: runs_RetE runs_callE split: if_splits sum.splits bool.splits)

lemma Create_runs: "runs (Create_prog http cmd) tr r \<Longrightarrow> length tr \<le> 4 \<and> silent tr"
  by (auto simp: Create_prog_def on_daemon_simps simp del: render.simps
      elim!: runs_RetE runs_callE runs_bindE dest!: image_runs split: if_splits sum.splits option.splits)

lemma Stop_runs: "runs (Stop_prog http did remove) tr r \<Longrightarrow> length tr \<le> 2 \<and> silent tr"
  by (auto simp: Stop_prog_def Let_def on_daemon_simps elim!: runs_RetE runs_callE split: if_splits sum.splits)

text \<open>C33. Every command is answered exactly once, whatever runs beside its goroutine: after at most four
  requests to the daemon comes one send, the last call, of an answer of the command's own kind that
  names its container.\<close>

theorem command_answered_once:
  assumes "runs (command_prog http msg) tr ()"
  shows "length tr \<le> 5 \<and> (case msg of
      MasterCreateContainer cmd \<Rightarrow> \<exists>k. ca_container_id k = cr_container_id cmd \<and> one_send tr (AgentContainerCreated k)
    | MasterStopContainer cid did remove \<Rightarrow> \<exists>k. ca_container_id k = cid \<and> ca_docker_id k = did \<and>
        one_send tr (AgentContainerStopped k)
    | MasterStartContainer cid did \<Rightarrow> \<exists>k. ca_container_id k = cid \<and> ca_docker_id k = did \<and>
        one_send tr (AgentContainerStarted k)
    | _ \<Rightarrow> tr = [])"
proof (cases msg)
  case (MasterCreateContainer cmd)
  with assms obtain t r a where t: "runs (Create_prog http cmd) t r"
    "tr = t @ [(a, fst (agent_send (created_msg (cr_container_id cmd) r) a))]"
    by (auto elim!: runs_bindE runs_callE)
  moreover obtain k where "created_msg (cr_container_id cmd) r = AgentContainerCreated k" "ca_container_id k = cr_container_id cmd"
    by (cases r) (simp_all add: created_msg_def ack_of_def)
  ultimately show ?thesis
    using Create_runs [OF t(1)] by (auto simp: MasterCreateContainer one_send_def)
next
  case (MasterStopContainer cid did remove)
  with assms obtain t e a where t: "runs (Stop_prog http did remove) t e"
    "tr = t @ [(a, fst (agent_send (AgentContainerStopped (ack_of cid did e)) a))]"
    by (auto elim!: runs_bindE runs_callE)
  then show ?thesis
    using Stop_runs [OF t(1)]
    by (auto simp: MasterStopContainer one_send_def intro!: exI [of _ "ack_of cid did e"]) (simp_all add: ack_of_def)
next
  case (MasterStartContainer cid did)
  with assms obtain b e a where "tr = [(b, fst (on_daemon (docker_Start http did) b)),
      (a, fst (agent_send (AgentContainerStarted (ack_of cid did e)) a))]"
    by (auto elim!: runs_callE)
  then show ?thesis
    by (intro conjI) (simp_all add: MasterStartContainer one_send_def, intro exI [of _ "ack_of cid did e"],
      auto simp: ack_of_def on_daemon_simps)
qed (use assms in auto)

lemma command_answered_once_witness:
  "\<exists>tr k. runs (command_prog ex_listing (MasterStartContainer ''c1'' ''d1'')) tr () \<and> length tr \<le> 5 \<and>
     ca_container_id k = ''c1'' \<and> one_send tr (AgentContainerStarted k)"
proof -
  obtain a where "New_agent ''alpha'' ''m1'' [] True () = Inr a" by (simp add: New_agent_def parseDuration_def)
  obtain tr where r: "runs (command_prog ex_listing (MasterStartContainer ''c1'' ''d1'')) tr ()"
    using runs_alone [OF run_command [of ex_listing "MasterStartContainer ''c1'' ''d1''" a]] by blast
  from command_answered_once [OF r] r show ?thesis by auto
qed

end
