(* ===== verification/System.thy ===== *)
theory System
  imports Races Agent_Session
begin

text \<open>
  The states that the container table can hold: those the master writes itself and those an agent
  reports. Every call of every thread of the master stays within them when the messages it handles do,
  and the messages of an agent do.
\<close>

section \<open>The states of the container table\<close>

definition known_states :: "string set" where
  "known_states = own_states \<union> {''paused''}"

definition known_rows :: "store \<Rightarrow> bool" where
  "known_rows s \<longleftrightarrow> (\<forall>c \<in> set (st_containers s). c_State c \<in> known_states)"

interpretation known_table: table_predicate known_rows
  by unfold_locales (simp add: known_rows_def)

lemma known_update: "known_rows s \<Longrightarrow> (\<And>r. c_State r \<in> known_states \<Longrightarrow> c_State (f r) \<in> known_states) \<Longrightarrow>
    known_rows (update_container cid f s)"
  by (auto simp: known_rows_def update_container_def)

lemma known_port: "known_rows s \<Longrightarrow> known_rows (fst (insert_port p cid s))"
  by (simp add: insert_port_def known_rows_def)

lemma known_gpu: "known_rows s \<Longrightarrow> known_rows (fst (insert_gpu now nid cid i s))"
  by (simp add: insert_gpu_def known_rows_def)

lemma known_query: "known_rows s \<Longrightarrow> known_rows (fst (ListNodes s))" "known_rows s \<Longrightarrow> known_rows (fst (GetNode nid s))"
  "known_rows s \<Longrightarrow> known_rows (fst (GetNodeByMachineID mid s))" "known_rows s \<Longrightarrow> known_rows (fst (GPUUsageByNode s))"
  "known_rows s \<Longrightarrow> known_rows (fst (ListContainers s))" "known_rows s \<Longrightarrow> known_rows (fst (GetContainer cid s))"
  "known_rows s \<Longrightarrow> known_rows (fst (ContainerExists cid s))"
  "known_rows s \<Longrightarrow> known_rows (fst (ListGPUAllocsForNode nid s))"
  by (simp_all add: ListNodes_def GetNode_def GetNodeByMachineID_def GPUUsageByNode_def ListContainers_def
      GetContainer_def ContainerExists_def ListGPUAllocsForNode_def known_table.P_query)

lemma known_exec:
  "known_rows s \<Longrightarrow> known_rows (fst (UpsertNode now n s))"
  "known_rows s \<Longrightarrow> known_rows (fst (UpdateNodeState now nid state s))"
  "known_rows s \<Longrightarrow> known_rows (fst (UpdateNodeMetrics now n s))"
  "known_rows s \<Longrightarrow> c_State c \<in> known_states \<Longrightarrow> known_rows (fst (InsertContainer now c s))"
  "known_rows s \<Longrightarrow> state \<in> known_states \<Longrightarrow> known_rows (fst (UpdateContainerState now cid d state status s))"
  "known_rows s \<Longrightarrow> known_rows (fst (UpdateContainerGPUIndices now cid j s))"
  "known_rows s \<Longrightarrow> known_rows (fst (DeleteContainer cid s))"
  "known_rows s \<Longrightarrow> known_rows (fst (FreePort p s))"
  "known_rows s \<Longrightarrow> known_rows (fst (Store.FreeGPUs cid s))"
  unfolding UpsertNode_def UpdateNodeState_def UpdateNodeMetrics_def InsertContainer_def UpdateContainerState_def
    UpdateContainerGPUIndices_def DeleteContainer_def FreePort_def Store.FreeGPUs_def Let_def
  by (auto intro!: known_table.P_exec known_update) (auto simp: known_rows_def)

lemma known_call: "store_call known_states g \<Longrightarrow> known_rows s \<Longrightarrow> known_rows (g s)"
proof (induction rule: store_call.induct)
  case (16 start stop cid)
  then show ?case by (auto split: option.split intro: known_table.P_AllocPort [OF known_port])
next
  case (18 now nid cid count tot)
  show ?case by (rule known_table.P_AllocGPUs [OF known_gpu 18])
next
  case (19 now nid cid idxs)
  show ?case by (rule known_table.P_AllocSpecificGPUs [OF known_gpu 19])
next
  case (21 fs)
  then show ?case by (simp add: known_table.P_faults)
qed (simp_all add: known_query known_exec)

interpretation known: shared_calls known_states "\<lambda>y. known_rows (sy_store y)" "\<lambda>_ y. known_rows (sy_store y)"
proof
  fix y cid cc assume k: "known_rows (sy_store y)" and g: "snd (GetContainer cid (sy_store y)) = Inr cc"
  obtain s' r where "GetContainer cid (sy_store y) = (s', r)" by force
  with g have "\<exists>fs. s' = (sy_store y)\<lparr>st_faults := fs\<rparr> \<and>
      first_row scanContainer [r \<leftarrow> st_containers s'. c_ID r = cid] = Inr cc"
    by (auto simp: GetContainer_def dest: query_Inr)
  then have "first_row scanContainer [r \<leftarrow> st_containers (sy_store y). c_ID r = cid] = Inr cc" by auto
  then have "cc \<in> set (st_containers (sy_store y))"
    by (cases "[r \<leftarrow> st_containers (sy_store y). c_ID r = cid]")
      (auto simp: first_row_def scanContainer_def filter_eq_Cons_iff split: if_splits)
  with k show "c_State cc \<in> known_states" by (simp add: known_rows_def)
next
  fix h :: "manager \<Rightarrow> manager" and y assume "hub_call h"
  then show "known_rows (sy_store y) \<Longrightarrow> known_rows (sy_store (on_mgr h y))"
    by cases (simp_all add: install_def close_def Let_def split: option.split)
qed (auto simp: known_states_def known_call)

text \<open>What an agent sends names only such states.\<close>

lemma sound_within: "sound_message m \<Longrightarrow> message_within known_states m"
  by (cases m) (auto simp: known_states_def own_states_def reported_states_def)

end
