(* ===== verification/Rely.thy ===== *)
theory Rely
  imports Programs
begin

text \<open>
  Threads that rely on what they learnt. Every step of a configuration, of a thread or of the
  environment, is in one relation \<open>G\<close> between states; a thread may depend on facts that \<open>G\<close>
  preserves, and gives \<open>G\<close> and the invariant \<open>I\<close> back. Programs over a part of the state become
  programs over the whole.
\<close>

section \<open>A program after a state\<close>

text \<open>From any state that \<open>G\<close> leads to, the calls keep the invariant and stay within \<open>G\<close>.\<close>

inductive relies :: "('s \<Rightarrow> bool) \<Rightarrow> ('s \<Rightarrow> 's \<Rightarrow> bool) \<Rightarrow> ('s, 'r) prog \<Rightarrow> 's \<Rightarrow> bool" for I G where
  relies_Ret: "relies I G (Ret r) s"
| relies_Call: "(\<And>t t' p. G s t \<Longrightarrow> I t \<Longrightarrow> f t = Some (t', p) \<Longrightarrow> I t' \<and> G t t') \<Longrightarrow>
    (\<And>t t' p. G s t \<Longrightarrow> I t \<Longrightarrow> f t = Some (t', p) \<Longrightarrow> relies I G p t') \<Longrightarrow> relies I G (Call f) s"

inductive_cases relies_CallE: "relies I G (Call f) s"

lemma relies_next:
  "relies I G (Call f) s \<Longrightarrow> G s t \<Longrightarrow> I t \<Longrightarrow> f t = Some (t', p) \<Longrightarrow> I t' \<and> G t t' \<and> relies I G p t'"
  by (erule relies_CallE) blast

section \<open>Part of a state\<close>

primrec lift_prog :: "('n \<Rightarrow> 's) \<Rightarrow> ('s \<Rightarrow> 'n \<Rightarrow> 'n) \<Rightarrow> ('s, 'r) prog \<Rightarrow> ('n, 'r) prog" where
  "lift_prog get put (Ret r) = Ret r"
| "lift_prog get put (Call f) = Call (\<lambda>n.
     case (map_option (map_prod id (lift_prog get put)) \<circ> f) (get n) of
       None \<Rightarrow> None | Some (s, p) \<Rightarrow> Some (put s n, p))"

text \<open>Alone, a lifted program does to its part what the program does.\<close>

lemma run_lift:
  assumes "\<And>s n. get (put s n) = s" and "\<And>s t n. put t (put s n) = put t n" and "\<And>n. put (get n) n = n"
  shows "run (lift_prog get put p) n = map_option (\<lambda>(s, r). (put s n, r)) (run p (get n))"
proof (induction p arbitrary: n)
  case (Call f)
  show ?case
  proof (cases "f (get n)")
    case (Some x)
    obtain s p where x: "x = (s, p)" by force
    have "run (lift_prog get put p) (put s n) = map_option (\<lambda>(s, r). (put s (put s n), r)) (run p s)"
      using Call.IH [of "Some x" x p "put s n"] rangeI [of f "get n"] by (simp add: Some x assms)
    then show ?thesis by (auto simp: Some x assms map_option_case split: option.split)
  qed simp
qed (simp add: assms)

text \<open>One relation for all threads and the environment.\<close>

locale rely_guarantee =
  fixes J :: "('s, 'r) prog set" and E :: "'s \<Rightarrow> 's \<Rightarrow> bool" and I :: "'s \<Rightarrow> bool" and G :: "'s \<Rightarrow> 's \<Rightarrow> bool"
  assumes refl: "G s s"
    and trans: "G s t \<Longrightarrow> G t u \<Longrightarrow> G s u"
    and jobs: "p \<in> J \<Longrightarrow> relies I G p s"
    and env: "I s \<Longrightarrow> E s s' \<Longrightarrow> I s' \<and> G s s'"
begin

lemma later:
  assumes "relies I G p s" and st: "G s t"
  shows "relies I G p t"
  using assms(1)
proof cases
  case (relies_Call f)
  show ?thesis unfolding relies_Call(1)
    by (rule relies.relies_Call) (use relies_Call(2,3) trans [OF st] in blast)+
qed (simp add: relies_Ret)

lemma step:
  assumes "interleave J E c c'" and "I (fst c)" "\<forall>p \<in> set (snd c). relies I G p (fst c)"
  shows "I (fst c') \<and> G (fst c) (fst c') \<and> (\<forall>p \<in> set (snd c'). relies I G p (fst c'))"
  using assms
proof (cases rule: interleave.cases)
  case (advance i ts f s s' p)
  then have "relies I G (Call f) s" using assms(3) nth_mem [of i ts] by auto
  from relies_next [OF this refl _ advance(5)] assms(2) advance have n: "I s'" "G s s'" "relies I G p s'"
    by auto
  moreover have "relies I G q s'" if "q \<in> set ts" for q using that assms(3) advance n(2) later by auto
  ultimately show ?thesis using advance by (auto dest!: set_update_subset_insert [THEN subsetD])
next
  case (around s s' ts)
  with assms(2) env have "I s'" "G s s'" by auto
  with around assms(3) later show ?thesis by auto
qed (auto intro: jobs refl)

lemma reachable:
  assumes "(interleave J E)\<^sup>*\<^sup>* c c'" and "I (fst c)" "\<forall>p \<in> set (snd c). relies I G p (fst c)"
  shows "I (fst c') \<and> G (fst c) (fst c') \<and> (\<forall>p \<in> set (snd c'). relies I G p (fst c'))"
  using assms
proof (induction rule: rtranclp_induct)
  case (step c1 c2)
  then have 1: "I (fst c1)" "G (fst c) (fst c1)" "\<forall>p \<in> set (snd c1). relies I G p (fst c1)" by auto
  from rely_guarantee.step [OF rely_guarantee_axioms step.hyps(2) 1(1,3)] trans [OF 1(2)] show ?case by blast
qed (simp add: refl)

lemma from_start: "(interleave J E)\<^sup>*\<^sup>* (s, []) (s', ts) \<Longrightarrow> I s \<Longrightarrow> I s' \<and> G s s'"
  using reachable [of "(s, [])" "(s', ts)"] by simp

end

lemma relies_bind:
  assumes trans: "\<And>s t u. G s t \<Longrightarrow> G t u \<Longrightarrow> G s u" and refl: "\<And>s. G s s"
  shows "relies I G p s \<Longrightarrow> (\<And>a t. G s t \<Longrightarrow> relies I G (k a) t) \<Longrightarrow> relies I G (bind_prog p k) s"
proof (induction rule: relies.induct)
  case (relies_Call s f)
  show ?case
    unfolding bind_prog.simps
  proof (rule relies.relies_Call)
    fix t t' q
    assume t: "G s t" "I t" and "(map_option (map_prod id (\<lambda>p. bind_prog p k)) \<circ> f) t = Some (t', q)"
    then obtain p where p: "f t = Some (t', p)" "q = bind_prog p k" by auto
    from relies_Call.hyps(1) [OF t p(1)] show it: "I t' \<and> G t t'" .
    show "relies I G q t'"
      unfolding p(2)
    proof (rule relies_Call.IH [OF t p(1)])
      fix a u assume "G t' u"
      then have "G s u" using trans [OF trans [OF t(1)]] it by blast
      then show "relies I G (k a) u" by (rule relies_Call.prems)
    qed
  qed
qed (simp add: refl)

text \<open>A guarantee about the part is one about the whole, with what was known when the program started.\<close>

lemma relies_lift:
  assumes "\<And>s t u. G s t \<Longrightarrow> G t u \<Longrightarrow> G s u"
    and "\<And>t. I t \<Longrightarrow> A (get t)"
    and "\<And>t x. G n t \<Longrightarrow> I t \<Longrightarrow> S (get t) x \<Longrightarrow> I (put x t) \<and> G t (put x t)"
  shows "guarded A S p \<Longrightarrow> G n m \<Longrightarrow> relies I G (lift_prog get put p) m"
proof (induction arbitrary: m rule: guarded.induct)
  case (guarded_Call f)
  show ?case
    unfolding lift_prog.simps
  proof (rule relies.relies_Call)
    fix t t' q
    assume t: "G m t" "I t" and "(case (map_option (map_prod id (lift_prog get put)) \<circ> f) (get t) of
       None \<Rightarrow> None | Some (s, p) \<Rightarrow> Some (put s t, p)) = Some (t', q)"
    then obtain x p where p: "f (get t) = Some (x, p)" "t' = put x t" "q = lift_prog get put p"
      by (auto split: option.splits)
    have nt: "G n t" using assms(1) guarded_Call.prems t(1) by blast
    have "S (get t) x" using guarded_Call.hyps(1) [OF p(1)] assms(2) t(2) by blast
    with assms(3) [OF nt t(2)] show it: "I t' \<and> G t t'" unfolding p(2) by blast
    show "relies I G q t'"
      unfolding p(3) using guarded_Call.IH [OF p(1)] assms(1,2) t nt it by blast
  qed
qed (simp add: relies_Ret)

end
