(* ===== verification/Network.thy ===== *)
theory Network
  imports System Rely
begin

text \<open>
  One master and its agents, closed: the streams connect them. What an agent sent on a stream travels
  to the master, in order and possibly not all of it; the master's stream threads wait for it; what
  the master sent on a stream is what the agent's goroutines execute. All threads of both sides
  interleave.
\<close>

section \<open>Configurations\<close>

text \<open>The state of the master, of every agent with its current stream, the agent at the other end of
  each stream, what has arrived on it and how much of that the master has read, and how many of the
  master's messages the agent has taken.\<close>

record 'd net =
  nt_sys :: sys
  nt_agent :: "nat \<Rightarrow> 'd agent"
  nt_stream :: "nat \<Rightarrow> nat option"
  nt_owner :: "nat \<Rightarrow> nat option"
  nt_up :: "nat \<Rightarrow> agent_message list"
  nt_read :: "nat \<Rightarrow> nat"
  nt_taken :: "nat \<Rightarrow> nat"

type_synonym ('d, 'r) net_prog = "('d net, 'r) prog"

abbreviation at_master :: "(sys, 'r) prog \<Rightarrow> ('d, 'r) net_prog" where
  "at_master \<equiv> lift_prog nt_sys (\<lambda>y n. n\<lparr>nt_sys := y\<rparr>)"

definition set_agent :: "nat \<Rightarrow> 'd agent \<Rightarrow> 'd net \<Rightarrow> 'd net" where
  "set_agent i a n = n\<lparr>nt_agent := (nt_agent n)(i := a)\<rparr>"

abbreviation at_agent :: "nat \<Rightarrow> ('d agent, 'r) prog \<Rightarrow> ('d, 'r) net_prog" where
  "at_agent i \<equiv> lift_prog (\<lambda>n. nt_agent n i) (set_agent i)"

section \<open>The master's side\<close>

text \<open>\<open>Recv\<close> on a stream waits for the next message; the first one starts the thread of the stream.\<close>

definition recv :: "nat \<Rightarrow> (agent_message \<Rightarrow> ('d, 'r) net_prog) \<Rightarrow> ('d, 'r) net_prog" where
  "recv s k = Call (\<lambda>n. if nt_read n s < length (nt_up n s)
     then Some (n\<lparr>nt_read := (nt_read n)(s := Suc (nt_read n s))\<rparr>, k (nt_up n s ! nt_read n s)) else None)"

definition recv_first :: "nat \<Rightarrow> (agent_message \<Rightarrow> ('d, 'r) net_prog) \<Rightarrow> ('d, 'r) net_prog" where
  "recv_first s k = Call (\<lambda>n. if nt_read n s = 0 \<and> nt_up n s \<noteq> []
     then Some (n\<lparr>nt_read := (nt_read n)(s := 1)\<rparr>, k (hd (nt_up n s))) else None)"

text \<open>The loop of \<open>HandleMessages\<close>, over the times at which it handles its messages.\<close>

primrec read_messages :: "nat \<Rightarrow> session \<Rightarrow> gotime list \<Rightarrow> ('d, unit) net_prog" where
  "read_messages s sess [] = Ret ()"
| "read_messages s sess (t # ts) =
     recv s (\<lambda>m. bind_prog (at_master (message_prog t sess m)) (\<lambda>_. read_messages s sess ts))"

text \<open>\<open>GrpcServer.Connect\<close>: a stream that ends with the error \<open>e\<close> after the messages handled at \<open>ts\<close>.\<close>

definition serve_stream ::
  "nat \<Rightarrow> gotime \<Rightarrow> err + byte list \<Rightarrow> string option \<Rightarrow> gotime list \<Rightarrow> gotime \<Rightarrow> err \<Rightarrow> ('d, err) net_prog" where
  "serve_stream s now rnd peer ts later e =
     recv_first s (\<lambda>first. bind_prog (at_master (connect_prog now rnd peer s (Inr first))) (\<lambda>r. case r of
        Inl e1 \<Rightarrow> Ret e1
      | Inr (sess, nodeID) \<Rightarrow> bind_prog (at_master (look_up nodeID Ret)) (\<lambda>x. case x of
           None \<Rightarrow> Ret (ErrMsg ''session missing'')
         | Some sess \<Rightarrow> bind_prog (read_messages s sess ts) (\<lambda>_.
             bind_prog (at_master (disconnect_prog later nodeID e)) (\<lambda>_. Ret e)))))"

section \<open>The agents' side\<close>

definition sent_on :: "nat \<Rightarrow> sys \<Rightarrow> master_message list" where
  "sent_on s y = map snd [x \<leftarrow> mg_sent (sy_mgr y). fst x = s]"

text \<open>The read loop of a session: the next message of the stream, handled by a goroutine of its own.\<close>

definition take_command :: "(nat \<Rightarrow> 'd daemon) \<Rightarrow> nat \<Rightarrow> ('d, unit) net_prog" where
  "take_command http i = Call (\<lambda>n.
     case nt_stream n i of
       None \<Rightarrow> None
     | Some s \<Rightarrow>
         if nt_taken n s < length (sent_on s (nt_sys n))
         then Some (n\<lparr>nt_taken := (nt_taken n)(s := Suc (nt_taken n s))\<rparr>,
                at_agent i (command_prog (http i) (sent_on s (nt_sys n) ! nt_taken n s)))
         else None)"

section \<open>The network\<close>

datatype 'd net_job =
    Request env request
  | Agent_stream nat gotime "err + byte list" "string option" "gotime list" gotime err
  | Take nat
  | Metrics_of nat "host_readings list"
  | Events_of nat "'d event_source" "(gotime \<times> bool) list"
  | Poll_of nat "(string \<times> string) list \<Rightarrow> (string \<times> string) list" "int list"

definition silently :: "('s, 'a) prog \<Rightarrow> ('s, 'b option) prog" where
  "silently p = bind_prog p (\<lambda>_. Ret None)"

primrec net_job_prog :: "(nat \<Rightarrow> 'd daemon) \<Rightarrow> 'd net_job \<Rightarrow> ('d, response option) net_prog" where
  "net_job_prog http (Request ev q) = at_master (job_prog (Serve ev q))"
| "net_job_prog http (Agent_stream s now rnd peer ts later e) = silently (serve_stream s now rnd peer ts later e)"
| "net_job_prog http (Take i) = silently (take_command http i)"
| "net_job_prog http (Metrics_of i hs) = silently (at_agent i (metrics_prog hs))"
| "net_job_prog http (Events_of i source xs) = silently (at_agent i (events_prog source xs events_init))"
| "net_job_prog http (Poll_of i visit ts) = silently (at_agent i (poll_prog (http i) visit ts []))"

text \<open>Around the threads: what may happen to the master and the agents by itself; an agent dials and
  registers on a fresh stream, whose first message from the master its handshake takes; and what it
  sent there arrives, one more message at a time or many.\<close>

inductive net_env :: "'d net \<Rightarrow> 'd net \<Rightarrow> bool" where
  master: "ambient (nt_sys n) y \<Longrightarrow> net_env n (n\<lparr>nt_sys := y\<rparr>)"
| sends: "net_env n (set_agent i ((nt_agent n i)\<lparr>ag_faults := fs\<rparr>) n)"
| host: "net_env n (set_agent i ((nt_agent n i)\<lparr>ag_daemon := d\<rparr>) n)"
| dial: "nt_owner n s = None \<Longrightarrow> net_env n
    (set_agent i (fst (serve_start None first hostname os arch version ((nt_agent n i)\<lparr>ag_sent := []\<rparr>)))
      (n\<lparr>nt_stream := (nt_stream n)(i := Some s), nt_owner := (nt_owner n)(s := Some i), nt_taken := (nt_taken n)(s := 1)\<rparr>))"
| carry: "nt_stream n i = Some s \<Longrightarrow> length (nt_up n s) \<le> k \<Longrightarrow>
    net_env n (n\<lparr>nt_up := (nt_up n)(s := take k (ag_sent (nt_agent n i)))\<rparr>)"

abbreviation net_step :: "(nat \<Rightarrow> 'd daemon) \<Rightarrow> 'd net \<times> ('d, response option) net_prog list \<Rightarrow>
    'd net \<times> ('d, response option) net_prog list \<Rightarrow> bool" where
  "net_step http \<equiv> interleave (range (net_job_prog http)) net_env"

text \<open>Before anything is connected.\<close>

definition fresh_net :: "'d net \<Rightarrow> bool" where
  "fresh_net n \<longleftrightarrow> (\<forall>i. \<exists>name mid interval events daemon. New_agent name mid interval events daemon = Inr (nt_agent n i)) \<and>
     (\<forall>i. nt_stream n i = None) \<and> (\<forall>s. nt_owner n s = None \<and> nt_up n s = [] \<and> nt_read n s = 0)"

section \<open>What the two sides guarantee\<close>

definition tables_ok :: "sys \<Rightarrow> bool" where
  "tables_ok y \<longleftrightarrow> known_rows (sy_store y) \<and> integrity (sy_store y)"

definition commands_kept :: "sys \<Rightarrow> sys \<Rightarrow> bool" where
  "commands_kept y y' \<longleftrightarrow> tables_ok y' \<and> set (mg_sent (sy_mgr y)) \<subseteq> set (mg_sent (sy_mgr y'))"

lemma store_call_mono: "store_call K g \<Longrightarrow> store_call UNIV g"
  by (induction rule: store_call.induct) (simp_all add: store_call.intros)

interpretation master: shared_calls known_states tables_ok commands_kept
proof
  show "own_states \<subseteq> known_states" by (rule known.own)
  show "c_State cc \<in> known_states" if "tables_ok y" "snd (GetContainer cid (sy_store y)) = Inr cc" for y cid cc
    using that(1) known.rows [OF _ that(2)] by (simp add: tables_ok_def)
  show "commands_kept y (with_store (g (sy_store y)) y)" if "store_call known_states g" "tables_ok y" for g y
    using that known_call [OF that(1)] consistent.calls.store [OF store_call_mono [OF that(1)]]
    by (simp add: commands_kept_def tables_ok_def with_store_def)
  show "commands_kept y (on_mgr h y)" if "hub_call h" "tables_ok y" for h y
    using that(1) that(2)
    by cases (auto simp: commands_kept_def tables_ok_def install_def close_def stream_send_def Let_def on_mgr_def
        publish_def enqueueMetric_def split: option.split)
qed (simp_all add: commands_kept_def tables_ok_def)

section \<open>The invariant of the network\<close>

text \<open>A sound message of an agent that, if it is an answer, answers a command the master sent to it, on
  this stream or an earlier one.\<close>

definition accounted :: "'d net \<Rightarrow> nat \<Rightarrow> agent_message \<Rightarrow> bool" where
  "accounted n i m \<longleftrightarrow> sound_message m \<and> (is_answer m \<longrightarrow> (\<exists>s c. nt_owner n s = Some i \<and>
     (s, c) \<in> set (mg_sent (sy_mgr (nt_sys n))) \<and> answers c m))"

definition net_inv :: "'d net \<Rightarrow> bool" where
  "net_inv n \<longleftrightarrow> tables_ok (nt_sys n) \<and>
     (\<forall>i. sound (nt_agent n i)) \<and> (\<forall>i. \<forall>m \<in> set (ag_sent (nt_agent n i)). accounted n i m) \<and>
     (\<forall>s. \<forall>m \<in> set (nt_up n s). \<exists>i. nt_owner n s = Some i \<and> accounted n i m) \<and>
     (\<forall>i s. nt_stream n i = Some s \<longrightarrow> nt_owner n s = Some i)"

definition net_grows :: "'d net \<Rightarrow> 'd net \<Rightarrow> bool" where
  "net_grows n n' \<longleftrightarrow> set (mg_sent (sy_mgr (nt_sys n))) \<subseteq> set (mg_sent (sy_mgr (nt_sys n'))) \<and>
     (\<forall>s i. nt_owner n s = Some i \<longrightarrow> nt_owner n' s = Some i)"

lemma net_grows_trans: "net_grows s t \<Longrightarrow> net_grows t u \<Longrightarrow> net_grows s u"
  by (auto simp: net_grows_def)

lemma net_grows_refl [simp]: "net_grows s s"
  by (simp add: net_grows_def)

lemma accounted_grows: "accounted n i m \<Longrightarrow> net_grows n n' \<Longrightarrow> accounted n' i m"
  unfolding accounted_def net_grows_def by blast

lemma net_invD:
  assumes "net_inv n"
  shows "tables_ok (nt_sys n)" "sound (nt_agent n i)" "m \<in> set (ag_sent (nt_agent n i)) \<Longrightarrow> accounted n i m"
    "m \<in> set (nt_up n s) \<Longrightarrow> \<exists>i. nt_owner n s = Some i \<and> accounted n i m"
    "nt_stream n i = Some s \<Longrightarrow> nt_owner n s = Some i"
  using assms unfolding net_inv_def by blast+

text \<open>What a step adds has to be checked; the rest stays.\<close>

lemma net_inv_step:
  assumes "net_inv n" and g: "net_grows n n'" and "tables_ok (nt_sys n')" and "\<And>i. sound (nt_agent n' i)"
    and "\<And>i m. m \<in> set (ag_sent (nt_agent n' i)) \<Longrightarrow> m \<in> set (ag_sent (nt_agent n i)) \<or> accounted n' i m"
    and "\<And>s m. m \<in> set (nt_up n' s) \<Longrightarrow> m \<in> set (nt_up n s) \<or> (\<exists>i. nt_owner n' s = Some i \<and> accounted n' i m)"
    and "\<And>i s. nt_stream n' i = Some s \<Longrightarrow> nt_stream n i = Some s \<or> nt_owner n' s = Some i"
  shows "net_inv n' \<and> net_grows n n'"
proof -
  have o: "nt_owner n s = Some i \<Longrightarrow> nt_owner n' s = Some i" for s i using g by (simp add: net_grows_def)
  have "accounted n' i m" if "m \<in> set (ag_sent (nt_agent n' i))" for i m
    using assms(5) [OF that] net_invD(3) [OF assms(1)] accounted_grows [OF _ g] by blast
  moreover have "\<exists>i. nt_owner n' s = Some i \<and> accounted n' i m" if "m \<in> set (nt_up n' s)" for s m
    using assms(6) [OF that] net_invD(4) [OF assms(1)] accounted_grows [OF _ g] o by blast
  moreover have "nt_owner n' s = Some i" if "nt_stream n' i = Some s" for i s
    using assms(7) [OF that] net_invD(5) [OF assms(1)] o by blast
  ultimately show ?thesis using assms(3,4) g unfolding net_inv_def by blast
qed

lemma net_inv_agent:
  assumes "net_inv n" and "sound a" and "\<And>m. m \<in> set (ag_sent a) \<Longrightarrow> m \<in> set (ag_sent (nt_agent n i)) \<or> accounted n i m"
  shows "net_inv (set_agent i a n) \<and> net_grows n (set_agent i a n)"
proof -
  have "accounted (set_agent i a n) j m = accounted n j m" for j m by (simp add: accounted_def set_agent_def)
  then show ?thesis
    using net_invD [OF assms(1)] assms(2,3)
    by (intro net_inv_step [OF assms(1)]) (auto simp: set_agent_def net_grows_def split: if_splits)
qed

lemma relies_master:
  fixes n :: "'d net"
  shows "guarded tables_ok commands_kept p \<Longrightarrow> relies net_inv net_grows (at_master p) n"
proof (rule relies_lift [where n = n, OF _ _ _ _ net_grows_refl])
  fix t :: "'d net" and x
  assume "net_inv t" and "commands_kept (nt_sys t) x"
  then show "net_inv (t\<lparr>nt_sys := x\<rparr>) \<and> net_grows t (t\<lparr>nt_sys := x\<rparr>)"
    by (intro net_inv_step) (auto simp: commands_kept_def net_grows_def net_invD(2))
qed (auto simp: net_inv_def intro: net_grows_trans)

lemma relies_agent:
  fixes p :: "('d agent, 'r) prog" and n :: "'d net"
  assumes "guarded sound (says M) p"
    and "\<And>t m. net_grows n t \<Longrightarrow> sound_message m \<Longrightarrow> M m \<Longrightarrow> accounted t i m"
  shows "relies net_inv net_grows (at_agent i p) n"
proof (rule relies_lift [where n = n, OF _ _ _ assms(1) net_grows_refl])
  fix t :: "'d net" and a
  assume t: "net_grows n t" "net_inv t" and s: "says M (nt_agent t i) a"
  have "m \<in> set (ag_sent (nt_agent t i)) \<or> accounted t i m" if "m \<in> set (ag_sent a)" for m
    using s that assms(2) [OF t(1)] by (auto simp: says_def sound_def)
  with s t(2) show "net_inv (set_agent i a t) \<and> net_grows t (set_agent i a t)"
    by (intro net_inv_agent) (auto simp: says_def)
qed (auto simp: net_inv_def intro: net_grows_trans)

lemma relies_other: "guarded sound (says other) p \<Longrightarrow> relies net_inv net_grows (at_agent i p) n"
  by (rule relies_agent [where M = other]) (simp_all add: accounted_def)

lemma relies_recv:
  assumes "\<And>m t. sound_message m \<Longrightarrow> relies net_inv net_grows (k m) t"
  shows "relies net_inv net_grows (recv s k) n" "relies net_inv net_grows (recv_first s k) n"
proof -
  have step: "net_inv (t\<lparr>nt_read := f\<rparr>) \<and> net_grows t (t\<lparr>nt_read := f\<rparr>)" if "net_inv t" for t :: "'a net" and f
    using that by (intro net_inv_step) (auto simp: net_grows_def net_invD(1,2))
  have sound: "relies net_inv net_grows (k m) u" if "net_inv t" "m \<in> set (nt_up t s)" for t u :: "'a net" and m
    using net_invD(4) [OF that] by (intro assms) (auto simp: accounted_def)
  show "relies net_inv net_grows (recv s k) n" unfolding recv_def
    by (rule relies_Call) (auto simp: step sound split: if_splits)
  show "relies net_inv net_grows (recv_first s k) n" unfolding recv_first_def
    by (rule relies_Call) (auto simp: step sound split: if_splits)
qed

lemma relies_then: "relies net_inv net_grows p s \<Longrightarrow> (\<And>a t. relies net_inv net_grows (k a) t) \<Longrightarrow>
    relies net_inv net_grows (bind_prog p k) s"
  by (rule relies_bind) (auto intro: net_grows_trans)

lemma relies_read: "relies net_inv net_grows (read_messages s sess ts) n"
proof (induction ts arbitrary: n)
  case (Cons t ts)
  show ?case unfolding read_messages.simps
    by (intro relies_recv relies_then relies_master master.message_kept sound_within Cons.IH) simp_all
qed (simp add: relies_Ret)

lemma relies_stream: "relies net_inv net_grows (serve_stream s now rnd peer ts later e) n"
  unfolding serve_stream_def
  by (intro relies_recv relies_then relies_master master.connect_kept)
    (auto intro!: relies_then relies_master relies_read relies_Ret master.disconnect_kept master.look_up_kept guarded_Ret
      split: sum.split option.split)

lemma relies_take:
  fixes n :: "'d net"
  shows "relies net_inv net_grows (take_command http i) n"
  unfolding take_command_def
proof (rule relies_Call)
  fix t t' :: "'d net" and q
  assume t: "net_inv t" and "(case nt_stream t i of
       None \<Rightarrow> None
     | Some s \<Rightarrow>
         if nt_taken t s < length (sent_on s (nt_sys t))
         then Some (t\<lparr>nt_taken := (nt_taken t)(s := Suc (nt_taken t s))\<rparr>,
                at_agent i (command_prog (http i) (sent_on s (nt_sys t) ! nt_taken t s)))
         else None) = Some (t', q)"
  then obtain s where s: "nt_stream t i = Some s" "nt_taken t s < length (sent_on s (nt_sys t))"
    "t' = t\<lparr>nt_taken := (nt_taken t)(s := Suc (nt_taken t s))\<rparr>"
    "q = at_agent i (command_prog (http i) (sent_on s (nt_sys t) ! nt_taken t s))"
    by (auto split: option.splits if_splits)
  define c where "c = sent_on s (nt_sys t) ! nt_taken t s"
  show "net_inv t' \<and> net_grows t t'"
    using t unfolding s(3) by (intro net_inv_step) (auto simp: net_grows_def net_invD(1,2))
  have "c \<in> set (sent_on s (nt_sys t))" unfolding c_def using s(2) by (rule nth_mem)
  then have c: "nt_owner t' s = Some i" "(s, c) \<in> set (mg_sent (sy_mgr (nt_sys t')))"
    using net_invD(5) [OF t s(1)] by (auto simp: s(3) sent_on_def)
  show "relies net_inv net_grows q t'"
    unfolding s(4) c_def [symmetric]
  proof (rule relies_agent [OF sound_command])
    fix u m assume u: "net_grows t' u" "sound_message m" "answers c m"
    with c have "nt_owner u s = Some i \<and> (s, c) \<in> set (mg_sent (sy_mgr (nt_sys u)))" by (auto simp: net_grows_def)
    with u show "accounted u i m" unfolding accounted_def by blast
  qed
qed

lemma relies_job: "relies net_inv net_grows (net_job_prog http j) n"
proof (cases j)
  case (Request ev q)
  have "guarded tables_ok commands_kept (job_prog (Serve ev q))" by (rule master.job_kept) simp
  then show ?thesis unfolding Request net_job_prog.simps by (rule relies_master)
qed (auto simp: silently_def intro!: relies_then relies_Ret relies_stream relies_take relies_other
    sound_metrics sound_events sound_polling)

lemma registers_only: "m \<in> set (ag_sent (fst (serve_start d first hostname os arch version (a\<lparr>ag_sent := []\<rparr>)))) \<Longrightarrow> other m"
  by (auto simp: serve_start_def stream_Send_def Let_def
      split: list.splits option.splits sum.splits master_message.splits prod.splits if_splits)

lemma env_inv:
  assumes n: "net_inv n" and "net_env n n'"
  shows "net_inv n' \<and> net_grows n n'"
  using assms(2)
proof cases
  case (master y)
  have "commands_kept (nt_sys n) y" using master.ambient_kept [OF master(2)] net_invD(1) [OF n] .
  with n show ?thesis unfolding master(1)
    by (intro net_inv_step) (auto simp: commands_kept_def net_grows_def net_invD(2))
next
  case (dial s i first hostname os arch version)
  let ?a = "fst (serve_start None first hostname os arch version ((nt_agent n i)\<lparr>ag_sent := []\<rparr>))"
  have a: "sound ?a" by (rule sound_serve_start) (rule net_invD(2) [OF n])
  have "accounted n' i m" if "m \<in> set (ag_sent ?a)" for m
    using a that registers_only [OF that] by (auto simp: accounted_def sound_def)
  then show ?thesis
    using n a dial(2) unfolding dial(1)
    by (intro net_inv_step [OF n]) (auto simp: net_grows_def set_agent_def net_invD split: if_splits)
next
  case (carry i s k)
  have "accounted n' i m = accounted n i m" for i m by (simp add: carry(1) accounted_def)
  then show ?thesis
    using n net_invD(3,5) [OF n] carry(2) unfolding carry(1)
    by (intro net_inv_step [OF n]) (auto simp: net_grows_def net_invD(1,2) dest: in_set_takeD split: if_splits)
next
  case (sends i fs)
  show ?thesis unfolding sends
    by (rule net_inv_agent [OF n]) (use net_invD(2) [OF n, of i] in \<open>simp_all add: sound_def\<close>)
next
  case (host i d)
  show ?thesis unfolding host
    by (rule net_inv_agent [OF n]) (use net_invD(2) [OF n, of i] in \<open>simp_all add: sound_def\<close>)
qed

interpretation net: rely_guarantee "range (net_job_prog http)" net_env net_inv net_grows for http
  by unfold_locales (auto intro: net_grows_trans relies_job dest: env_inv)

section \<open>From the start\<close>

lemma New_agent_silent: "New_agent name mid interval events daemon = Inr a \<Longrightarrow> ag_sent a = []"
  by (auto simp: New_agent_def split: sum.splits)

lemma fresh_inv: "fresh_net n \<Longrightarrow> tables_ok (nt_sys n) \<Longrightarrow> net_inv n"
proof -
  assume f: "fresh_net n" and t: "tables_ok (nt_sys n)"
  have "sound (nt_agent n i) \<and> ag_sent (nt_agent n i) = []" for i
  proof -
    obtain name mid interval events daemon where "New_agent name mid interval events daemon = Inr (nt_agent n i)"
      using f unfolding fresh_net_def by blast
    from sound_New [OF this] New_agent_silent [OF this] show ?thesis ..
  qed
  with f t show ?thesis by (simp add: net_inv_def fresh_net_def)
qed

lemma net_reached: "(net_step http)\<^sup>*\<^sup>* (n, []) (n', ts) \<Longrightarrow> fresh_net n \<Longrightarrow> tables_ok (nt_sys n) \<Longrightarrow> net_inv n'"
  using net.from_start fresh_inv by blast

lemma tables_ok_states: "tables_ok y \<longleftrightarrow> integrity (sy_store y) \<and> (\<forall>c \<in> set (st_containers (sy_store y)).
    c_State c \<in> {''starting'', ''running'', ''stopping'', ''exited'', ''error'', ''paused''})"
  by (auto simp: tables_ok_def known_rows_def known_states_def own_states_def)

text \<open>C5. The master and its agents as one closed system: as long as the streams deliver what agents of
  this repository sent, then whatever requests, messages, commands, reconnects, events of the hosts and
  failures of the database and the streams are running at once, a container is always in one of six
  states, and the tables stay consistent.\<close>

theorem network_states:
  assumes "(net_step http)\<^sup>*\<^sup>* (n, []) (n', ts)" and "fresh_net n" and "integrity (sy_store (nt_sys n))"
    and "\<forall>c \<in> set (st_containers (sy_store (nt_sys n))).
      c_State c \<in> {''starting'', ''running'', ''stopping'', ''exited'', ''error'', ''paused''}"
  shows "integrity (sy_store (nt_sys n')) \<and> (\<forall>c \<in> set (st_containers (sy_store (nt_sys n'))).
      c_State c \<in> {''starting'', ''running'', ''stopping'', ''exited'', ''error'', ''paused''})"
  using net_invD(1) [OF net_reached [OF assms(1,2)]] assms(3,4) unfolding tables_ok_states by blast

text \<open>C6. An agent never acknowledges what it was not asked to do: every answer that arrives on a stream
  is the answer, for the same container and of the same kind, to a command that the master sent
  to the agent at the other end of the stream, on this stream or on an earlier one.\<close>

theorem answers_commanded:
  assumes "(net_step http)\<^sup>*\<^sup>* (n, []) (n', ts)" and "fresh_net n" and "tables_ok (nt_sys n)"
    and "m \<in> set (nt_up n' s)" and "is_answer m"
  shows "\<exists>i s' c. nt_owner n' s = Some i \<and> nt_owner n' s' = Some i \<and>
    (s', c) \<in> set (mg_sent (sy_mgr (nt_sys n'))) \<and> answers c m"
  using net_invD(4) [OF net_reached [OF assms(1,2,3)] assms(4)] assms(5) unfolding accounted_def by blast

section \<open>A run of the network\<close>

lemma run_at_master: "run (at_master p) n = map_option (\<lambda>(y, r). (n\<lparr>nt_sys := y\<rparr>, r)) (run p (nt_sys n))"
  by (rule run_lift) simp_all

lemma run_at_agent: "run (at_agent i p) n = map_option (\<lambda>(a, r). (set_agent i a n, r)) (run p (nt_agent n i))"
  by (rule run_lift) (simp_all add: set_agent_def)

lemma bind_recv_first: "recv_first s (\<lambda>f. bind_prog (k f) h) = bind_prog (recv_first s k) h"
  by (auto simp: recv_first_def fun_eq_iff)

text \<open>A thread arrives and runs, up to a point, while the others wait.\<close>

lemma net_runs:
  assumes "(net_step http)\<^sup>*\<^sup>* c (n, ts)" and "net_job_prog http j = bind_prog p k" and "run p n = Some (n', r)"
  shows "\<exists>ts'. (net_step http)\<^sup>*\<^sup>* c (n', ts')"
proof -
  have "net_step http (n, ts) (n, ts @ [bind_prog p k])" unfolding assms(2) [symmetric] by (rule interleave.arrive) (rule rangeI)
  moreover have "(net_step http)\<^sup>*\<^sup>* (n, ts @ [bind_prog p k]) (n', ts @ [k r])"
    using thread_runs [OF assms(3), where i = "length ts" and ts = "ts @ [k r]" and k = k] by simp
  ultimately show ?thesis
    by (intro exI, rule rtranclp_trans [OF rtranclp.rtrancl_into_rtrancl [OF assms(1)]])
qed

lemma net_moves: "(net_step http)\<^sup>*\<^sup>* c (n, ts) \<Longrightarrow> net_env n n' \<Longrightarrow> (net_step http)\<^sup>*\<^sup>* c (n', ts)"
  by (erule rtranclp.rtrancl_into_rtrancl) (rule interleave.around)

text \<open>The example master and an agent on the same host: the agent registers on stream 8, the master is
  asked to stop the container, and the agent does it.\<close>

definition ex_net :: "'d \<Rightarrow> 'd net" where
  "ex_net d = \<lparr>nt_sys = ex_sys, nt_agent = (\<lambda>_. projr (New_agent ''alpha'' ''m1'' [] True d)), nt_stream = (\<lambda>_. None),
     nt_owner = (\<lambda>_. None), nt_up = (\<lambda>_. []), nt_read = (\<lambda>_. 0), nt_taken = (\<lambda>_. 0)\<rparr>"

lemma ex_new: "New_agent ''alpha'' ''m1'' [] True d = Inr (nt_agent (ex_net d) i)"
  by (simp add: ex_net_def New_agent_def parseDuration_def)

lemma ex_fresh: "fresh_net (ex_net d)" "integrity (sy_store (nt_sys (ex_net d)))" "tables_ok (nt_sys (ex_net d))"
proof -
  show "integrity (sy_store (nt_sys (ex_net d)))" by (simp add: ex_net_def ex_integrity)
  then show "tables_ok (nt_sys (ex_net d))" by (simp add: tables_ok_states) (simp add: ex_net_def ex_defs)
  show "fresh_net (ex_net d)" using ex_new by (fastforce simp: fresh_net_def ex_net_def)
qed

lemma ex_connected:
  fixes http :: "nat \<Rightarrow> 'd daemon" and d
  obtains n ts where "(net_step http)\<^sup>*\<^sup>* ((ex_net d), []) (n, ts)"
    "healthy (sy_store (nt_sys n))" "st_containers (sy_store (nt_sys n)) = st_containers ex_store"
    "st_gpus (sy_store (nt_sys n)) = st_gpus ex_store"
    "reachable_agent ''n1'' (nt_sys n) (newSession ''n1'' ''alpha'' 8 (remoteHostFromContext None))"
    "length (sent_on 8 (nt_sys n)) = 1" "can_send (nt_agent n 0)" "ag_sent (nt_agent n 0) = [AgentRegister ex_register]"
    "nt_stream n 0 = Some 8" "nt_taken n 8 = 1" "length (nt_up n 8) = 1"
proof -
  obtain m sess where c: "OnAgentConnect 20 (Inr []) None 8 (Inr (AgentRegister ex_register)) ex_mgr = (m, Inr (sess, ''n1''))"
    and h: "healthy (mg_store m)" "st_containers (mg_store m) = st_containers ex_store" "mg_broken m = []" "st_gpus (mg_store m) = st_gpus ex_store"
    using ex_reconnected by blast
  have m: "sess = newSession ''n1'' ''alpha'' 8 (remoteHostFromContext None)"
    "mg_sessions m = AList.update ''n1'' sess (mg_sessions ex_mgr)" "\<exists>r. mg_sent m = [(8, MasterRegisterResp r)]"
    by (rule OnAgentConnect_Inr [OF c]; simp add: ex_register_def)+
  define a where "a = fst (serve_start None (Inl []) ''h'' ''linux'' ''amd64'' ''1'' ((nt_agent (ex_net d) 0)\<lparr>ag_sent := []\<rparr>))"
  note a = ex_dialled [OF ex_new [of d 0], folded a_def]
  define n1 where "n1 = set_agent 0 a ((ex_net d)\<lparr>nt_stream := (nt_stream (ex_net d))(0 := Some 8),
    nt_owner := (nt_owner (ex_net d))(8 := Some 0), nt_taken := (nt_taken (ex_net d))(8 := 1)\<rparr>)"
  define n2 where "n2 = n1\<lparr>nt_up := (nt_up n1)(8 := take 1 (ag_sent (nt_agent n1 0)))\<rparr>"
  define n3 where "n3 = n2\<lparr>nt_read := (nt_read n2)(8 := 1), nt_sys := on_mgr (\<lambda>_. m) ex_sys\<rparr>"
  have "net_env (ex_net d) n1" unfolding n1_def a_def by (rule net_env.dial) (simp add: ex_net_def)
  moreover have "net_env n1 n2" unfolding n2_def by (rule net_env.carry) (simp_all add: n1_def set_agent_def ex_net_def)
  ultimately have path: "(net_step http)\<^sup>*\<^sup>* ((ex_net d), []) (n2, [])"
    by (meson net_moves rtranclp.rtrancl_refl)
  have up: "nt_up n2 8 = [AgentRegister ex_register]" "nt_read n2 8 = 0" "nt_sys n2 = ex_sys"
    by (simp_all add: n2_def n1_def set_agent_def a ex_register_def ex_net_def)
  have r: "run (recv_first 8 (\<lambda>f. at_master (connect_prog 20 (Inr []) None 8 (Inr f)))) n2 = Some (n3, Inr (sess, ''n1''))"
    by (simp add: recv_first_def up run_at_master run_connect c n3_def)
  have j: "net_job_prog http (Agent_stream 8 20 (Inr []) None [] 20 ErrNoRows) =
      bind_prog (recv_first 8 (\<lambda>f. at_master (connect_prog 20 (Inr []) None 8 (Inr f))))
        (\<lambda>r. bind_prog (case r of Inl e \<Rightarrow> Ret e
          | Inr (sess, nodeID) \<Rightarrow> bind_prog (at_master (look_up nodeID Ret)) (\<lambda>x. case x of
              None \<Rightarrow> Ret (ErrMsg ''session missing'')
            | Some sess \<Rightarrow> bind_prog (read_messages 8 sess []) (\<lambda>_.
                bind_prog (at_master (disconnect_prog 20 nodeID ErrNoRows)) (\<lambda>_. Ret ErrNoRows)))) (\<lambda>_. Ret None))"
    by (simp only: net_job_prog.simps silently_def serve_stream_def bind_recv_first bind_assoc)
  obtain ts where "(net_step http)\<^sup>*\<^sup>* ((ex_net d), []) (n3, ts)"
    by (rule exE [OF net_runs [OF path j r]])
  then show thesis
  proof (rule that)
    show "reachable_agent ''n1'' (nt_sys n3) (newSession ''n1'' ''alpha'' 8 (remoteHostFromContext None))"
      using h(3) m(1,2) by (simp add: n3_def on_mgr_def reachable_agent_def Get_def update_conv')
    show "length (sent_on 8 (nt_sys n3)) = 1" using m(3) by (auto simp: n3_def on_mgr_def sent_on_def)
  qed (simp_all add: n3_def n2_def n1_def set_agent_def on_mgr_def ex_register_def h a)
qed

lemma ex_stop_sent:
  obtains n ts where "(net_step (\<lambda>_. ex_listing))\<^sup>*\<^sup>* (ex_net (), []) (n, ts)"
    "1 < length (sent_on 8 (nt_sys n))" "sent_on 8 (nt_sys n) ! 1 = MasterStopContainer ''c1'' ''d1'' False"
    "row (sy_store (nt_sys n)) ''c1'' = Some (set_state (ev_now ex_env) ''d1'' ''stopping'' ''stopping'' ex_container)"
    "can_send (nt_agent n 0)" "ag_sent (nt_agent n 0) = [AgentRegister ex_register]"
    "nt_stream n 0 = Some 8" "nt_taken n 8 = 1" "length (nt_up n 8) = 1"
proof (rule ex_connected [of "\<lambda>_. ex_listing" "()"])
  fix n :: "unit net" and ts
  let ?sess = "newSession ''n1'' ''alpha'' 8 (remoteHostFromContext None)" and ?y = "nt_sys n"
  assume path: "(net_step (\<lambda>_. ex_listing))\<^sup>*\<^sup>* (ex_net (), []) (n, ts)" and h: "healthy (sy_store ?y)"
    and cs: "st_containers (sy_store ?y) = st_containers ex_store" and reach: "reachable_agent ''n1'' ?y ?sess"
    and sent: "length (sent_on 8 ?y) = 1"
    and n: "can_send (nt_agent n 0)" "ag_sent (nt_agent n 0) = [AgentRegister ex_register]"
      "nt_stream n 0 = Some 8" "nt_taken n 8 = 1" "length (nt_up n 8) = 1"
  have row: "row (sy_store ?y) ''c1'' = Some ex_container" by (simp add: row_def cs ex_defs)
  have c: "c_NodeID ex_container = ''n1''" "c_DockerID ex_container = ''d1''" "c_ID ex_container = ''c1''"
    by (simp_all add: ex_container_def)
  define y where "y = fst (stopContainer ex_env ''c1'' ?y)"
  note ok = stopContainer_ok [OF h row, unfolded c, OF reach, of ex_env]
  have y: "mg_sent (sy_mgr y) = mg_sent (sy_mgr ?y) @ [(8, MasterStopContainer ''c1'' ''d1'' False)]"
    "sy_store y = stopping (ev_now ex_env) ex_container (sy_store ?y)"
    by (simp_all add: y_def ok Let_def unregister_def newSession_def)
  have "run (net_job_prog (\<lambda>_. ex_listing) (Request ex_env (Stop_container ''c1''))) n =
      Some (n\<lparr>nt_sys := y\<rparr>, Some (snd (stopContainer ex_env ''c1'' ?y)))"
    by (cases "stopContainer ex_env ''c1'' ?y") (simp add: run_at_master run_bind alone y_def)
  from net_runs [OF path bind_Ret [symmetric] this]
  obtain ts1 where 1: "(net_step (\<lambda>_. ex_listing))\<^sup>*\<^sup>* (ex_net (), []) (n\<lparr>nt_sys := y\<rparr>, ts1)" by (rule exE)
  have "sent_on 8 y = sent_on 8 ?y @ [MasterStopContainer ''c1'' ''d1'' False]" by (simp add: sent_on_def y)
  then show thesis
    by (intro that [OF 1]) (simp_all add: n sent y(2) stopping_def row_update row c nth_append)
qed

lemma ex_answered:
  obtains n ts k where "(net_step (\<lambda>_. ex_listing))\<^sup>*\<^sup>* (ex_net (), []) (n, ts)"
    "\<exists>c \<in> set (st_containers (sy_store (nt_sys n))). c_State c = ''stopping''"
    "AgentContainerStopped k \<in> set (nt_up n 8)"
proof (rule ex_stop_sent)
  fix n :: "unit net" and ts
  let ?stop = "MasterStopContainer ''c1'' ''d1'' False" and ?cc = "set_state (ev_now ex_env) ''d1'' ''stopping'' ''stopping'' ex_container"
  assume path: "(net_step (\<lambda>_. ex_listing))\<^sup>*\<^sup>* (ex_net (), []) (n, ts)"
    and s: "1 < length (sent_on 8 (nt_sys n))" "sent_on 8 (nt_sys n) ! 1 = ?stop" and row: "row (sy_store (nt_sys n)) ''c1'' = Some ?cc"
    and a: "can_send (nt_agent n 0)" "ag_sent (nt_agent n 0) = [AgentRegister ex_register]"
    and n: "nt_stream n 0 = Some 8" "nt_taken n 8 = 1" "length (nt_up n 8) = 1"
  define n2 where "n2 = set_agent 0 (handleMasterMessage ex_listing ?stop (nt_agent n 0)) (n\<lparr>nt_taken := (nt_taken n)(8 := 2)\<rparr>)"
  have take: "run (take_command (\<lambda>_. ex_listing) 0) n = Some (n2, ())"
    using s by (simp add: take_command_def n run_at_agent run_command n2_def set_agent_def numeral_2_eq_2
        del: command_prog.simps handleMasterMessage.simps)
  obtain ts2 where 2: "(net_step (\<lambda>_. ex_listing))\<^sup>*\<^sup>* (ex_net (), []) (n2, ts2)"
    by (rule exE [OF net_runs [OF path _ take, where j = "Take 0" and k = "\<lambda>_. Ret None"]]) (simp_all add: silently_def)
  obtain d e where "docker_Stop ex_listing ''d1'' False (ag_daemon (nt_agent n 0)) = (d, e)" by (rule prod.exhaust)
  with a have sent: "ag_sent (nt_agent n2 0) = [AgentRegister ex_register, AgentContainerStopped (ack_of ''c1'' ''d1'' e)]"
    by (simp add: n2_def set_agent_def handleStop_def agent_send_ok can_send_def)
  define n3 where "n3 = n2\<lparr>nt_up := (nt_up n2)(8 := take 2 (ag_sent (nt_agent n2 0)))\<rparr>"
  have "net_env n2 n3" unfolding n3_def by (rule net_env.carry) (simp_all add: n2_def set_agent_def n)
  from net_moves [OF 2 this] show thesis
  proof (rule that)
    have "?cc \<in> set (st_containers (sy_store (nt_sys n)))" using row by (metis row_def find_Some_iff nth_mem)
    then have "?cc \<in> set (st_containers (sy_store (nt_sys n3)))" by (simp add: n3_def n2_def set_agent_def)
    then show "\<exists>c \<in> set (st_containers (sy_store (nt_sys n3))). c_State c = ''stopping''" by (rule bexI [rotated]) simp
    show "AgentContainerStopped (ack_of ''c1'' ''d1'' e) \<in> set (nt_up n3 8)" by (simp add: n3_def sent)
  qed
qed

lemma network_states_witness:
  "\<exists>n ts. (net_step (\<lambda>_. ex_listing))\<^sup>*\<^sup>* (ex_net (), []) (n, ts) \<and> integrity (sy_store (nt_sys n)) \<and>
     (\<exists>c \<in> set (st_containers (sy_store (nt_sys n))). c_State c = ''stopping'')"
proof (rule ex_answered)
  fix n ts k
  assume path: "(net_step (\<lambda>_. ex_listing))\<^sup>*\<^sup>* (ex_net (), []) (n, ts)"
    and c: "\<exists>c \<in> set (st_containers (sy_store (nt_sys n))). c_State c = ''stopping''"
  have "\<forall>c \<in> set (st_containers (sy_store (nt_sys (ex_net ())))).
      c_State c \<in> {''starting'', ''running'', ''stopping'', ''exited'', ''error'', ''paused''}"
    using ex_fresh(3) [of "()"] unfolding tables_ok_states by blast
  from network_states [OF path ex_fresh(1,2) [of "()"] this] path c show ?thesis by blast
qed

lemma answers_commanded_witness:
  "\<exists>n ts k i s c. (net_step (\<lambda>_. ex_listing))\<^sup>*\<^sup>* (ex_net (), []) (n, ts) \<and> AgentContainerStopped k \<in> set (nt_up n 8) \<and>
     nt_owner n 8 = Some i \<and> nt_owner n s = Some i \<and> (s, c) \<in> set (mg_sent (sy_mgr (nt_sys n))) \<and>
     answers c (AgentContainerStopped k)"
proof (rule ex_answered)
  fix n ts k
  assume path: "(net_step (\<lambda>_. ex_listing))\<^sup>*\<^sup>* (ex_net (), []) (n, ts)" and k: "AgentContainerStopped k \<in> set (nt_up n 8)"
  have "is_answer (AgentContainerStopped k)" by simp
  from answers_commanded [OF path ex_fresh(1,3) [of "()"] k this] path k show ?thesis by blast
qed

section \<open>Commands that overtake each other\<close>

lemma Start_logged:
  obtains x d' e where "docker_Start (logged http) did ld =
    ((fst ld @ [(request ''POST'' (''/containers/'' @ did @ ''/start'') None, x)], d'), e)"
proof -
  obtain l1 d1 r where j: "doJSON (logged http) ''POST'' (''/containers/'' @ did @ ''/start'') None (fst ld, snd ld) = ((l1, d1), r)"
    by (metis prod.exhaust)
  then obtain x where "l1 = fst ld @ [(request ''POST'' (''/containers/'' @ did @ ''/start'') None, x)]" by (rule doJSON_logged)
  with j show thesis by (cases r) (auto simp: docker_Start_def docker_do_def intro: that)
qed

lemma Stop_logged:
  obtains x d' e where "docker_Stop (logged http) did False ld =
    ((fst ld @ [(request ''POST'' (''/containers/'' @ did @ ''/stop?t=10'') None, x)], d'), e)"
proof -
  obtain l1 d1 r where j: "doJSON (logged http) ''POST'' (''/containers/'' @ did @ ''/stop?t=10'') None (fst ld, snd ld) = ((l1, d1), r)"
    by (metis prod.exhaust)
  then obtain x where "l1 = fst ld @ [(request ''POST'' (''/containers/'' @ did @ ''/stop?t=10'') None, x)]" by (rule doJSON_logged)
  with j have "\<exists>e. docker_Stop (logged http) did False ld =
      ((fst ld @ [(request ''POST'' (''/containers/'' @ did @ ''/stop?t=10'') None, x)], d1), e)"
    by (cases r) (simp_all add: docker_Stop_def docker_do_def)
  then show thesis using that by blast
qed

text \<open>C34. Commands overtake each other. The master has sent an agent the stop and then the start of the
  same container, and the agent has read neither. From every such configuration the network can reach one
  where the agent has read both, in this order, but Docker was asked to start the container first
  and to stop it last, and the answers stand on the stream in that order too.\<close>

theorem commands_overtake:
  fixes http :: "nat \<Rightarrow> 'd daemon" and n :: "(exchange list \<times> 'd) net"
  assumes s: "nt_stream n i = Some s" "nt_taken n s = k" "Suc k < length (sent_on s (nt_sys n))"
    and stop: "sent_on s (nt_sys n) ! k = MasterStopContainer cid did False"
    and start: "sent_on s (nt_sys n) ! Suc k = MasterStartContainer cid did" and a: "can_send (nt_agent n i)"
  shows "\<exists>n' x1 x2 e1 e2. (net_step (\<lambda>j. logged (http j)))\<^sup>*\<^sup>* (n, ts) (n', ts @ [Ret None, Ret None]) \<and>
    nt_taken n' s = Suc (Suc k) \<and> nt_sys n' = nt_sys n \<and>
    fst (ag_daemon (nt_agent n' i)) = fst (ag_daemon (nt_agent n i)) @
      [(request ''POST'' (''/containers/'' @ did @ ''/start'') None, x1),
       (request ''POST'' (''/containers/'' @ did @ ''/stop?t=10'') None, x2)] \<and>
    ag_sent (nt_agent n' i) = ag_sent (nt_agent n i) @
      [AgentContainerStarted (ack_of cid did e1), AgentContainerStopped (ack_of cid did e2)]"
proof -
  let ?h = "\<lambda>j. logged (http j)" and ?k = "\<lambda>_ :: unit. Ret None :: (exchange list \<times> 'd, response option) net_prog"
  let ?take = "bind_prog (take_command ?h i) ?k"
  let ?stop = "at_agent i (command_prog (?h i) (MasterStopContainer cid did False)) :: (exchange list \<times> 'd, unit) net_prog"
  have new: "net_step ?h (m, us) (m, us @ [?take])" for m us
    using interleave.arrive [OF rangeI [of "net_job_prog ?h" "Take i"], of net_env m us] by (simp add: silently_def)
  define n1 where "n1 = n\<lparr>nt_taken := (nt_taken n)(s := Suc k)\<rparr>"
  have "net_step ?h (n, ts @ [?take, ?take]) (n1, (ts @ [?take, ?take])[length ts := bind_prog ?stop ?k])"
    by (rule interleave.advance [where f = "\<lambda>n. map_option (map_prod id (\<lambda>p. bind_prog p ?k)) (case nt_stream n i of None \<Rightarrow> None
        | Some s \<Rightarrow> if nt_taken n s < length (sent_on s (nt_sys n))
         then Some (n\<lparr>nt_taken := (nt_taken n)(s := Suc (nt_taken n s))\<rparr>,
                at_agent i (command_prog (?h i) (sent_on s (nt_sys n) ! nt_taken n s)))
         else None)"]) (use s stop in \<open>simp_all add: take_command_def n1_def comp_def del: command_prog.simps\<close>)
  with new [of n ts] new [of n "ts @ [?take]"]
  have 1: "(net_step ?h)\<^sup>*\<^sup>* (n, ts) (n1, ts @ [bind_prog ?stop ?k, ?take])"
    by (simp add: converse_rtranclp_into_rtranclp)
  define n2 where "n2 = set_agent i (handleStart (?h i) cid did (nt_agent n i)) (n1\<lparr>nt_taken := (nt_taken n)(s := Suc (Suc k))\<rparr>)"
  have "run (take_command ?h i) n1 = Some (n2, ())"
    using s start by (simp add: take_command_def n1_def n2_def run_at_agent run_command set_agent_def del: command_prog.simps)
  from thread_runs [OF this, where i = "Suc (length ts)" and ts = "ts @ [bind_prog ?stop ?k, ?take]" and k = ?k]
  have 2: "(net_step ?h)\<^sup>*\<^sup>* (n1, ts @ [bind_prog ?stop ?k, ?take]) (n2, ts @ [bind_prog ?stop ?k, Ret None])"
    by (simp add: list_update_append)
  define n3 where "n3 = set_agent i (handleStop (?h i) cid did False (nt_agent n2 i)) n2"
  have "run ?stop n2 = Some (n3, ())"
    by (simp add: n3_def run_at_agent run_command del: command_prog.simps)
  from thread_runs [OF this, where i = "length ts" and ts = "ts @ [bind_prog ?stop ?k, Ret None]" and k = ?k]
  have 3: "(net_step ?h)\<^sup>*\<^sup>* (n2, ts @ [bind_prog ?stop ?k, Ret None]) (n3, ts @ [Ret None, Ret None])"
    by (simp add: list_update_append)
  obtain x1 d1 e1 where start: "docker_Start (?h i) did (ag_daemon (nt_agent n i)) = ((fst (ag_daemon (nt_agent n i)) @
      [(request ''POST'' (''/containers/'' @ did @ ''/start'') None, x1)], d1), e1)" by (rule Start_logged)
  then have a2: "nt_agent n2 i = (nt_agent n i)\<lparr>ag_daemon := (fst (ag_daemon (nt_agent n i)) @
      [(request ''POST'' (''/containers/'' @ did @ ''/start'') None, x1)], d1),
      ag_sent := ag_sent (nt_agent n i) @ [AgentContainerStarted (ack_of cid did e1)]\<rparr>"
    using a by (simp add: n2_def set_agent_def handleStart_def agent_send_ok)
  obtain x2 d2 e2 where "docker_Stop (?h i) did False (ag_daemon (nt_agent n2 i)) = ((fst (ag_daemon (nt_agent n2 i)) @
      [(request ''POST'' (''/containers/'' @ did @ ''/stop?t=10'') None, x2)], d2), e2)" by (rule Stop_logged)
  then have "nt_agent n3 i = (nt_agent n2 i)\<lparr>ag_daemon := (fst (ag_daemon (nt_agent n2 i)) @
      [(request ''POST'' (''/containers/'' @ did @ ''/stop?t=10'') None, x2)], d2),
      ag_sent := ag_sent (nt_agent n2 i) @ [AgentContainerStopped (ack_of cid did e2)]\<rparr>"
    using a by (simp add: n3_def set_agent_def handleStop_def agent_send_ok a2)
  moreover have "nt_taken n3 s = Suc (Suc k)" "nt_sys n3 = nt_sys n"
    by (simp_all add: n3_def n2_def n1_def set_agent_def)
  ultimately show ?thesis using 1 2 3
    by (intro exI [of _ n3] exI [of _ x1] exI [of _ x2] exI [of _ e1] exI [of _ e2]) (simp add: a2)
qed

text \<open>The example master is asked to stop the container and then to start it.\<close>

lemma ex_both_sent:
  fixes http :: "nat \<Rightarrow> 'd daemon" and d
  obtains n ts where "(net_step http)\<^sup>*\<^sup>* (ex_net d, []) (n, ts)" "nt_stream n 0 = Some 8" "nt_taken n 8 = 1"
    "length (sent_on 8 (nt_sys n)) = 3" "sent_on 8 (nt_sys n) ! 1 = MasterStopContainer ''c1'' ''d1'' False"
    "sent_on 8 (nt_sys n) ! 2 = MasterStartContainer ''c1'' ''d1''" "can_send (nt_agent n 0)"
proof (rule ex_connected [of http d])
  fix n :: "'d net" and ts
  let ?sess = "newSession ''n1'' ''alpha'' 8 (remoteHostFromContext None)" and ?y = "nt_sys n" and ?cc = ex_container
  assume path: "(net_step http)\<^sup>*\<^sup>* (ex_net d, []) (n, ts)" and h: "healthy (sy_store ?y)"
    and cs: "st_containers (sy_store ?y) = st_containers ex_store" and gs: "st_gpus (sy_store ?y) = st_gpus ex_store"
    and reach: "reachable_agent ''n1'' ?y ?sess" and sent: "length (sent_on 8 ?y) = 1"
    and n: "can_send (nt_agent n 0)" "nt_stream n 0 = Some 8" "nt_taken n 8 = 1"
  have row: "row (sy_store ?y) ''c1'' = Some ?cc" by (simp add: row_def cs ex_defs)
  define y1 where "y1 = fst (stopContainer ex_env ''c1'' ?y)"
  define y2 where "y2 = fst (startContainer ex_env ''c1'' y1)"
  note stop = stopContainer_ok [OF h row, unfolded ex_container_fields, OF reach, of ex_env]
  let ?s1 = "stopping (ev_now ex_env) ?cc (sy_store ?y)" and ?cc1 = "set_state (ev_now ex_env) ''d1'' ''stopping'' ''stopping'' ?cc"
  have y1: "sy_store y1 = ?s1" "reachable_agent ''n1'' y1 ?sess"
    "mg_sent (sy_mgr y1) = mg_sent (sy_mgr ?y) @ [(8, MasterStopContainer ''c1'' ''d1'' False)]"
    using reach by (simp_all add: y1_def stop Let_def unregister_def newSession_def reachable_agent_def)
  have h1: "healthy (sy_store y1)" unfolding y1(1) by (rule healthy_stopping [OF h])
  have r1: "row (sy_store y1) ''c1'' = Some ?cc1" unfolding y1(1) using row_stopping [OF row] by simp
  have "holder (sy_store ?y) (''n1'', 0) = Some ''c1''" by (simp add: holder_def gs ex_store_def)
  then have "reservable ''n1'' ''c1'' [0] (sy_store y1)"
    unfolding y1(1) using reservable_stopping [OF h row] by (simp add: ex_saved)
  then have "reservable (c_NodeID ?cc1) (c_ID ?cc1) (saved_indices ?cc1) (sy_store y1)" by (simp add: ex_saved)
  from startContainer_ok [OF h1 r1 _ this, of ?sess ex_env] y1(2)
  have y2: "mg_sent (sy_mgr y2) = mg_sent (sy_mgr y1) @ [(8, MasterStartContainer ''c1'' ''d1'')]"
    by (simp add: y2_def Let_def register_and_bind_def newSession_def set_state_def)
  have req: "run (net_job_prog http (Request ex_env q)) m = Some (m\<lparr>nt_sys := fst r\<rparr>, Some (snd r))"
    if "handle ex_env q (nt_sys m) = Some r" for q m r
    using that by (cases r) (simp add: run_at_master run_bind run_handler)
  obtain ts1 where "(net_step http)\<^sup>*\<^sup>* (ex_net d, []) (n\<lparr>nt_sys := y1\<rparr>, ts1)"
    using net_runs [OF path bind_Ret [symmetric] req [of "Stop_container ''c1''" n]] by (auto simp: y1_def)
  from net_runs [OF this bind_Ret [symmetric] req [of "Start_container ''c1''" "n\<lparr>nt_sys := y1\<rparr>"]]
  obtain ts2 where 2: "(net_step http)\<^sup>*\<^sup>* (ex_net d, []) (n\<lparr>nt_sys := y2\<rparr>, ts2)" by (auto simp: y2_def)
  have "sent_on 8 y2 = sent_on 8 ?y @ [MasterStopContainer ''c1'' ''d1'' False, MasterStartContainer ''c1'' ''d1'']"
    by (simp add: sent_on_def y1 y2)
  then show thesis by (intro that [OF 2]) (simp_all add: n sent nth_append)
qed

lemma commands_overtake_witness:
  "\<exists>n ts n' x1 x2 e1 e2. (net_step (\<lambda>_. logged ex_listing))\<^sup>*\<^sup>* (ex_net ([], ()), []) (n, ts) \<and>
     sent_on 8 (nt_sys n) ! 1 = MasterStopContainer ''c1'' ''d1'' False \<and>
     sent_on 8 (nt_sys n) ! 2 = MasterStartContainer ''c1'' ''d1'' \<and>
     (net_step (\<lambda>_. logged ex_listing))\<^sup>*\<^sup>* (n, ts) (n', ts @ [Ret None, Ret None]) \<and>
     ag_sent (nt_agent n' 0) = ag_sent (nt_agent n 0) @
       [AgentContainerStarted (ack_of ''c1'' ''d1'' e1), AgentContainerStopped (ack_of ''c1'' ''d1'' e2)]"
proof (rule ex_both_sent [of "\<lambda>_. logged ex_listing" "([], ())"])
  fix n ts
  assume path: "(net_step (\<lambda>_. logged ex_listing))\<^sup>*\<^sup>* (ex_net ([], ()), []) (n, ts)"
    and n: "nt_stream n 0 = Some 8" "nt_taken n 8 = 1" "length (sent_on 8 (nt_sys n)) = 3" "can_send (nt_agent n 0)"
    and m: "sent_on 8 (nt_sys n) ! 1 = MasterStopContainer ''c1'' ''d1'' False"
      "sent_on 8 (nt_sys n) ! 2 = MasterStartContainer ''c1'' ''d1''"
  have "Suc 1 < length (sent_on 8 (nt_sys n))" "sent_on 8 (nt_sys n) ! Suc 1 = MasterStartContainer ''c1'' ''d1''"
    using n(3) m(2) by (simp_all add: numeral_2_eq_2)
  from commands_overtake [OF n(1,2) this(1) m(1) this(2) n(4), of "\<lambda>_. ex_listing" ts] path m show ?thesis by blast
qed

end
