(* ===== verification/Spec2Isabelle.thy ===== *)
theory Spec2Isabelle
  imports Store_Props Score_Order Docker_Ports Pipe Network
begin

text \<open>
  PumpkinPie, a container manager: one master with an HTTP API and a TCP proxy, one agent per node
  that runs containers through Docker. This development models the Go code of both and proves
  what makes them correct. Paths are under \<open>src/internal\<close> unless they start with \<open>cmd\<close>.

  \<^bold>\<open>The program and its model.\<close> The master keeps everything durable in SQLite
  (\<open>master/store\<close>). Agents hold one gRPC stream each (\<open>master/agentmgr\<close>): the first message
  registers the node, later ones report metrics, acknowledge commands and report container
  events. The HTTP handlers (\<open>master/api\<close>) choose a node (\<open>master/scheduler\<close>), reserve port and
  GPUs in the store, publish a route in the proxy (\<open>master/proxy\<close>) and send the command on the
  node's stream. Metrics also go through a bounded channel to a time-series sink
  (\<open>master/metrics\<close>). The agent (\<open>agent\<close>) reconnects for ever, and during a session samples the
  host (\<open>agent/collector\<close>), forwards Docker's events, polls the container list and executes
  commands through its Docker client (\<open>agent/docker\<close>).

  \<^bold>\<open>Theories.\<close>
  \<^item> \<open>Prelude\<close>, \<open>GoStrings\<close>, \<open>GoDuration\<close>, \<open>Float64\<close>, \<open>FloatText\<close>, \<open>Json\<close>: widths, time, and what
    the program uses of Go's standard library (\<open>strings\<close>, \<open>strconv\<close>, \<open>time.ParseDuration\<close>,
    \<open>float64\<close> with exact rounding, \<open>encoding/json\<close>).
  \<^item> \<open>Store\<close>: \<open>master/store/store.go\<close>. A record of four tables, one definition per method, the
    constraints and cascades of the schema written out. \<open>Store_Inv\<close>: the schema's integrity as an
    invariant of every method. \<open>Store_Alloc\<close>: the two allocators and the interface \<open>gpu_pool\<close>.
    \<open>Store_Healthy\<close>: the methods when no statement fails.
  \<^item> \<open>Proto\<close>: the messages. \<open>ApiUtil\<close>, \<open>Scheduler\<close>, \<open>Metrics\<close>, \<open>Proxy\<close>: the packages of that name.
    \<open>Score_Order\<close>: scores as a linear order. \<open>Pipe\<close>: the two goroutines that carry the bytes of a
    proxied connection, call by call, between two peers that act at any time.
  \<^item> \<open>AgentMgr\<close>: \<open>master/agentmgr\<close>, sessions and channels. \<open>AgentMgr_Inv\<close>: the interfaces
    \<open>bounded_chan\<close> and \<open>agent_frame\<close>. \<open>AgentMgr_Thms\<close>: what its handlers guarantee.
  \<^item> \<open>Api\<close>: every handler of \<open>master/api/api.go\<close>. \<open>Api_Inv\<close>: the interface \<open>request_frame\<close>.
    \<open>Api_Create\<close>, \<open>Api_Life\<close>: what creating, stopping, starting and deleting do.
  \<^item> \<open>MasterStart\<close>: \<open>master/config\<close> and \<open>cmd/master\<close>. \<open>Master_Steps\<close>: the master as a step relation
    and the interface \<open>master_invariant\<close>. \<open>Gpu_Pool\<close>: the abstract pool of containers and the GPUs they
    hold, and the step of it that each operation of the store is.
  \<^item> \<open>Collector\<close>, \<open>Docker\<close>, \<open>Docker_Ports\<close>, \<open>Agent\<close>, \<open>Agent_Thms\<close>: the agent. \<open>AgentStart\<close>: its arguments,
    configuration (\<open>agent/config\<close>) and identity (\<open>agent/identity\<close>). \<open>Entry\<close>: \<open>cmd/pp/main.go\<close> and
    the agent's \<open>Run\<close>.
  \<^item> \<open>Programs\<close>: programs that share a state, one atomic call at a time, the step relation \<open>interleave\<close>
    of several of them and the interface \<open>shared_invariant\<close>: an invariant of the state and what one step
    may do to it, promised by every call and every step around the threads. \<open>Api_Programs\<close>: the handlers of
    \<open>api.go\<close> as such programs. \<open>Threads\<close>: an agent's stream (\<open>GrpcServer.Connect\<close> and the manager's
    handlers) as one. \<open>Interleaving\<close>: the route table, the configurations of the master's threads, and
    the interface \<open>shared_calls\<close>.
  \<^item> \<open>Race_Props\<close>, \<open>Races\<close>: the numbered properties of the interleaving master.
  \<^item> \<open>Agent_Programs\<close>: the commands and loops of \<open>agent/agent.go\<close> as programs. \<open>Agent_Session\<close>: the
    configurations of a running agent and their properties. \<open>System\<close>: the states of the container
    table. \<open>Rely\<close>: programs that rely on what every step of the others guarantees, programs over a
    part of the state, and the interface \<open>rely_guarantee\<close>. \<open>Network\<close>: the master with its agents as
    one closed system, and the properties of the two sides together.
  \<^item> \<open>Store_Props\<close>, \<open>Master_Props\<close>, \<open>Message_Props\<close>, \<open>Create_Props\<close>, \<open>Life_Props\<close>, \<open>Agent_Props\<close>: the
    numbered properties; \<open>Examples\<close>: the small running master their witnesses evaluate on.

  \<^bold>\<open>How the code is read.\<close> A method that changes state takes the state and returns it with its
  result; an error is the left side of a sum. Integers keep their width as words. The database can
  fail at any statement: the store carries a script of faults, one entry per statement, that the
  properties quantify over; a transaction rolls back to the tables it started from. A stream can
  break at any send. Random bytes, clock readings, the listeners of the operating system, the
  Docker daemon, the YAML parser and the GreptimeDB client are arguments. 

  \<^bold>\<open>Concurrency.\<close> Every HTTP request and every agent stream of the master is a goroutine; they share the
  store, the manager and the proxy. The model has them twice. In the theories of the components a
  handler is one function of the state, which says what it computes. In \<open>Api_Programs\<close> and \<open>Threads\<close>
  it is a program whose calls are atomic: one method of \<open>Store\<close> (a single statement, a transaction, or
  a section under \<open>Store.mu\<close>), one section under the manager's or the proxy's lock, or one \<open>Send\<close>.
  Between two calls any other thread may run (\<open>conc_step\<close>), new ones may arrive, the database and the
  streams may start or stop failing, the metrics worker and the web sockets take their turns, and
  \<open>Shutdown\<close> may stop the worker. A program that runs alone is proved to be its handler; a handler
  reads the clock once. \<open>master_step\<close> is the coarser relation whose steps are whole handlers.
  In the agent every request to the Docker daemon and every send is a call; the goroutine of each
  command and the three loops run beside each other (\<open>agent_step\<close>), also across reconnects, while
  the containers of the host change by themselves. The events of one subscription are read at its
  start. The two sides meet in \<open>Network\<close>: a configuration holds the master, every agent with its current
  stream, what has arrived on each stream and what was read of it. An agent dials on a fresh stream;
  what it sends there arrives in order, possibly late and possibly not to the end; \<open>recv\<close> waits for the
  next message, and the read loop of the agent (\<open>take_command\<close>) takes what the master sent on its stream,
  one message at a time. The handshake of an agent is one step.

  \<^bold>\<open>What the lemmas show.\<close> The interfaces are locales, each interpreted on the model: a predicate of
  the tables (\<open>table_predicate\<close>) that the store's methods keep is kept by every message
  (\<open>agent_frame\<close>), by every request (\<open>request_frame\<close>) and so in every reachable state
  (\<open>master_frame\<close>, a sublocale of \<open>master_invariant\<close>). An instance gives the integrity of the tables;
  channel bounds and the uniqueness of sessions are further
  invariants. The same predicates hold in every configuration of the interleaving master
  (\<open>shared_calls\<close>, which the calls of every thread are proved to respect, with \<open>shared_invariant\<close> as its
  consequence), and so does a relation of every single step: each leaves the pool of GPUs as it is or
  is one step of its specification. An answer of 200 to a create means the same there as in the sequential model; what the missing lock between
  create and delete leaves possible, what registering a session before answering it does, and what
  the end of a replaced stream does to its replacement, are properties of their own. An agent's
  messages are sound in all its interleavings, every command is answered once, and two commands can
  overtake each other on their way to Docker. In the network each side's guarantee is
  the other side's assumption: \<open>net_inv\<close> is kept because every call of every thread, and everything
  around the threads, stays within \<open>net_grows\<close>, which preserves what a goroutine knows of the command it
  executes. From it follow the states a container can be in and that no answer arrives that was not
  asked for. The properties then state what a create guarantees and when it succeeds, the full
  trip of a create from request to acknowledgement, the round trip of stop and start, what
  deletion, disconnection and every message leave behind, that placement is the head of a stable
  sort, how a connection reaches its container and how the bridge half-closes it, that a restart restores the routes, and what the
  agent reports, in which order, and what it loses. Several properties pin down behaviour
  that is wrong or differs from a comment; their texts say so.

  \<^bold>\<open>Loops and fuel.\<close> Only \<open>dexp\<close> of \<open>FloatText\<close>, the decimal exponent of a number, uses fuel: the
  exponents of \<open>float64\<close> lie within 325 of zero. The shortest decimal is searched among 1 to 17
  digits, and 17 determine a \<open>float64\<close>. The port scan is a
  \<open>partial_function\<close>, since its 32-bit counter would wrap on a range that ends at the largest port
  number; it is proved to return in every case but the full range with every number taken, and so with
  the range of the code. The waits of the agent are computed
  from the list of its failed sessions.

  \<^bold>\<open>Not modelled.\<close> \<open>store.Close\<close>, gin's request binding and middleware, the web frontend, the
  generated protobuf code, gRPC and HTTP transport, log output, signal handling and process exit,
  and the end of the master's \<open>Run\<close> (the shutdown of the HTTP and gRPC servers). Times are integers
  and never overflow; a fused multiply-add, which the compiler may use in the scheduler's score on some
  processors, is not considered. A call to the database or a \<open>Send\<close> takes one step: that it may block,
  under flow control and with a lock held, is left out. Text is a list of bytes, so multi-byte runes
  count as several characters where Go's \<open>range\<close> sees one.
\<close>

end
